(* ===== verification/Hash_Table.thy ===== *)
theory Hash_Table
  imports Prelude "HOL-Library.AList"
begin

text \<open>
  GHashTable with string keys and GDBusObjectManagerServer, the two registries of the daemon.

  The interface of a hash table is a locale: the laws of lookup, insert and remove, and the list
  of the keys. The model keeps a table as the association list of its entries; the interpretation
  shows that this meets the laws. The order in which a real table lists its entries is not
  specified, so the definitions that iterate over one take that order as an argument.
\<close>

locale hash_table =
  fixes lookup :: "'t \<Rightarrow> 'k \<Rightarrow> 'v option"
    and insert :: "'k \<Rightarrow> 'v \<Rightarrow> 't \<Rightarrow> 't"
    and remove :: "'k \<Rightarrow> 't \<Rightarrow> 't"
    and keys :: "'t \<Rightarrow> 'k list"
    and invar :: "'t \<Rightarrow> bool"
  assumes lookup_insert: "invar t \<Longrightarrow> lookup (insert k v t) = (lookup t)(k \<mapsto> v)"
    and lookup_remove: "invar t \<Longrightarrow> lookup (remove k t) = (lookup t)(k := None)"
    and keys_lookup: "invar t \<Longrightarrow> set (keys t) = dom (lookup t)"
    and keys_distinct: "invar t \<Longrightarrow> distinct (keys t)"
    and invar_insert: "invar t \<Longrightarrow> invar (insert k v t)"
    and invar_remove: "invar t \<Longrightarrow> invar (remove k t)"
begin

lemma remove_inserted:
  assumes "invar t" and "lookup t k = None"
  shows "lookup (remove k (insert k v t)) = lookup t"
  using assms by (auto simp: lookup_remove invar_insert lookup_insert fun_eq_iff)

lemma keys_inserted:
  assumes "invar t" shows "set (keys (insert k v t)) = Set.insert k (set (keys t))"
  using assms by (simp add: keys_lookup invar_insert lookup_insert)

lemma keys_removed:
  assumes "invar t" shows "set (keys (remove k t)) = set (keys t) - {k}"
  using assms by (auto simp: keys_lookup invar_remove lookup_remove)

lemma length_inserted:
  assumes "invar t" and "lookup t k = None" shows "length (keys (insert k v t)) = Suc (length (keys t))"
proof -
  have "k \<notin> set (keys t)" using assms by (auto simp: keys_lookup)
  then have "card (set (keys (insert k v t))) = Suc (card (set (keys t)))"
    using assms(1) by (simp add: keys_inserted)
  then show ?thesis using assms(1) by (simp add: distinct_card keys_distinct invar_insert)
qed

text \<open>A free key exists among any list of candidates longer than the table.\<close>

lemma free_candidate:
  assumes "invar t" and "distinct ks" and "length (keys t) < length ks"
  shows "\<exists>k\<in>set ks. lookup t k = None"
proof (rule ccontr)
  assume "\<not> ?thesis"
  then have "set ks \<subseteq> set (keys t)" using assms(1) by (auto simp: keys_lookup)
  then have "card (set ks) \<le> card (set (keys t))" by (intro card_mono) simp_all
  with assms show False by (simp add: distinct_card keys_distinct)
qed

end

type_synonym 'v table = "(string \<times> 'v) list"

abbreviation table_ok :: "'v table \<Rightarrow> bool" where
  "table_ok t \<equiv> distinct (map fst t)"

interpretation ht: hash_table "map_of" "AList.update" "AList.delete" "map fst" table_ok
  by unfold_locales
    (simp_all add: AList.update_conv' AList.delete_conv' AList.distinct_update AList.distinct_delete dom_map_of_conv_image_fst)

subsection \<open>Object paths\<close>

text \<open>
  A path is a slash followed by elements separated by slashes, each one or more of the letters,
  the digits and the underscore. An object skeleton cannot be made for anything else: the
  constructor returns NULL, and nothing is exported then.
\<close>

definition path_chars :: string where
  "path_chars = ''ABCDEFGHIJKLMNOPQRSTUVWXYZabcdefghijklmnopqrstuvwxyz1234567890_''"

fun path_elements :: "string \<Rightarrow> string list" where
  "path_elements [] = [[]]"
| "path_elements (c # s) =
     (if c = CHR ''/'' then [] # path_elements s
      else (case path_elements s of [] \<Rightarrow> [[c]] | e # es \<Rightarrow> (c # e) # es))"

definition object_path :: "string \<Rightarrow> bool" where
  "object_path p =
     (case p of
        [] \<Rightarrow> False
      | c # t \<Rightarrow> c = CHR ''/'' \<and>
          (t = [] \<or> list_all (\<lambda>e. e \<noteq> [] \<and> list_all (\<lambda>c. c \<in> set path_chars) e) (path_elements t)))"

lemma path_elements_single [simp]: "CHR ''/'' \<notin> set s \<Longrightarrow> path_elements s = [s]"
  by (induction s) auto

lemma path_chars_no_slash: "CHR ''/'' \<notin> set path_chars"
  by (simp add: path_chars_def)

lemma path_elements_append [simp]:
  "CHR ''/'' \<notin> set e \<Longrightarrow> path_elements (e @ CHR ''/'' # t) = e # path_elements t"
  by (induction e) auto

text \<open>The paths of printers, jobs, devices and the manager.\<close>

definition printer_path_of :: "string \<Rightarrow> string" where
  "printer_path_of i = ''/org/freedesktop/printerd/printer/'' @ i"

definition job_path_of :: "guint \<Rightarrow> string" where
  "job_path_of n = ''/org/freedesktop/printerd/job/'' @ fmt_u (unat n)"

definition device_path_of :: "string \<Rightarrow> string" where
  "device_path_of i = ''/org/freedesktop/printerd/device/'' @ i"

definition manager_path :: string where
  "manager_path = ''/org/freedesktop/printerd/Manager''"

fun under :: "string list \<Rightarrow> string \<Rightarrow> string" where
  "under [] i = i"
| "under (e # es) i = e @ CHR ''/'' # under es i"

lemma path_elements_under:
  "(\<forall>e\<in>set es. CHR ''/'' \<notin> set e) \<Longrightarrow> CHR ''/'' \<notin> set i \<Longrightarrow> path_elements (under es i) = es @ [i]"
  by (induction es) simp_all

abbreviation element_ok :: "string \<Rightarrow> bool" where
  "element_ok e \<equiv> e \<noteq> [] \<and> set e \<subseteq> set path_chars"

lemma object_path_under:
  assumes "\<forall>e\<in>set es. element_ok e" and "CHR ''/'' \<notin> set i" and "es \<noteq> []"
  shows "object_path (CHR ''/'' # under es i) \<longleftrightarrow> element_ok i"
proof -
  have "\<forall>e\<in>set es. CHR ''/'' \<notin> set e" using assms(1) path_chars_no_slash by blast
  then have "path_elements (under es i) = es @ [i]" using assms(2) by (rule path_elements_under)
  moreover have "under es i \<noteq> []" using assms(3) by (cases es) auto
  ultimately show ?thesis using assms(1) by (auto simp: object_path_def list_all_iff)
qed

lemma path_chars_of_names:
  "\<forall>e\<in>set [''org'', ''freedesktop'', ''printerd'', ''printer'', ''job'', ''device'']. element_ok e"
  by (simp add: path_chars_def)

lemma object_path_of:
  assumes "CHR ''/'' \<notin> set i"
  shows "object_path (printer_path_of i) \<longleftrightarrow> element_ok i"
    and "object_path (''/org/freedesktop/printerd/job/'' @ i) \<longleftrightarrow> element_ok i"
    and "object_path (device_path_of i) \<longleftrightarrow> element_ok i"
  using object_path_under [of "[''org'', ''freedesktop'', ''printerd'', ''printer'']", OF _ assms]
    object_path_under [of "[''org'', ''freedesktop'', ''printerd'', ''job'']", OF _ assms]
    object_path_under [of "[''org'', ''freedesktop'', ''printerd'', ''device'']", OF _ assms]
    path_chars_of_names
  by (simp_all add: printer_path_of_def device_path_of_def)

lemma digit_path_char: "n < 10 \<Longrightarrow> digit n \<in> set path_chars"
proof -
  have "list_all (\<lambda>n. digit n \<in> set path_chars) [0..<10]" by code_simp
  then show "n < 10 \<Longrightarrow> digit n \<in> set path_chars" by (simp add: list_all_iff)
qed

lemma fmt_u_path_chars: "element_ok (fmt_u n)"
proof (induction n rule: fmt_u.induct)
  case (1 n)
  then show ?case
    by (cases "n < 10"; subst fmt_u.simps; subst (2) fmt_u.simps) (simp_all add: digit_path_char)
qed

lemma fmt_u_no_slash [simp]: "CHR ''/'' \<notin> set (fmt_u n)"
  using fmt_u_path_chars path_chars_no_slash by blast

lemma job_object_path [simp]: "object_path (job_path_of n)"
  unfolding job_path_of_def object_path_of(2) [OF fmt_u_no_slash] by (rule fmt_u_path_chars)

lemma manager_object_path [simp]: "object_path manager_path"
  using object_path_under [of "[''org'', ''freedesktop'', ''printerd'']" "''Manager''"]
  by (simp add: manager_path_def path_chars_def)

text \<open>Paths of different kinds, and of different names, are different.\<close>

lemma path_kinds [simp]:
  "printer_path_of i \<noteq> job_path_of n" "job_path_of n \<noteq> printer_path_of i"
  "printer_path_of i \<noteq> device_path_of j" "device_path_of j \<noteq> printer_path_of i"
  "job_path_of n \<noteq> device_path_of j" "device_path_of j \<noteq> job_path_of n"
  "printer_path_of i \<noteq> manager_path" "manager_path \<noteq> printer_path_of i"
  "job_path_of n \<noteq> manager_path" "manager_path \<noteq> job_path_of n"
  "device_path_of i \<noteq> manager_path" "manager_path \<noteq> device_path_of i"
  by (simp_all add: printer_path_of_def job_path_of_def device_path_of_def manager_path_def)

lemma printer_path_inj [simp]: "printer_path_of i = printer_path_of j \<longleftrightarrow> i = j"
  by (simp add: printer_path_of_def)

lemma device_path_inj [simp]: "device_path_of i = device_path_of j \<longleftrightarrow> i = j"
  by (simp add: device_path_of_def)

end
