(* ===== verification/Glib.thy ===== *)
theory Glib
  imports Prelude "HOL-Library.AList"
begin

text \<open>
  GLib is not part of the repository, so its string functions are a parameter of the model: a
  record of functions that the definitions which call them take as their first argument. The
  locale glib_contract states, function by function, the documented behaviour the code relies
  on; a theorem that needs it has glib_contract as its hypothesis. The record glib_doc is the
  documentation read as definitions: it shows that the contract can be met, and the witnesses
  evaluate the model with it.

  GVariant values of the types the sources build or inspect are a datatype; a dictionary of
  type a{sv} is the association list of its entries in order.
\<close>

subsection \<open>GVariant\<close>

datatype gvariant =
    GV_string string
  | GV_strv "string list"
  | GV_uint32 guint
  | GV_other string string

record glib =
  g_strsplit :: "string \<Rightarrow> string \<Rightarrow> nat \<Rightarrow> string list"
  g_strsplit_set :: "string \<Rightarrow> string \<Rightarrow> nat \<Rightarrow> string list"
  g_strstrip :: "string \<Rightarrow> string"
  g_strchomp :: "string \<Rightarrow> string"
  g_ascii_strcasecmp :: "string \<Rightarrow> string \<Rightarrow> int"
  g_ascii_strdown :: "string \<Rightarrow> string"
  g_strcanon :: "string \<Rightarrow> string \<Rightarrow> char \<Rightarrow> string"
  g_strrstr :: "string \<Rightarrow> string \<Rightarrow> string option"
  g_uri_escaped :: "string \<Rightarrow> bool \<Rightarrow> string"
  g_uri_parse_scheme :: "string \<Rightarrow> string option"
  g_uri_unescape_segment :: "string \<Rightarrow> string option"
  g_ascii_strtoull :: "string \<Rightarrow> nat"
  g_variant_print :: "gvariant \<Rightarrow> string"
  g_variant_dict_insert :: "(string \<times> gvariant) list \<Rightarrow> string \<Rightarrow> gvariant \<Rightarrow> (string \<times> gvariant) list"

subsection \<open>The documentation as definitions\<close>

text \<open>Splitting at every character of a set, with at most the given number of pieces (0: no limit).\<close>

fun split_at :: "(char \<Rightarrow> bool) \<Rightarrow> string \<Rightarrow> string list" where
  "split_at P [] = [[]]"
| "split_at P (c # s) =
     (if P c then [] # split_at P s
      else (case split_at P s of [] \<Rightarrow> [[c]] | t # ts \<Rightarrow> (c # t) # ts))"

fun split_max :: "(char \<Rightarrow> bool) \<Rightarrow> nat \<Rightarrow> string \<Rightarrow> string list" where
  "split_max P 0 s = []"
| "split_max P (Suc 0) s = [s]"
| "split_max P (Suc (Suc n)) s =
     (case dropWhile (\<lambda>c. \<not> P c) s of
        [] \<Rightarrow> [s]
      | _ # t \<Rightarrow> takeWhile (\<lambda>c. \<not> P c) s # split_max P (Suc n) t)"

definition doc_split :: "(char \<Rightarrow> bool) \<Rightarrow> string \<Rightarrow> nat \<Rightarrow> string list" where
  "doc_split P s n = (if s = [] then [] else if n = 0 then split_at P s else split_max P n s)"

definition doc_strchomp :: "string \<Rightarrow> string" where
  "doc_strchomp s = rev (dropWhile is_space (rev s))"

definition doc_strstrip :: "string \<Rightarrow> string" where
  "doc_strstrip s = doc_strchomp (dropWhile is_space s)"

definition doc_tolower :: "char \<Rightarrow> char" where
  "doc_tolower c =
     (if 65 \<le> (of_char c :: nat) \<and> (of_char c :: nat) \<le> 90 then char_of ((of_char c :: nat) + 32) else c)"

definition doc_strdown :: "string \<Rightarrow> string" where
  "doc_strdown s = map doc_tolower s"

definition doc_strcanon :: "string \<Rightarrow> string \<Rightarrow> char \<Rightarrow> string" where
  "doc_strcanon s valid sub = map (\<lambda>c. if c \<in> set valid then c else sub) s"

text \<open>The suffix that starts at the last occurrence of a one-character needle.\<close>

definition doc_strrchr :: "string \<Rightarrow> char \<Rightarrow> string option" where
  "doc_strrchr s c =
     (if c \<in> set s then Some (c # rev (takeWhile (\<lambda>d. d \<noteq> c) (rev s))) else None)"

definition doc_uri_scheme :: "string \<Rightarrow> string option" where
  "doc_uri_scheme s =
     (if CHR '':'' \<in> set s then Some (takeWhile (\<lambda>c. c \<noteq> CHR '':'') s) else None)"

definition doc_strtoull :: "string \<Rightarrow> nat" where
  "doc_strtoull s = min (2 ^ 64 - 1) (digits_val (takeWhile is_digit (dropWhile is_space s)))"

definition doc_variant_print :: "gvariant \<Rightarrow> string" where
  "doc_variant_print v =
     (case v of
        GV_string s \<Rightarrow> [CHR 0x27] @ s @ [CHR 0x27]
      | GV_strv ss \<Rightarrow> ''['' @ concat (map (\<lambda>s. [CHR 0x27] @ s @ [CHR 0x27]) ss) @ '']''
      | GV_uint32 n \<Rightarrow> fmt_u (unat n)
      | GV_other t s \<Rightarrow> s)"

definition glib_doc :: glib where
  "glib_doc =
     \<lparr> g_strsplit = (\<lambda>s d n. doc_split (\<lambda>c. [c] = d) s n),
       g_strsplit_set = (\<lambda>s ds n. doc_split (\<lambda>c. c \<in> set ds) s n),
       g_strstrip = doc_strstrip,
       g_strchomp = doc_strchomp,
       g_ascii_strcasecmp = (\<lambda>s t. if doc_strdown s = doc_strdown t then 0 else 1),
       g_ascii_strdown = doc_strdown,
       g_strcanon = doc_strcanon,
       g_strrstr = (\<lambda>s n. doc_strrchr s (hd n)),
       g_uri_escaped = (\<lambda>s r. s),
       g_uri_parse_scheme = doc_uri_scheme,
       g_uri_unescape_segment = Some,
       g_ascii_strtoull = doc_strtoull,
       g_variant_print = doc_variant_print,
       g_variant_dict_insert = (\<lambda>d k v. AList.update k v d) \<rparr>"

subsection \<open>The contract\<close>

text \<open>
  What the code relies on: splitting at one delimiter character without limit and with at most
  two pieces, splitting at a set with at most three, stripping white space at both ends,
  chomping it at the end, caseless comparison and lower-casing of ASCII, replacement of the
  characters outside a set, the last occurrence of one character, the range of strtoull, and
  what a dictionary without duplicate keys holds after an insertion (in no particular order).
  Escaping, unescaping, the parsing of a URI scheme and the
  printing of a variant are used without any assumption.
\<close>

locale glib_contract =
  fixes G :: glib
  assumes strsplit_all: "g_strsplit G s [d] 0 = doc_split (\<lambda>c. c = d) s 0"
    and strsplit_two: "g_strsplit G s [d] 2 = doc_split (\<lambda>c. c = d) s 2"
    and strsplit_set_three: "g_strsplit_set G s ds 3 = doc_split (\<lambda>c. c \<in> set ds) s 3"
    and strstrip: "g_strstrip G s = doc_strstrip s"
    and strchomp: "g_strchomp G s = doc_strchomp s"
    and strcasecmp: "g_ascii_strcasecmp G s t = 0 \<longleftrightarrow> doc_strdown s = doc_strdown t"
    and strdown: "g_ascii_strdown G s = doc_strdown s"
    and strcanon: "g_strcanon G s valid sub = doc_strcanon s valid sub"
    and strrstr: "g_strrstr G s [c] = doc_strrchr s c"
    and strtoull: "g_ascii_strtoull G s < 2 ^ 64"
    and dict_insert: "distinct (map fst kvs) \<Longrightarrow> map_of (g_variant_dict_insert G kvs k v) = (map_of kvs)(k \<mapsto> v)"
    and dict_distinct: "distinct (map fst kvs) \<Longrightarrow> distinct (map fst (g_variant_dict_insert G kvs k v))"

interpretation doc: glib_contract glib_doc
  by unfold_locales (simp_all add: glib_doc_def doc_strtoull_def min_def AList.update_conv' AList.distinct_update)

lemmas glib_doc_contract = doc.glib_contract_axioms

subsection \<open>Lemmas on the documented functions\<close>

lemma split_at_nonempty [simp]: "split_at P s \<noteq> []"
  by (induction s) (auto split: list.splits)

lemma split_at_clean [simp]: "\<forall>c\<in>set s. \<not> P c \<Longrightarrow> split_at P s = [s]"
  by (induction s) auto

lemma split_at_append [simp]:
  "\<forall>c\<in>set s. \<not> P c \<Longrightarrow> P d \<Longrightarrow> split_at P (s @ d # t) = s # split_at P t"
  by (induction s) auto

lemma split_max_two:
  "split_max P 2 s =
     (case dropWhile (\<lambda>c. \<not> P c) s of [] \<Rightarrow> [s] | _ # t \<Rightarrow> [takeWhile (\<lambda>c. \<not> P c) s, t])"
  unfolding numeral_2_eq_2 by (simp only: split_max.simps)

lemma dropWhile_split: "\<forall>c\<in>set s. \<not> P c \<Longrightarrow> P d \<Longrightarrow> dropWhile (\<lambda>c. \<not> P c) (s @ d # t) = d # t"
  by (induction s) simp_all

lemma takeWhile_split: "\<forall>c\<in>set s. \<not> P c \<Longrightarrow> P d \<Longrightarrow> takeWhile (\<lambda>c. \<not> P c) (s @ d # t) = s"
  by (induction s) simp_all

lemma set_strcanon: "sub \<in> set valid \<Longrightarrow> set (doc_strcanon s valid sub) \<subseteq> set valid"
  by (auto simp: doc_strcanon_def)

lemma strcanon_valid [simp]: "set s \<subseteq> set valid \<Longrightarrow> doc_strcanon s valid sub = s"
  by (auto simp: doc_strcanon_def intro!: map_idI)

lemma strcanon_append [simp]: "doc_strcanon (s @ t) valid sub = doc_strcanon s valid sub @ doc_strcanon t valid sub"
  by (simp add: doc_strcanon_def)

lemma strcanon_eq_Nil [simp]: "doc_strcanon s valid sub = [] \<longleftrightarrow> s = []"
  by (simp add: doc_strcanon_def)

lemma length_strcanon [simp]: "length (doc_strcanon s valid sub) = length s"
  by (simp add: doc_strcanon_def)

lemma strrchr_append [simp]: "c \<notin> set t \<Longrightarrow> doc_strrchr (s @ c # t) c = Some (c # t)"
proof -
  assume "c \<notin> set t"
  then have "takeWhile (\<lambda>d. d \<noteq> c) (rev t @ c # rev s) = rev t"
    by (intro takeWhile_neq_append) simp
  then show ?thesis by (simp add: doc_strrchr_def)
qed

subsection \<open>Dictionaries\<close>

type_synonym attrs = "(string \<times> gvariant) list"

text \<open>A typed lookup yields nothing when the value has another type.\<close>

definition lookup_string :: "attrs \<Rightarrow> string \<Rightarrow> string option" where
  "lookup_string d k = (case map_of d k of Some (GV_string s) \<Rightarrow> Some s | _ \<Rightarrow> None)"

lemma lookup_string_simps [simp]:
  "map_of d k = Some (GV_string s) \<Longrightarrow> lookup_string d k = Some s"
  "map_of d k = None \<Longrightarrow> lookup_string d k = None"
  "map_of d k = Some (GV_strv ss) \<Longrightarrow> lookup_string d k = None"
  by (simp_all add: lookup_string_def)

end
