(* ===== verification/Pd_Enums.thy ===== *)
theory Pd_Enums
  imports Glib
begin

text \<open>
  The enumerations of printerd/pd-enums.h, with the numbers they have on the bus, and the
  replies a D-Bus method call can get. Job_state_zero stands for the number 0, which is no
  enumerator: it is the content of a guint or gint field of a zeroed structure before the
  first assignment.
\<close>

datatype pd_error =
    PD_ERROR_FAILED
  | PD_ERROR_CANCELLED
  | PD_ERROR_UNIMPLEMENTED
  | PD_ERROR_UNSUPPORTED_DOCUMENT_TYPE

text \<open>The names that printerd/pd-error.c registers for the errors.\<close>

definition dbus_error_entries :: "(pd_error \<times> string) list" where
  "dbus_error_entries =
     [(PD_ERROR_FAILED, ''org.freedesktop.printerd.Error.Failed''),
      (PD_ERROR_CANCELLED, ''org.freedesktop.printerd.Error.Cancelled''),
      (PD_ERROR_UNIMPLEMENTED, ''org.freedesktop.printerd.Error.Unimplemented''),
      (PD_ERROR_UNSUPPORTED_DOCUMENT_TYPE, ''org.freedesktop.printerd.Error.UnsupportedDocumentType'')]"

text \<open>Every error has one name, so that the error of a reply can be read back from its name.\<close>

lemma error_names_unambiguous:
  "map_of dbus_error_entries e = Some n \<longleftrightarrow> map_of (map prod.swap dbus_error_entries) n = Some e"
  by (cases e) (auto simp: dbus_error_entries_def)

lemma error_names_complete: "\<exists>n. map_of dbus_error_entries e = Some n"
  by (cases e) (auto simp: dbus_error_entries_def)

datatype printer_state =
    PD_PRINTER_STATE_IDLE
  | PD_PRINTER_STATE_PROCESSING
  | PD_PRINTER_STATE_STOPPED

fun printer_state_code :: "printer_state \<Rightarrow> guint" where
  "printer_state_code PD_PRINTER_STATE_IDLE = 3"
| "printer_state_code PD_PRINTER_STATE_PROCESSING = 4"
| "printer_state_code PD_PRINTER_STATE_STOPPED = 5"

datatype job_state =
    Job_state_zero
  | PD_JOB_STATE_PENDING
  | PD_JOB_STATE_PENDING_HELD
  | PD_JOB_STATE_PROCESSING
  | PD_JOB_STATE_PROCESSING_STOPPED
  | PD_JOB_STATE_CANCELED
  | PD_JOB_STATE_ABORTED
  | PD_JOB_STATE_COMPLETED

fun job_state_code :: "job_state \<Rightarrow> guint" where
  "job_state_code Job_state_zero = 0"
| "job_state_code PD_JOB_STATE_PENDING = 3"
| "job_state_code PD_JOB_STATE_PENDING_HELD = 4"
| "job_state_code PD_JOB_STATE_PROCESSING = 5"
| "job_state_code PD_JOB_STATE_PROCESSING_STOPPED = 6"
| "job_state_code PD_JOB_STATE_CANCELED = 7"
| "job_state_code PD_JOB_STATE_ABORTED = 8"
| "job_state_code PD_JOB_STATE_COMPLETED = 9"

text \<open>The three states the header calls terminal.\<close>

definition job_terminal :: "job_state \<Rightarrow> bool" where
  "job_terminal s \<longleftrightarrow> s \<in> {PD_JOB_STATE_CANCELED, PD_JOB_STATE_ABORTED, PD_JOB_STATE_COMPLETED}"

lemma job_terminal_simps [simp]:
  "job_terminal PD_JOB_STATE_CANCELED"
  "job_terminal PD_JOB_STATE_ABORTED"
  "job_terminal PD_JOB_STATE_COMPLETED"
  "\<not> job_terminal PD_JOB_STATE_PENDING"
  "\<not> job_terminal PD_JOB_STATE_PENDING_HELD"
  "\<not> job_terminal PD_JOB_STATE_PROCESSING"
  "\<not> job_terminal PD_JOB_STATE_PROCESSING_STOPPED"
  "\<not> job_terminal Job_state_zero"
  by (simp_all add: job_terminal_def)

text \<open>
  What a handler sends back for a GDBusMethodInvocation: the returned values, an error of the
  domain of pd-error.h with its message, or a GError that another library produced, passed on.
\<close>

datatype dbus_value = Unit_value | Path_value string | Paths_value "string list" | Job_value string attrs

datatype reply =
    Reply_value dbus_value
  | Reply_error pd_error string
  | Reply_gerror

end
