(* ===== verification/Pd_Common.thy ===== *)
theory Pd_Common
  imports Pd_Enums
begin

text \<open>
  src/pd-common.c: the IEEE 1284 device id parser, the names of states, the user behind a
  D-Bus call, and the update of a list of state reasons. The locale state_reasons is the
  interface through which jobs and printers keep their reasons.
\<close>

subsection \<open>IEEE 1284 device ids\<close>

definition ieee1284_fieldname :: "glib \<Rightarrow> string \<Rightarrow> string" where
  "ieee1284_fieldname G f =
     (if g_ascii_strcasecmp G f ''mfg'' = 0 \<or> g_ascii_strcasecmp G f ''manufacturer'' = 0 then ''mfg''
      else if g_ascii_strcasecmp G f ''mdl'' = 0 \<or> g_ascii_strcasecmp G f ''model'' = 0 then ''mdl''
      else if g_ascii_strcasecmp G f ''des'' = 0 \<or> g_ascii_strcasecmp G f ''description'' = 0 then ''des''
      else g_ascii_strdown G f)"

definition ieee1284_insert :: "glib \<Rightarrow> string \<Rightarrow> (string \<rightharpoonup> string) \<Rightarrow> (string \<rightharpoonup> string)" where
  "ieee1284_insert G each ht =
     (case g_strsplit G each '':'' 2 of
        f # v # _ \<Rightarrow> ht(ieee1284_fieldname G (g_strstrip G f) \<mapsto> g_strstrip G v)
      | _ \<Rightarrow> ht)"

text \<open>The hash table of the fields; NULL for a NULL argument.\<close>

definition pd_parse_ieee1284_id :: "glib \<Rightarrow> string option \<Rightarrow> (string \<rightharpoonup> string) option" where
  "pd_parse_ieee1284_id G idstring =
     (case idstring of
        None \<Rightarrow> None
      | Some s \<Rightarrow> Some (fold (ieee1284_insert G) (g_strsplit G s '';'' 0) Map.empty))"

subsection \<open>Names of states\<close>

text \<open>
  The guards compare job_state - 3 (an unsigned subtraction) with sizeof (text), the size of
  the array in bytes: the number of entries times the size of a pointer, 8 on LP64. None is a
  read outside the array.
\<close>

definition sizeof_pointer :: nat where
  "sizeof_pointer = 8"

definition job_state_text :: "string list" where
  "job_state_text =
     [''pending'', ''pending-held'', ''processing'', ''processing-stopped'', ''canceled'',
      ''aborted'', ''completed'']"

definition pd_job_state_as_string :: "guint \<Rightarrow> string option" where
  "pd_job_state_as_string s =
     (if s < job_state_code PD_JOB_STATE_PENDING \<or> unat (s - 3) > length job_state_text * sizeof_pointer
      then Some ''unknown''
      else let k = unat (s - job_state_code PD_JOB_STATE_PENDING) in
        if k < length job_state_text then Some (job_state_text ! k) else None)"

definition printer_state_text :: "string list" where
  "printer_state_text = [''idle'', ''processing'', ''stopped'']"

definition pd_printer_state_as_string :: "guint \<Rightarrow> string option" where
  "pd_printer_state_as_string s =
     (if s < printer_state_code PD_PRINTER_STATE_IDLE
         \<or> unat (s - 3) > length printer_state_text * sizeof_pointer
      then Some ''unknown''
      else let k = unat (s - printer_state_code PD_PRINTER_STATE_IDLE) in
        if k < length printer_state_text then Some (printer_state_text ! k) else None)"

subsection \<open>The user behind a method call\<close>

text \<open>
  The proxy may fail; the GetConnectionUnixUser call may fail (None) or answer with a tuple;
  getpwuid_r may find no entry.
\<close>

record unix_user_env =
  uu_proxy :: bool
  uu_reply :: "gvariant list option"
  uu_getpwuid :: "guint \<Rightarrow> string option"

definition pd_get_unix_user :: "unix_user_env \<Rightarrow> string" where
  "pd_get_unix_user e =
     (if \<not> uu_proxy e then '':unknown:''
      else (case uu_reply e of
              Some [GV_uint32 uid] \<Rightarrow>
                (case uu_getpwuid e uid of Some name \<Rightarrow> name | None \<Rightarrow> '':unknown:'')
            | _ \<Rightarrow> '':unknown:''))"

subsection \<open>State reasons\<close>

text \<open>
  The loop copies reasons until it meets the given one: to add, it breaks there; to remove, it
  skips it. The result is the copied reasons, the reasons from position i on, and i.
\<close>

fun state_reason_loop ::
  "char \<Rightarrow> string \<Rightarrow> string list \<Rightarrow> nat \<Rightarrow> string list \<Rightarrow> string list \<times> string list \<times> nat" where
  "state_reason_loop op reason [] i strv = (strv, [], i)"
| "state_reason_loop op reason (r # rs) i strv =
     (if r = reason then
        (if op = CHR ''+'' then (strv, r # rs, i) else state_reason_loop op reason rs (Suc i) strv)
      else state_reason_loop op reason rs (Suc i) (strv @ [r]))"

definition add_or_remove_state_reason :: "string list option \<Rightarrow> char \<Rightarrow> string \<Rightarrow> string list" where
  "add_or_remove_state_reason reasons op reason =
     (let (strv, rest, i) =
        state_reason_loop op reason (case reasons of None \<Rightarrow> [] | Some rs \<Rightarrow> rs) 0 [] in
      if (op = CHR ''+'' \<and> reasons \<noteq> None \<and> rest \<noteq> []) \<or> (op = CHR ''-'' \<and> i = length strv) then strv
      else if op = CHR ''+'' then strv @ [reason]
      else strv)"

lemma state_reason_loop_add:
  "state_reason_loop CHR ''+'' r rs i strv =
     (strv @ takeWhile (\<lambda>x. x \<noteq> r) rs, dropWhile (\<lambda>x. x \<noteq> r) rs, i + length (takeWhile (\<lambda>x. x \<noteq> r) rs))"
  by (induction rs arbitrary: i strv) auto

lemma state_reason_loop_remove:
  "state_reason_loop CHR ''-'' r rs i strv = (strv @ filter (\<lambda>x. x \<noteq> r) rs, [], i + length rs)"
  by (induction rs arbitrary: i strv) auto

definition reasons_add :: "string \<Rightarrow> string list \<Rightarrow> string list" where
  "reasons_add r rs = (if r \<in> set rs then takeWhile (\<lambda>x. x \<noteq> r) rs else rs @ [r])"

definition reasons_remove :: "string \<Rightarrow> string list \<Rightarrow> string list" where
  "reasons_remove r rs = filter (\<lambda>x. x \<noteq> r) rs"

lemma add_state_reason_eq:
  "add_or_remove_state_reason (Some rs) CHR ''+'' r = reasons_add r rs"
  by (auto simp: add_or_remove_state_reason_def state_reason_loop_add reasons_add_def
      dropWhile_eq_Nil_conv)

lemma add_state_reason_null: "add_or_remove_state_reason None CHR ''+'' r = [r]"
  by (simp add: add_or_remove_state_reason_def)

lemma remove_state_reason_eq:
  "add_or_remove_state_reason (Some rs) CHR ''-'' r = reasons_remove r rs"
  by (simp add: add_or_remove_state_reason_def state_reason_loop_remove reasons_remove_def)

lemma remove_state_reason_null: "add_or_remove_state_reason None CHR ''-'' r = []"
  by (simp add: add_or_remove_state_reason_def)

lemma set_reasons_remove [simp]: "set (reasons_remove r rs) = set rs - {r}"
  by (auto simp: reasons_remove_def)

lemma reasons_add_new [simp]: "r \<notin> set rs \<Longrightarrow> reasons_add r rs = rs @ [r]"
  by (simp add: reasons_add_def)

lemma reasons_add_present: "r \<in> set rs \<Longrightarrow> reasons_add r rs = takeWhile (\<lambda>x. x \<noteq> r) rs"
  by (simp add: reasons_add_def)

lemma set_reasons_add_subset: "set (reasons_add r rs) \<subseteq> insert r (set rs)"
  by (auto simp: reasons_add_def dest: set_takeWhileD)

lemma distinct_reasons_add: "distinct rs \<Longrightarrow> distinct (reasons_add r rs)"
  by (auto simp: reasons_add_def)

lemma distinct_reasons_remove: "distinct rs \<Longrightarrow> distinct (reasons_remove r rs)"
  by (simp add: reasons_remove_def)

lemma reasons_remove_id [simp]: "r \<notin> set rs \<Longrightarrow> reasons_remove r rs = rs"
  by (simp add: reasons_remove_def)

subsection \<open>The interface of an object with state reasons\<close>

text \<open>
  An object exposes the list of its reasons and two operations on it. Both laws are equations,
  so the lemmas below determine what a client sees after any sequence of updates.
\<close>

locale state_reasons =
  fixes reasons :: "'s \<Rightarrow> string list"
    and add :: "'s \<Rightarrow> string \<Rightarrow> 's"
    and remove :: "'s \<Rightarrow> string \<Rightarrow> 's"
  assumes reasons_after_add: "reasons (add s r) = reasons_add r (reasons s)"
    and reasons_after_remove: "reasons (remove s r) = reasons_remove r (reasons s)"
begin

lemma removed: "r \<notin> set (reasons (remove s r))"
  by (simp add: reasons_after_remove)

lemma remove_keeps_others: "r' \<noteq> r \<Longrightarrow> r' \<in> set (reasons (remove s r)) \<longleftrightarrow> r' \<in> set (reasons s)"
  by (simp add: reasons_after_remove)

lemma added: "r \<notin> set (reasons s) \<Longrightarrow> r \<in> set (reasons (add s r))"
  by (simp add: reasons_after_add)

lemma add_keeps_others:
  "r \<notin> set (reasons s) \<Longrightarrow> r' \<noteq> r \<Longrightarrow> r' \<in> set (reasons (add s r)) \<longleftrightarrow> r' \<in> set (reasons s)"
  by (simp add: reasons_after_add)

lemma add_present_drops: "r \<in> set (reasons s) \<Longrightarrow> r \<notin> set (reasons (add s r))"
  by (simp add: reasons_after_add reasons_add_present)

lemma add_then_remove: "r \<notin> set (reasons s) \<Longrightarrow> reasons (remove (add s r) r) = reasons s"
  by (simp add: reasons_after_add reasons_after_remove reasons_remove_def)

lemma distinct_add: "distinct (reasons s) \<Longrightarrow> distinct (reasons (add s r))"
  by (simp add: reasons_after_add distinct_reasons_add)

lemma distinct_remove: "distinct (reasons s) \<Longrightarrow> distinct (reasons (remove s r))"
  by (simp add: reasons_after_remove distinct_reasons_remove)

end

subsection \<open>Properties\<close>

definition ieee1284_field_ok :: "string \<times> string \<Rightarrow> bool" where
  "ieee1284_field_ok f \<longleftrightarrow>
     (CHR '':'' \<notin> set (fst f) \<and> CHR '';'' \<notin> set (fst f) \<and> CHR '';'' \<notin> set (snd f)
      \<and> doc_strstrip (fst f) = fst f \<and> doc_strstrip (snd f) = snd f)"

definition ieee1284_print :: "(string \<times> string) list \<Rightarrow> string" where
  "ieee1284_print fs = concat (map (\<lambda>(f, v). f @ '':'' @ v @ '';'') fs)"

context glib_contract
begin

lemma insert_field:
  assumes "ieee1284_field_ok (f, v)"
  shows "ieee1284_insert G (f @ '':'' @ v) ht = ht(ieee1284_fieldname G f \<mapsto> v)"
proof -
  from assms have "\<forall>c\<in>set f. c \<noteq> CHR '':''" by (auto simp: ieee1284_field_ok_def)
  then have "doc_split (\<lambda>c. c = CHR '':'') (f @ CHR '':'' # v) 2 = [f, v]"
    by (simp add: doc_split_def split_max_two
        dropWhile_split [of f "\<lambda>c. c = CHR '':''"] takeWhile_split [of f "\<lambda>c. c = CHR '':''"])
  with assms show ?thesis
    by (simp add: ieee1284_insert_def strsplit_two strstrip ieee1284_field_ok_def)
qed

lemma insert_nothing: "ieee1284_insert G [] ht = ht"
  by (simp add: ieee1284_insert_def strsplit_two doc_split_def)

lemma split_print:
  "\<forall>f\<in>set fs. ieee1284_field_ok f \<Longrightarrow>
     split_at (\<lambda>c. c = CHR '';'') (ieee1284_print fs) = map (\<lambda>(f, v). f @ '':'' @ v) fs @ [[]]"
proof (induction fs)
  case Nil
  then show ?case by (simp add: ieee1284_print_def)
next
  case (Cons fv fs)
  obtain f v where fv: "fv = (f, v)" by (cases fv)
  with Cons.prems have "\<forall>c\<in>set (f @ '':'' @ v). c \<noteq> CHR '';''"
    by (auto simp: ieee1284_field_ok_def)
  then have "split_at (\<lambda>c. c = CHR '';'') ((f @ '':'' @ v) @ CHR '';'' # ieee1284_print fs)
      = (f @ '':'' @ v) # split_at (\<lambda>c. c = CHR '';'') (ieee1284_print fs)"
    by (intro split_at_append) auto
  with Cons fv show ?case by (simp add: ieee1284_print_def)
qed

lemma parse_print:
  assumes "\<forall>f\<in>set fs. ieee1284_field_ok f"
  shows "pd_parse_ieee1284_id G (Some (ieee1284_print fs)) =
    Some (map_of (rev (map (\<lambda>(f, v). (ieee1284_fieldname G f, v)) fs)))"
proof -
  have "fold (ieee1284_insert G) (map (\<lambda>(f, v). f @ '':'' @ v) fs) ht =
      ht ++ map_of (rev (map (\<lambda>(f, v). (ieee1284_fieldname G f, v)) fs))" for ht
    using assms
  proof (induction fs arbitrary: ht)
    case (Cons fv fs)
    obtain f v where "fv = (f, v)" by (cases fv)
    with Cons show ?case by (simp add: insert_field [simplified] map_add_def fun_eq_iff split: option.splits)
  qed simp
  moreover have "g_strsplit G (ieee1284_print fs) '';'' 0 =
      (if ieee1284_print fs = [] then [] else map (\<lambda>(f, v). f @ '':'' @ v) fs @ [[]])"
    using split_print [OF assms] by (simp add: strsplit_all doc_split_def)
  moreover have "ieee1284_print fs = [] \<longleftrightarrow> fs = []"
    by (cases fs) (auto simp: ieee1284_print_def)
  ultimately show ?thesis
    by (auto simp: pd_parse_ieee1284_id_def insert_nothing)
qed

end

text \<open>C13: Parsing a device id printed as key:value; pairs gives exactly these fields, each under
  its canonical name (mfg, mdl, des or the key in lower case), a later field replacing an
  earlier one of the same name.\<close>

theorem parse_ieee1284_roundtrip:
  assumes "glib_contract G" and "\<forall>f\<in>set fs. ieee1284_field_ok f"
  shows "pd_parse_ieee1284_id G (Some (ieee1284_print fs)) =
    Some (map_of (rev (map (\<lambda>(f, v). (ieee1284_fieldname G f, v)) fs)))"
  using assms by (rule glib_contract.parse_print)

theorem parse_ieee1284_roundtrip_witness:
  "pd_parse_ieee1284_id glib_doc (Some (ieee1284_print [(''MANUFACTURER'', ''ACME''), (''MDL'', ''X:1'')])) =
     Some (map_of [(''mdl'', ''X:1''), (''mfg'', ''ACME'')])"
proof -
  have "\<forall>f\<in>set [(''MANUFACTURER'', ''ACME''), (''MDL'', ''X:1'')]. ieee1284_field_ok f"
    by (simp add: ieee1284_field_ok_def doc_strstrip_def doc_strchomp_def is_space_def)
  moreover have "ieee1284_fieldname glib_doc ''MANUFACTURER'' = ''mfg''" by code_simp
  moreover have "ieee1284_fieldname glib_doc ''MDL'' = ''mdl''" by code_simp
  ultimately show ?thesis
    using parse_ieee1284_roundtrip [OF glib_doc_contract] by simp
qed

text \<open>The update of a reason list on every branch: removing filters out every occurrence,
  adding a reason that is not there appends it, and adding one that is already there returns
  the reasons before it only, so the reason and all later ones are lost although the code means
  to change nothing.\<close>

theorem add_or_remove_state_reason_cases:
  "add_or_remove_state_reason (Some rs) CHR ''-'' r = filter (\<lambda>x. x \<noteq> r) rs
   \<and> add_or_remove_state_reason (Some rs) CHR ''+'' r =
       (if r \<in> set rs then takeWhile (\<lambda>x. x \<noteq> r) rs else rs @ [r])"
  by (simp add: add_state_reason_eq remove_state_reason_eq reasons_remove_def reasons_add_def)

text \<open>The names of states are right for every enumerator; but the guard of
  pd_job_state_as_string compares with the size of the array in bytes, so exactly the numbers
  10 to 59 pass it and read beyond the array.\<close>

theorem job_state_as_string_bounds:
  "pd_job_state_as_string s = None \<longleftrightarrow> 10 \<le> s \<and> s \<le> 59"
proof -
  consider "s < 3" | "3 \<le> s" by (meson not_le)
  then show ?thesis
  proof cases
    case 1
    then have "unat s < 3" by (simp add: word_less_nat_alt)
    then have "\<not> 10 \<le> s" by (simp add: word_le_nat_alt)
    with 1 show ?thesis by (simp add: pd_job_state_as_string_def)
  next
    case 2
    then have d: "unat (s - 3) = unat s - 3" by (simp add: unat_sub)
    from 2 have "3 \<le> unat s" by (simp add: word_le_nat_alt)
    with d show ?thesis
      by (auto simp: word_less_nat_alt pd_job_state_as_string_def Let_def job_state_text_def sizeof_pointer_def
          word_le_nat_alt not_less)
  qed
qed

end
