(* ===== verification/Pd_Job.thy ===== *)
theory Pd_Job
  imports Pd_Common
begin

text \<open>
  src/pd-job-impl.c, part one: the job object, its state reasons, the callback for a process
  that has exited, cancellation, and finalization. The I/O callbacks are in Pd_Job_Io, the
  start of the filter chain in Pd_Job_Spawn, the bus methods in Pd_Job_Methods.

  The arrays of PD_FD_MAX = 5 entries that a process keeps are functions of the index (0 to 4).
  An event source is the watch that was installed with it (None: 0). A channel pointer is NULL,
  live (the job holds its reference) or freed: it still points at a channel whose reference was
  dropped. jp_freed marks a process record that was given to g_free. The log jb_syscalls
  collects the signals sent, the descriptors closed and the processes started (with their
  argument vector and environment).
\<close>

abbreviation STDIN_FILENO :: nat where "STDIN_FILENO \<equiv> 0"
abbreviation STDOUT_FILENO :: nat where "STDOUT_FILENO \<equiv> 1"
abbreviation STDERR_FILENO :: nat where "STDERR_FILENO \<equiv> 2"
abbreviation PD_FD_BACK :: nat where "PD_FD_BACK \<equiv> 3"
abbreviation PD_FD_SIDE :: nat where "PD_FD_SIDE \<equiv> 4"
abbreviation PD_FD_MAX :: nat where "PD_FD_MAX \<equiv> 5"

type_synonym byte = "8 word"

datatype process_type = FILTERCHAIN_CMD | FILTERCHAIN_FILE_OUTPUT | FILTERCHAIN_CUPSFILTER

datatype channel = Chan_null | Chan_live | Chan_freed

text \<open>The three watches: data callback on input or on output, message callback on input.\<close>

datatype io_watch = Data_in | Data_out | Message_in

record pd_job_process =
  jp_what :: "string option"
  jp_type :: process_type
  jp_cmd :: "string option"
  jp_started :: bool
  jp_finished :: bool
  jp_pid :: int
  jp_process_watch :: bool
  jp_io_source :: "nat \<Rightarrow> io_watch option"
  jp_channel :: "nat \<Rightarrow> channel"
  jp_child_fd :: "nat \<Rightarrow> int"
  jp_parent_fd :: "nat \<Rightarrow> int"
  jp_final_content_type :: "string option"
  jp_freed :: bool

datatype syscall =
    Sys_kill int
  | Sys_close int
  | Sys_spawn "string list" "string list"

record job =
  jb_id :: guint
  jb_name :: string
  jb_printer :: string
  jb_device_uri :: "string option"
  jb_state :: job_state
  jb_state_reasons :: "string list"
  jb_attributes :: attrs
  document_fd :: int
  document_filename :: "string option"
  document_mimetype :: "string option"
  filterchain :: "pd_job_process list"
  backend :: pd_job_process
  pending_job_state :: job_state
  fd_back :: "nat \<Rightarrow> int"
  fd_side :: "nat \<Rightarrow> int"
  buffer :: "byte list"
  buflen :: nat
  bufsent :: nat
  jb_notify_state :: bool
  jb_notify_reasons :: bool
  jb_watched_impl :: bool
  jb_watched_engine :: bool
  jb_watched_printer :: bool
  jb_watched_reasons :: bool
  jb_syscalls :: "syscall list"

text \<open>Which process a callback is for: the backend, or a member of the filter chain.\<close>

datatype jp_ref = Backend | Filter nat

fun get_jp :: "jp_ref \<Rightarrow> job \<Rightarrow> pd_job_process" where
  "get_jp Backend job = backend job"
| "get_jp (Filter k) job = filterchain job ! k"

fun map_jp :: "jp_ref \<Rightarrow> (pd_job_process \<Rightarrow> pd_job_process) \<Rightarrow> job \<Rightarrow> job" where
  "map_jp Backend f job = job\<lparr>backend := f (backend job)\<rparr>"
| "map_jp (Filter k) f job = job\<lparr>filterchain := (filterchain job)[k := f (filterchain job ! k)]\<rparr>"

subsection \<open>Construction\<close>

text \<open>g_malloc0 followed by pd_job_impl_init_jp.\<close>

definition pd_job_impl_init_jp :: pd_job_process where
  "pd_job_impl_init_jp =
     \<lparr>jp_what = None, jp_type = FILTERCHAIN_CMD, jp_cmd = None, jp_started = False,
      jp_finished = False, jp_pid = -1, jp_process_watch = False, jp_io_source = (\<lambda>_. None),
      jp_channel = (\<lambda>_. Chan_null), jp_child_fd = (\<lambda>_. -1), jp_parent_fd = (\<lambda>_. -1),
      jp_final_content_type = None, jp_freed = False\<rparr>"

text \<open>
  g_object_new: pd_job_impl_init, the construct properties, and pd_job_impl_constructed, which
  connects the job to its own state. buffer is the zeroed array of 1024 bytes.
\<close>

definition pd_job_impl_init :: "guint \<Rightarrow> string \<Rightarrow> attrs \<Rightarrow> string \<Rightarrow> job" where
  "pd_job_impl_init job_id name attributes printer_path =
     \<lparr>jb_id = job_id, jb_name = name, jb_printer = printer_path, jb_device_uri = None,
      jb_state = PD_JOB_STATE_PENDING_HELD, jb_state_reasons = [''job-incoming''],
      jb_attributes = attributes, document_fd = -1, document_filename = None,
      document_mimetype = None, filterchain = [], backend = pd_job_impl_init_jp,
      pending_job_state = Job_state_zero, fd_back = (\<lambda>_. -1), fd_side = (\<lambda>_. -1),
      buffer = replicate 1024 0, buflen = 0, bufsent = 0, jb_notify_state = False,
      jb_notify_reasons = False, jb_watched_impl = True, jb_watched_engine = False,
      jb_watched_printer = False, jb_watched_reasons = False, jb_syscalls = []\<rparr>"

subsection \<open>Properties of the skeleton\<close>

definition pd_job_set_state :: "job_state \<Rightarrow> job \<Rightarrow> job" where
  "pd_job_set_state s job = job\<lparr>jb_state := s, jb_notify_state := True\<rparr>"

definition pd_job_set_state_reasons :: "string list \<Rightarrow> job \<Rightarrow> job" where
  "pd_job_set_state_reasons rs job = job\<lparr>jb_state_reasons := rs, jb_notify_reasons := True\<rparr>"

definition state_reason_is_set :: "job \<Rightarrow> string \<Rightarrow> bool" where
  "state_reason_is_set job reason \<longleftrightarrow> list_ex (\<lambda>r. r = reason) (jb_state_reasons job)"

definition pd_job_impl_add_state_reason :: "job \<Rightarrow> string \<Rightarrow> job" where
  "pd_job_impl_add_state_reason job reason =
     pd_job_set_state_reasons
       (add_or_remove_state_reason (Some (jb_state_reasons job)) CHR ''+'' reason) job"

definition pd_job_impl_remove_state_reason :: "job \<Rightarrow> string \<Rightarrow> job" where
  "pd_job_impl_remove_state_reason job reason =
     pd_job_set_state_reasons
       (add_or_remove_state_reason (Some (jb_state_reasons job)) CHR ''-'' reason) job"

interpretation job_reasons:
  state_reasons jb_state_reasons pd_job_impl_add_state_reason pd_job_impl_remove_state_reason
  by unfold_locales
    (simp_all add: pd_job_impl_add_state_reason_def pd_job_impl_remove_state_reason_def
      pd_job_set_state_reasons_def add_state_reason_eq remove_state_reason_eq)

subsection \<open>Processes that run\<close>

definition running :: "pd_job_process \<Rightarrow> bool" where
  "running jp \<longleftrightarrow> jp_started jp \<and> \<not> jp_finished jp"

definition pd_job_impl_check_job_transforming :: "job \<Rightarrow> bool \<times> job" where
  "pd_job_impl_check_job_transforming job =
     (if list_ex running (filterchain job) then (True, job)
      else (False, pd_job_impl_remove_state_reason job ''job-transforming''))"

text \<open>The macro of sys/wait.h: bits 8 to 15 of the status.\<close>

definition WEXITSTATUS :: "guint \<Rightarrow> guint" where
  "WEXITSTATUS status = drop_bit 8 (and status 0xff00)"

definition close_stdin :: "pd_job_process \<Rightarrow> pd_job_process" where
  "close_stdin jp =
     jp\<lparr>jp_io_source := (jp_io_source jp)(STDIN_FILENO := None),
        jp_channel := (jp_channel jp)(STDIN_FILENO := Chan_null)\<rparr>"

definition pd_job_impl_process_watch_cb :: "jp_ref \<Rightarrow> guint \<Rightarrow> job \<Rightarrow> job" where
  "pd_job_impl_process_watch_cb ref status job =
     (let job1 = map_jp ref (\<lambda>jp. close_stdin (jp\<lparr>jp_finished := True, jp_process_watch := False\<rparr>)) job;
          job2 = (if ref \<noteq> Backend then snd (pd_job_impl_check_job_transforming job1)
                  else pd_job_impl_remove_state_reason job1 ''job-outgoing'');
          job3 = (if WEXITSTATUS status \<noteq> 0 then job2\<lparr>pending_job_state := PD_JOB_STATE_ABORTED\<rparr>
                  else job2) in
      if jp_started (backend job3) \<and> jp_finished (backend job3) \<and> \<not> list_ex running (filterchain job3)
      then pd_job_set_state (pending_job_state job3) job3
      else job3)"

subsection \<open>Cancellation\<close>

definition kill_running :: "pd_job_process \<Rightarrow> syscall list" where
  "kill_running jp = (if running jp then [Sys_kill (jp_pid jp)] else [])"

definition stop_backend_input :: "job \<Rightarrow> job" where
  "stop_backend_input job =
     (if jp_channel (backend job) STDIN_FILENO \<noteq> Chan_null
      then job\<lparr>backend := close_stdin (backend job)\<rparr> else job)"

definition pd_job_impl_do_cancel_with_reason :: "job_state \<Rightarrow> string \<Rightarrow> job \<Rightarrow> job" where
  "pd_job_impl_do_cancel_with_reason new_state reason job0 =
     (let job = pd_job_impl_add_state_reason job0 reason in
      if jb_state job \<in> {PD_JOB_STATE_PENDING, PD_JOB_STATE_PENDING_HELD} then
        pd_job_set_state new_state job
      else if jb_state job \<in> {PD_JOB_STATE_PROCESSING, PD_JOB_STATE_PROCESSING_STOPPED} then
        (let (transforming, job1) = pd_job_impl_check_job_transforming job in
         if \<not> transforming \<and> \<not> jp_started (backend job1) then pd_job_set_state new_state job1
         else if state_reason_is_set job1 ''processing-to-stop-point'' then job1
         else
           (let job2 = pd_job_impl_add_state_reason (job1\<lparr>pending_job_state := new_state\<rparr>)
                         ''processing-to-stop-point'';
                job3 = stop_backend_input job2 in
            job3\<lparr>jb_syscalls := jb_syscalls job3 @ concat (map kill_running (filterchain job3))
                    @ kill_running (backend job3)\<rparr>))
      else job)"

subsection \<open>The handler of the job for its own state\<close>

definition pd_job_impl_job_state_notify :: "job \<Rightarrow> job" where
  "pd_job_impl_job_state_notify job =
     (if jb_state job \<in> {PD_JOB_STATE_CANCELED, PD_JOB_STATE_ABORTED, PD_JOB_STATE_COMPLETED}
      then (pd_job_impl_remove_state_reason
             (pd_job_impl_remove_state_reason job ''job-incoming'') ''processing-to-stop-point'')
             \<lparr>jb_watched_impl := False\<rparr>
      else job)"

subsection \<open>Finalization\<close>

text \<open>
  None: a freed process record or a channel without a reference is touched. Otherwise the
  system calls made, in order.
\<close>

definition pd_job_impl_finalize_jp :: "pd_job_process \<Rightarrow> syscall list option" where
  "pd_job_impl_finalize_jp jp =
     (if jp_freed jp \<or> list_ex (\<lambda>i. jp_channel jp i = Chan_freed) [0..<PD_FD_MAX] then None
      else Some (kill_running jp))"

definition close_fd :: "int \<Rightarrow> syscall list" where
  "close_fd fd = (if fd \<noteq> -1 then [Sys_close fd] else [])"

fun finalize_chain :: "pd_job_process list \<Rightarrow> syscall list option" where
  "finalize_chain [] = Some []"
| "finalize_chain (jp # jps) =
     (case pd_job_impl_finalize_jp jp of
        None \<Rightarrow> None
      | Some cs \<Rightarrow> map_option (\<lambda>ds. cs @ ds) (finalize_chain jps))"

definition pd_job_impl_finalize :: "job \<Rightarrow> (syscall list \<times> string option) option" where
  "pd_job_impl_finalize job =
     (case finalize_chain (filterchain job @ [backend job]) of
        None \<Rightarrow> None
      | Some kills \<Rightarrow>
          Some (close_fd (document_fd job)
                @ close_fd (fd_back job STDIN_FILENO) @ close_fd (fd_back job STDOUT_FILENO)
                @ close_fd (fd_side job 0) @ close_fd (fd_side job 1) @ kills,
                document_filename job))"

subsection \<open>Well-formed jobs\<close>

lemmas job_prop_defs =
  pd_job_set_state_def pd_job_set_state_reasons_def pd_job_impl_add_state_reason_def
  pd_job_impl_remove_state_reason_def

text \<open>
  A process that has finished was started, and a child watch is installed only on a process
  that runs. Once the backend was started there is a filter chain and the pending state is
  terminal; the data between bufsent and buflen lies in the buffer; a job that holds a document
  descriptor has no spool file yet.
\<close>

definition process_ok :: "pd_job_process \<Rightarrow> bool" where
  "process_ok jp \<longleftrightarrow> (jp_finished jp \<longrightarrow> jp_started jp) \<and> (jp_process_watch jp \<longrightarrow> running jp)"

definition job_inv :: "job \<Rightarrow> bool" where
  "job_inv job \<longleftrightarrow>
     process_ok (backend job) \<and> (\<forall>jp\<in>set (filterchain job). process_ok jp)
     \<and> length (filterchain job) \<le> 3
     \<and> (jp_started (backend job) \<longrightarrow> filterchain job \<noteq> [] \<and> job_terminal (pending_job_state job))
     \<and> bufsent job \<le> buflen job \<and> buflen job \<le> 1024 \<and> length (buffer job) = 1024
     \<and> (document_fd job \<noteq> -1 \<longrightarrow> document_filename job = None)"

fun valid_ref :: "jp_ref \<Rightarrow> job \<Rightarrow> bool" where
  "valid_ref Backend job \<longleftrightarrow> True"
| "valid_ref (Filter k) job \<longleftrightarrow> k < length (filterchain job)"

lemma job_inv_init: "job_inv (pd_job_impl_init i n a p)"
  by (simp add: job_inv_def pd_job_impl_init_def process_ok_def pd_job_impl_init_jp_def running_def)

lemma get_map_jp [simp]:
  "valid_ref ref job \<Longrightarrow> get_jp r (map_jp ref f job) = (if r = ref then f (get_jp ref job) else get_jp r job)"
  by (cases r; cases ref) (auto simp: nth_list_update)

lemma valid_map_jp [simp]: "valid_ref r (map_jp ref f job) = valid_ref r job"
  by (cases r; cases ref) auto

lemma all_refs_iff:
  "(\<forall>r. valid_ref r job \<longrightarrow> P (get_jp r job)) \<longleftrightarrow> P (backend job) \<and> (\<forall>jp\<in>set (filterchain job). P jp)"
proof
  assume a: "\<forall>r. valid_ref r job \<longrightarrow> P (get_jp r job)"
  then have "P (backend job)" by (metis get_jp.simps(1) valid_ref.simps(1))
  moreover have "P (filterchain job ! k)" if "k < length (filterchain job)" for k
    using a [rule_format, of "Filter k"] that by simp
  ultimately show "P (backend job) \<and> (\<forall>jp\<in>set (filterchain job). P jp)"
    by (auto simp: in_set_conv_nth)
next
  assume a: "P (backend job) \<and> (\<forall>jp\<in>set (filterchain job). P jp)"
  show "\<forall>r. valid_ref r job \<longrightarrow> P (get_jp r job)"
  proof (intro allI impI)
    fix r assume "valid_ref r job"
    with a show "P (get_jp r job)" by (cases r) simp_all
  qed
qed

lemma job_inv_iff:
  "job_inv job \<longleftrightarrow> (\<forall>r. valid_ref r job \<longrightarrow> process_ok (get_jp r job))
     \<and> length (filterchain job) \<le> 3
     \<and> (jp_started (backend job) \<longrightarrow> filterchain job \<noteq> [] \<and> job_terminal (pending_job_state job))
     \<and> bufsent job \<le> buflen job \<and> buflen job \<le> 1024 \<and> length (buffer job) = 1024
     \<and> (document_fd job \<noteq> -1 \<longrightarrow> document_filename job = None)"
  unfolding all_refs_iff by (auto simp: job_inv_def)

text \<open>The fields a change of reasons or of the state leaves alone, for any predicate on processes.\<close>

lemma reasons_frame [frame, simp]:
  "get_jp r (pd_job_impl_remove_state_reason job x) = get_jp r job"
  "get_jp r (pd_job_impl_add_state_reason job x) = get_jp r job"
  "get_jp r (pd_job_set_state s job) = get_jp r job"
  "valid_ref r (pd_job_impl_remove_state_reason job x) = valid_ref r job"
  "valid_ref r (pd_job_impl_add_state_reason job x) = valid_ref r job"
  "valid_ref r (pd_job_set_state s job) = valid_ref r job"
  "filterchain (pd_job_impl_remove_state_reason job x) = filterchain job"
  "filterchain (pd_job_impl_add_state_reason job x) = filterchain job"
  "filterchain (pd_job_set_state s job) = filterchain job"
  "backend (pd_job_impl_remove_state_reason job x) = backend job"
  "backend (pd_job_impl_add_state_reason job x) = backend job"
  "backend (pd_job_set_state s job) = backend job"
  "pending_job_state (pd_job_impl_remove_state_reason job x) = pending_job_state job"
  "pending_job_state (pd_job_impl_add_state_reason job x) = pending_job_state job"
  "pending_job_state (pd_job_set_state s job) = pending_job_state job"
  "jb_state (pd_job_impl_remove_state_reason job x) = jb_state job"
  "jb_state (pd_job_impl_add_state_reason job x) = jb_state job"
  "jb_state (pd_job_set_state s job) = s"
  "jb_syscalls (pd_job_impl_remove_state_reason job x) = jb_syscalls job"
  "jb_syscalls (pd_job_impl_add_state_reason job x) = jb_syscalls job"
  "jb_syscalls (pd_job_set_state s job) = jb_syscalls job"
  by (cases r; simp add: job_prop_defs)+

lemma job_inv_reasons [simp]:
  "job_inv (pd_job_impl_remove_state_reason job x) = job_inv job"
  "job_inv (pd_job_impl_add_state_reason job x) = job_inv job"
  "job_inv (pd_job_set_state s job) = job_inv job"
  by (simp_all add: job_inv_def job_prop_defs)

lemma check_transforming_frame [simp]:
  "get_jp r (snd (pd_job_impl_check_job_transforming job)) = get_jp r job"
  "valid_ref r (snd (pd_job_impl_check_job_transforming job)) = valid_ref r job"
  "filterchain (snd (pd_job_impl_check_job_transforming job)) = filterchain job"
  "backend (snd (pd_job_impl_check_job_transforming job)) = backend job"
  "pending_job_state (snd (pd_job_impl_check_job_transforming job)) = pending_job_state job"
  "jb_state (snd (pd_job_impl_check_job_transforming job)) = jb_state job"
  "jb_syscalls (snd (pd_job_impl_check_job_transforming job)) = jb_syscalls job"
  "job_inv (snd (pd_job_impl_check_job_transforming job)) = job_inv job"
  "fst (pd_job_impl_check_job_transforming job) = list_ex running (filterchain job)"
  by (simp_all add: pd_job_impl_check_job_transforming_def)

subsection \<open>Running processes\<close>

definition running_refs :: "job \<Rightarrow> jp_ref set" where
  "running_refs job = {r. valid_ref r job \<and> running (get_jp r job)}"

lemma no_filter_running: "list_ex running (filterchain job) \<longleftrightarrow> (\<exists>k. Filter k \<in> running_refs job)"
  by (auto simp: list_ex_iff running_refs_def in_set_conv_nth) (metis nth_mem)

lemma Backend_running: "Backend \<in> running_refs job \<longleftrightarrow> running (backend job)"
  by (simp add: running_refs_def)

lemma running_refs_empty: "running_refs job = {} \<longleftrightarrow> \<not> running (backend job) \<and> \<not> list_ex running (filterchain job)"
proof -
  have "running_refs job = {} \<longleftrightarrow> Backend \<notin> running_refs job \<and> (\<forall>k. Filter k \<notin> running_refs job)"
    by (metis empty_iff equals0I jp_ref.exhaust)
  then show ?thesis by (simp add: no_filter_running Backend_running)
qed

definition exit_process :: "pd_job_process \<Rightarrow> pd_job_process" where
  "exit_process jp = close_stdin (jp\<lparr>jp_finished := True, jp_process_watch := False\<rparr>)"

lemma exit_process_simps [simp]:
  "jp_started (exit_process jp) = jp_started jp"
  "jp_finished (exit_process jp)"
  "\<not> jp_process_watch (exit_process jp)"
  "\<not> running (exit_process jp)"
  by (simp_all add: exit_process_def close_stdin_def running_def)

lemma running_refs_exit:
  "valid_ref ref job \<Longrightarrow> running_refs (map_jp ref exit_process job) = running_refs job - {ref}"
  by (auto simp: running_refs_def split: if_splits)

lemma map_jp_frame [simp]:
  "pending_job_state (map_jp ref f job) = pending_job_state job"
  "jb_state (map_jp ref f job) = jb_state job"
  "jb_state_reasons (map_jp ref f job) = jb_state_reasons job"
  "jb_syscalls (map_jp ref f job) = jb_syscalls job"
  "length (filterchain (map_jp ref f job)) = length (filterchain job)"
  "bufsent (map_jp ref f job) = bufsent job"
  "buflen (map_jp ref f job) = buflen job"
  "buffer (map_jp ref f job) = buffer job"
  "document_fd (map_jp ref f job) = document_fd job"
  "document_filename (map_jp ref f job) = document_filename job"
  by (cases ref; simp)+

lemma filterchain_map_Nil [simp]: "filterchain (map_jp ref f job) = [] \<longleftrightarrow> filterchain job = []"
  by (cases ref) simp_all

lemma backend_map_jp: "backend (map_jp ref f job) = (if ref = Backend then f (backend job) else backend job)"
  by (cases ref) simp_all

lemma filterchain_map_jp:
  "filterchain (map_jp ref f job) = (case ref of Backend \<Rightarrow> filterchain job
     | Filter k \<Rightarrow> (filterchain job)[k := f (filterchain job ! k)])"
  by (cases ref) simp_all

lemma backend_map_started [simp]: "(\<And>jp. jp_started (f jp) = jp_started jp) \<Longrightarrow>
    jp_started (backend (map_jp ref f job)) = jp_started (backend job)"
  by (cases ref) simp_all

declare map_jp.simps [simp del]

text \<open>The callback in three facts: the processes, the pending state, the job state.\<close>

lemma backend_done:
  "jp_started b \<and> jp_finished b \<and> \<not> P \<longleftrightarrow> jp_started b \<and> \<not> (running b \<or> P)"
  by (auto simp: running_def)

lemma process_watch_unfold:
  "pd_job_impl_process_watch_cb ref status job =
     (let job1 = map_jp ref exit_process job;
          job2 = (if ref \<noteq> Backend then snd (pd_job_impl_check_job_transforming job1)
                  else pd_job_impl_remove_state_reason job1 ''job-outgoing'');
          job3 = (if WEXITSTATUS status \<noteq> 0 then job2\<lparr>pending_job_state := PD_JOB_STATE_ABORTED\<rparr>
                  else job2) in
      if jp_started (backend job3) \<and> running_refs job3 = {}
      then pd_job_set_state (pending_job_state job3) job3
      else job3)"
  unfolding pd_job_impl_process_watch_cb_def exit_process_def [symmetric] running_refs_empty backend_done
  by (simp only: disj_commute de_Morgan_disj conj_commute)

lemma get_jp_pending [simp]: "get_jp r (job\<lparr>pending_job_state := s\<rparr>) = get_jp r job"
  by (cases r) simp_all

lemma valid_ref_pending [simp]: "valid_ref r (job\<lparr>pending_job_state := s\<rparr>) = valid_ref r job"
  by (cases r) simp_all

lemma process_watch_get_jp [simp]:
  "get_jp r (pd_job_impl_process_watch_cb ref st job) = get_jp r (map_jp ref exit_process job)"
  by (simp add: process_watch_unfold Let_def)

lemma process_watch_valid_ref [simp]:
  "valid_ref r (pd_job_impl_process_watch_cb ref st job) = valid_ref r job"
  by (simp add: process_watch_unfold Let_def)

lemma process_watch_syscalls [simp]:
  "jb_syscalls (pd_job_impl_process_watch_cb ref st job) = jb_syscalls job"
  by (simp add: process_watch_unfold Let_def)

lemma process_watch_pending [simp]:
  "pending_job_state (pd_job_impl_process_watch_cb ref st job) =
     (if WEXITSTATUS st \<noteq> 0 then PD_JOB_STATE_ABORTED else pending_job_state job)"
  by (simp add: process_watch_unfold Let_def)

lemma running_refs_cong:
  "(\<And>r. valid_ref r j = valid_ref r k) \<Longrightarrow> (\<And>r. get_jp r j = get_jp r k) \<Longrightarrow> running_refs j = running_refs k"
  by (simp add: running_refs_def)

lemma process_watch_running:
  assumes "valid_ref ref job"
  shows "running_refs (pd_job_impl_process_watch_cb ref st job) = running_refs job - {ref}"
proof -
  have "running_refs (pd_job_impl_process_watch_cb ref st job) = running_refs (map_jp ref exit_process job)"
    by (rule running_refs_cong) simp_all
  with running_refs_exit [OF assms] show ?thesis by simp
qed

lemma process_watch_started [simp]:
  "jp_started (backend (pd_job_impl_process_watch_cb ref st job)) = jp_started (backend job)"
  by (simp add: process_watch_unfold Let_def)

lemma process_watch_state:
  assumes "valid_ref ref job"
  shows "jb_state (pd_job_impl_process_watch_cb ref st job) =
    (if jp_started (backend job) \<and> running_refs job - {ref} = {}
     then pending_job_state (pd_job_impl_process_watch_cb ref st job) else jb_state job)"
proof -
  have r: "running_refs ((if ref \<noteq> Backend then snd (pd_job_impl_check_job_transforming (map_jp ref exit_process job))
      else pd_job_impl_remove_state_reason (map_jp ref exit_process job) ''job-outgoing'')
        \<lparr>pending_job_state := s\<rparr>) = running_refs job - {ref}" for s
    by (subst running_refs_exit [OF assms, symmetric], rule running_refs_cong) simp_all
  have r': "running_refs (if ref \<noteq> Backend then snd (pd_job_impl_check_job_transforming (map_jp ref exit_process job))
      else pd_job_impl_remove_state_reason (map_jp ref exit_process job) ''job-outgoing'')
      = running_refs job - {ref}"
    by (subst running_refs_exit [OF assms, symmetric], rule running_refs_cong) simp_all
  show ?thesis
    by (auto simp: process_watch_unfold Let_def r [simplified] r' [simplified])
qed

subsection \<open>Preservation of the invariant\<close>

lemma job_inv_process_ok: "job_inv job \<Longrightarrow> valid_ref r job \<Longrightarrow> process_ok (get_jp r job)"
  by (simp add: job_inv_iff)

lemma job_inv_map_jp:
  assumes "job_inv job" and "valid_ref ref job" and "process_ok (f (get_jp ref job))"
    and "\<And>jp. jp_started (f jp) = jp_started jp"
  shows "job_inv (map_jp ref f job)"
  using assms by (auto simp: job_inv_iff)

lemma job_inv_abort: "job_inv job \<Longrightarrow> job_inv (job\<lparr>pending_job_state := PD_JOB_STATE_ABORTED\<rparr>)"
  by (simp add: job_inv_def)

lemma process_ok_exit [simp]: "process_ok (exit_process jp) = jp_started jp"
  by (simp add: process_ok_def running_def)

lemma job_inv_process_watch:
  assumes "job_inv job" and "valid_ref ref job" and "jp_started (get_jp ref job)"
  shows "job_inv (pd_job_impl_process_watch_cb ref st job)"
proof -
  have "job_inv (map_jp ref exit_process job)"
    using assms by (intro job_inv_map_jp) simp_all
  then show ?thesis
    by (auto simp: process_watch_unfold Let_def job_inv_abort)
qed

lemma job_inv_kill [simp]: "job_inv (job\<lparr>jb_syscalls := cs\<rparr>) = job_inv job"
  by (simp add: job_inv_def)

lemma close_stdin_simps [simp]:
  "running (close_stdin jp) = running jp"
  "process_ok (close_stdin jp) = process_ok jp"
  "kill_running (close_stdin jp) = kill_running jp"
  "jp_started (close_stdin jp) = jp_started jp"
  "jp_finished (close_stdin jp) = jp_finished jp"
  "jp_pid (close_stdin jp) = jp_pid jp"
  "jp_channel (close_stdin jp) STDIN_FILENO = Chan_null"
  by (simp_all add: close_stdin_def running_def process_ok_def kill_running_def)

lemma job_inv_stop_input [simp]: "job_inv (stop_backend_input job) = job_inv job"
  by (simp add: stop_backend_input_def job_inv_def)

lemma job_inv_cancel:
  assumes "job_inv job" and "job_terminal s"
  shows "job_inv (pd_job_impl_do_cancel_with_reason s reason job)"
proof -
  have "job_inv (j\<lparr>pending_job_state := s\<rparr>)" if "job_inv j" for j
    using that assms(2) by (simp add: job_inv_def)
  with assms(1) show ?thesis
    by (auto simp: pd_job_impl_do_cancel_with_reason_def Let_def split: prod.splits dest: arg_cong [where f = snd])
      (metis check_transforming_frame(8) job_inv_reasons(2) snd_conv)+
qed

lemma job_inv_state_notify [simp]: "job_inv (pd_job_impl_job_state_notify job) = job_inv job"
proof -
  have "job_inv (j\<lparr>jb_watched_impl := b\<rparr>) = job_inv j" for j b by (simp add: job_inv_def)
  then show ?thesis by (simp add: pd_job_impl_job_state_notify_def)
qed

subsection \<open>Sequences of exits\<close>

definition run_exits :: "(jp_ref \<times> guint) list \<Rightarrow> job \<Rightarrow> job" where
  "run_exits es job = fold (\<lambda>(ref, status) j. pd_job_impl_process_watch_cb ref status j) es job"

lemma run_exits_simps [simp]:
  "run_exits [] job = job"
  "run_exits ((ref, status) # es) job = run_exits es (pd_job_impl_process_watch_cb ref status job)"
  by (simp_all add: run_exits_def)

text \<open>One exit for every process that runs, in any order.\<close>

definition exits_of :: "job \<Rightarrow> (jp_ref \<times> guint) list \<Rightarrow> bool" where
  "exits_of job es \<longleftrightarrow> distinct (map fst es) \<and> set (map fst es) = running_refs job"

lemma running_refs_valid: "r \<in> running_refs job \<Longrightarrow> valid_ref r job"
  by (simp add: running_refs_def)

lemma exits_of_Cons:
  assumes "exits_of job ((r, st) # es)"
  shows "valid_ref r job" and "exits_of (pd_job_impl_process_watch_cb r st job) es"
    and "running_refs job - {r} = {} \<longleftrightarrow> es = []"
proof -
  from assms have r: "r \<in> running_refs job" by (auto simp: exits_of_def)
  then show v: "valid_ref r job" by (rule running_refs_valid)
  from assms have "set (map fst es) = running_refs job - {r}" by (auto simp: exits_of_def)
  with assms show "exits_of (pd_job_impl_process_watch_cb r st job) es"
    by (simp add: exits_of_def process_watch_running [OF v])
  from \<open>set (map fst es) = running_refs job - {r}\<close> show "running_refs job - {r} = {} \<longleftrightarrow> es = []"
    by (metis empty_set list.map_disc_iff set_empty)
qed

lemma run_exits_pending:
  "pending_job_state (run_exits es job) =
     (if \<exists>(r, st)\<in>set es. WEXITSTATUS st \<noteq> 0 then PD_JOB_STATE_ABORTED else pending_job_state job)"
proof (induction es arbitrary: job)
  case (Cons e es)
  obtain r st where "e = (r, st)" by (cases e)
  with Cons show ?case by auto
qed simp

lemma run_exits_running: "exits_of job es \<Longrightarrow> running_refs (run_exits es job) = {}"
proof (induction es arbitrary: job)
  case Nil
  then show ?case by (simp add: exits_of_def)
next
  case (Cons e es)
  obtain r st where e: "e = (r, st)" by (cases e)
  from Cons.IH [OF exits_of_Cons(2) [OF Cons.prems [unfolded e]]] e show ?case by simp
qed

lemma run_exits_started [simp]: "jp_started (backend (run_exits es job)) = jp_started (backend job)"
proof (induction es arbitrary: job)
  case (Cons e es)
  then show ?case by (cases e) simp
qed simp

lemma run_exits_syscalls [simp]: "jb_syscalls (run_exits es job) = jb_syscalls job"
proof (induction es arbitrary: job)
  case (Cons e es)
  then show ?case by (cases e) simp
qed simp

lemma run_exits_state:
  assumes "exits_of job es" and "es \<noteq> []" and "jp_started (backend job)"
  shows "jb_state (run_exits es job) = pending_job_state (run_exits es job)"
  using assms
proof (induction es arbitrary: job)
  case (Cons e es)
  obtain r st where e: "e = (r, st)" by (cases e)
  note x = exits_of_Cons [OF Cons.prems(1) [unfolded e]]
  show ?case
  proof (cases "es = []")
    case True
    with e x Cons.prems(3) show ?thesis by (simp add: process_watch_state)
  next
    case False
    with Cons.IH [OF x(2)] Cons.prems(3) e show ?thesis by simp
  qed
qed simp

lemma job_inv_run_exits:
  assumes "job_inv job" and "exits_of job es"
  shows "job_inv (run_exits es job)"
  using assms
proof (induction es arbitrary: job)
  case (Cons e es)
  obtain r st where e: "e = (r, st)" by (cases e)
  note x = exits_of_Cons [OF Cons.prems(2) [unfolded e]]
  from Cons.prems(2) e have "jp_started (get_jp r job)"
    by (auto simp: exits_of_def running_refs_def running_def)
  with Cons.prems(1) x(1) have "job_inv (pd_job_impl_process_watch_cb r st job)"
    by (rule job_inv_process_watch)
  with Cons.IH x(2) e show ?case by simp
qed simp

subsection \<open>Cancelling a job that is being processed\<close>

abbreviation can_cancel_processing :: "job \<Rightarrow> bool" where
  "can_cancel_processing job \<equiv> jb_state job \<in> {PD_JOB_STATE_PROCESSING, PD_JOB_STATE_PROCESSING_STOPPED}
     \<and> (list_ex running (filterchain job) \<or> jp_started (backend job))"

definition kills :: "job \<Rightarrow> syscall list" where
  "kills job = map (\<lambda>jp. Sys_kill (jp_pid jp)) (filter running (filterchain job @ [backend job]))"

lemma concat_kills: "concat (map kill_running jps) = map (\<lambda>jp. Sys_kill (jp_pid jp)) (filter running jps)"
  by (induction jps) (simp_all add: kill_running_def)

lemma stop_input_frame [simp]:
  "filterchain (stop_backend_input job) = filterchain job"
  "running (backend (stop_backend_input job)) = running (backend job)"
  "jp_pid (backend (stop_backend_input job)) = jp_pid (backend job)"
  "jp_started (backend (stop_backend_input job)) = jp_started (backend job)"
  "pending_job_state (stop_backend_input job) = pending_job_state job"
  "jb_state (stop_backend_input job) = jb_state job"
  "jb_state_reasons (stop_backend_input job) = jb_state_reasons job"
  "jb_syscalls (stop_backend_input job) = jb_syscalls job"
  "jp_channel (backend (stop_backend_input job)) STDIN_FILENO = Chan_null"
  by (auto simp: stop_backend_input_def)

lemma state_reason_is_set_iff: "state_reason_is_set job r \<longleftrightarrow> r \<in> set (jb_state_reasons job)"
  by (auto simp: state_reason_is_set_def list_ex_iff)

lemma check_transforming_reasons [simp]:
  "r \<noteq> ''job-transforming'' \<Longrightarrow> r \<in> set (jb_state_reasons (snd (pd_job_impl_check_job_transforming job)))
     \<longleftrightarrow> r \<in> set (jb_state_reasons job)"
  by (auto simp: pd_job_impl_check_job_transforming_def job_reasons.remove_keeps_others)

lemma cancel_processing_step:
  assumes "can_cancel_processing job"
    and "''processing-to-stop-point'' \<notin> set (jb_state_reasons (pd_job_impl_add_state_reason job reason))"
  shows "pd_job_impl_do_cancel_with_reason s reason job =
    (let job1 = snd (pd_job_impl_check_job_transforming (pd_job_impl_add_state_reason job reason));
         job3 = stop_backend_input (pd_job_impl_add_state_reason (job1\<lparr>pending_job_state := s\<rparr>)
                  ''processing-to-stop-point'') in
     job3\<lparr>jb_syscalls := jb_syscalls job @ kills job\<rparr>)"
proof -
  let ?j = "pd_job_impl_add_state_reason job reason"
  from assms(1) have s: "jb_state ?j \<notin> {PD_JOB_STATE_PENDING, PD_JOB_STATE_PENDING_HELD}"
    "jb_state ?j \<in> {PD_JOB_STATE_PROCESSING, PD_JOB_STATE_PROCESSING_STOPPED}"
    by auto
  obtain t j1 where c: "pd_job_impl_check_job_transforming ?j = (t, j1)" by fastforce
  from check_transforming_frame(9) [of ?j] c have t: "t = list_ex running (filterchain job)" by simp
  from c have j1: "j1 = snd (pd_job_impl_check_job_transforming ?j)" by simp
  from t assms(1) have g: "\<not> (\<not> t \<and> \<not> jp_started (backend j1))" by (auto simp: j1)
  from assms(2) have n: "\<not> state_reason_is_set j1 ''processing-to-stop-point''"
    by (simp add: j1 state_reason_is_set_iff)
  have k: "concat (map kill_running (filterchain (stop_backend_input j)))
      @ kill_running (backend (stop_backend_input j)) = kills job"
    if "filterchain j = filterchain job" "backend j = backend job" for j
    using that by (simp add: kills_def concat_kills kill_running_def)
  show ?thesis
    unfolding pd_job_impl_do_cancel_with_reason_def Let_def c split_conv if_not_P [OF s(1)] if_P [OF s(2)]
      if_not_P [OF g] if_not_P [OF n]
    by (subst k) (simp_all add: c, simp_all add: j1)
qed

lemma cancel_processing_frame:
  assumes "can_cancel_processing job"
    and "''processing-to-stop-point'' \<notin> set (jb_state_reasons (pd_job_impl_add_state_reason job reason))"
  shows "jb_state (pd_job_impl_do_cancel_with_reason s reason job) = jb_state job"
    and "pending_job_state (pd_job_impl_do_cancel_with_reason s reason job) = s"
    and "jb_syscalls (pd_job_impl_do_cancel_with_reason s reason job) = jb_syscalls job @ kills job"
    and "filterchain (pd_job_impl_do_cancel_with_reason s reason job) = filterchain job"
    and "running (backend (pd_job_impl_do_cancel_with_reason s reason job)) = running (backend job)"
    and "jp_started (backend (pd_job_impl_do_cancel_with_reason s reason job)) = jp_started (backend job)"
    and "jp_channel (backend (pd_job_impl_do_cancel_with_reason s reason job)) STDIN_FILENO = Chan_null"
    and "''processing-to-stop-point'' \<in> set (jb_state_reasons (pd_job_impl_do_cancel_with_reason s reason job))"
proof -
  let ?j = "snd (pd_job_impl_check_job_transforming (pd_job_impl_add_state_reason job reason))\<lparr>pending_job_state := s\<rparr>"
  have "''processing-to-stop-point'' \<notin> set (jb_state_reasons ?j)" using assms(2) by simp
  from job_reasons.added [OF this]
  show "''processing-to-stop-point'' \<in> set (jb_state_reasons (pd_job_impl_do_cancel_with_reason s reason job))"
    by (simp add: cancel_processing_step [OF assms] Let_def)
qed (simp_all add: cancel_processing_step [OF assms] Let_def)

lemma running_refs_eqI:
  assumes "filterchain j = filterchain k" and "running (backend j) = running (backend k)"
  shows "running_refs j = running_refs k"
proof -
  have "r \<in> running_refs j \<longleftrightarrow> r \<in> running_refs k" for r
    using assms by (cases r) (simp_all add: running_refs_def)
  then show ?thesis by blast
qed

lemma exits_of_cong: "running_refs j = running_refs k \<Longrightarrow> exits_of j es = exits_of k es"
  by (simp add: exits_of_def)

subsection \<open>A concrete job for the witnesses\<close>

text \<open>A job whose two filters and backend run, with process ids 10, 11 and 12.\<close>

definition running_process :: "int \<Rightarrow> pd_job_process" where
  "running_process pid = pd_job_impl_init_jp\<lparr>jp_started := True, jp_pid := pid, jp_process_watch := True\<rparr>"

definition sample_job :: job where
  "sample_job = (pd_job_impl_init 1 ''doc'' [] ''/p'')
     \<lparr>jb_state := PD_JOB_STATE_PROCESSING, jb_state_reasons := [''job-transforming'', ''job-outgoing''],
      filterchain := [running_process 10, running_process 11], backend := running_process 12,
      pending_job_state := PD_JOB_STATE_COMPLETED\<rparr>"

lemma sample_job_simps [simp]:
  "jb_state sample_job = PD_JOB_STATE_PROCESSING"
  "jb_state_reasons sample_job = [''job-transforming'', ''job-outgoing'']"
  "filterchain sample_job = [running_process 10, running_process 11]"
  "backend sample_job = running_process 12"
  "pending_job_state sample_job = PD_JOB_STATE_COMPLETED"
  "jb_syscalls sample_job = []"
  by (simp_all add: sample_job_def pd_job_impl_init_def)

lemma running_process_simps [simp]:
  "jp_started (running_process p)" "\<not> jp_finished (running_process p)" "running (running_process p)"
  "process_ok (running_process p)" "jp_pid (running_process p) = p" "\<not> jp_freed (running_process p)"
  "jp_channel (running_process p) i = Chan_null"
  by (simp_all add: running_process_def pd_job_impl_init_jp_def running_def process_ok_def)

lemma sample_job_inv: "job_inv sample_job"
  by (simp add: job_inv_def) (simp add: sample_job_def pd_job_impl_init_def)

lemma sample_job_running: "running_refs sample_job = {Filter 0, Filter 1, Backend}"
proof -
  have "r \<in> running_refs sample_job \<longleftrightarrow> r \<in> {Filter 0, Filter 1, Backend}" for r
    by (cases r) (auto simp: running_refs_def less_Suc_eq)
  then show ?thesis by blast
qed

definition sample_exits :: "(jp_ref \<times> guint) list" where
  "sample_exits = [(Filter 1, 0), (Backend, 11), (Filter 0, 9)]"

lemma sample_exits_of: "exits_of sample_job sample_exits" "sample_exits \<noteq> []"
  by (auto simp: exits_of_def sample_exits_def sample_job_running)

lemma finalize_chain_eq:
  "finalize_chain jps =
     (if \<forall>jp\<in>set jps. \<not> jp_freed jp \<and> (\<forall>i<PD_FD_MAX. jp_channel jp i \<noteq> Chan_freed)
      then Some (map (\<lambda>jp. Sys_kill (jp_pid jp)) (filter running jps)) else None)"
  by (induction jps) (auto simp: pd_job_impl_finalize_jp_def list_ex_iff kill_running_def)

lemma finalize_dangling:
  assumes "valid_ref r job" and "i < PD_FD_MAX" and "jp_channel (get_jp r job) i = Chan_freed"
  shows "pd_job_impl_finalize job = None"
proof -
  have "get_jp r job \<in> set (filterchain job @ [backend job])" using assms(1) by (cases r) simp_all
  with assms(2,3) have "finalize_chain (filterchain job @ [backend job]) = None"
    unfolding finalize_chain_eq by (metis (full_types))
  then show ?thesis by (simp add: pd_job_impl_finalize_def)
qed

subsection \<open>Properties\<close>



text \<open>A process that a signal killed has a wait status below 256, whose exit-status byte is
  zero, and the callback looks at nothing else: a job all of whose processes crashed ends in
  its pending state, which is COMPLETED unless it was cancelled.\<close>

theorem crash_counts_as_success:
  assumes "jp_started (backend job)" and "exits_of job es" and "es \<noteq> []"
    and "\<forall>(r, st)\<in>set es. st < 256"
  shows "jb_state (run_exits es job) = pending_job_state job"
proof -
  have "WEXITSTATUS st = 0" if "st < 256" for st :: guint
  proof -
    have "unat st < 2 ^ 8" using that by (simp add: word_less_nat_alt)
    then have "take_bit 8 (unat st) = unat st" by (rule take_bit_nat_eq_self)
    then have low: "bit st n \<Longrightarrow> n < 8" for n
      by (metis bit_imp_possible_bit bit_take_bit_iff bit_unsigned_iff nat_le_iff_add possible_bit_nat)
    show ?thesis
      by (rule bit_word_eqI) (auto simp: WEXITSTATUS_def bit_simps dest: low)
  qed
  with assms(4) have "\<not> (\<exists>(r, st)\<in>set es. WEXITSTATUS st \<noteq> 0)" by fastforce
  with assms(1-3) show ?thesis by (simp add: run_exits_state run_exits_pending)
qed

theorem crash_counts_as_success_witness:
  "jb_state (run_exits [(Backend, 11), (Filter 0, 11), (Filter 1, 11)] sample_job) = PD_JOB_STATE_COMPLETED"
  using crash_counts_as_success [of sample_job "[(Backend, 11), (Filter 0, 11), (Filter 1, 11)]"]
  by (simp add: exits_of_def sample_job_running) blast

text \<open>C4: Cancelling a job that is being processed leaves its state alone for the moment, closes
  the input of the backend, and sends one KILL to exactly the processes that run, the filters
  in order and then the backend; when they have exited the job is in the state asked for,
  unless a process had already failed on its own.\<close>

theorem cancel_kills_then_ends:
  assumes "can_cancel_processing job" and "jp_started (backend job)"
    and "''processing-to-stop-point'' \<notin> set (jb_state_reasons (pd_job_impl_add_state_reason job reason))"
    and "exits_of job es" and "es \<noteq> []"
  shows "\<exists>job'. pd_job_impl_do_cancel_with_reason s reason job = job'
    \<and> jb_state job' = jb_state job
    \<and> jb_syscalls job' = jb_syscalls job @ map (\<lambda>jp. Sys_kill (jp_pid jp)) (filter running (filterchain job @ [backend job]))
    \<and> jp_channel (backend job') STDIN_FILENO = Chan_null
    \<and> jb_state (run_exits es job') =
        (if \<exists>(r, st)\<in>set es. WEXITSTATUS st \<noteq> 0 then PD_JOB_STATE_ABORTED else s)"
proof -
  let ?j = "pd_job_impl_do_cancel_with_reason s reason job"
  note f = cancel_processing_frame [OF assms(1,3), of s]
  have "running_refs ?j = running_refs job" by (rule running_refs_eqI) (simp_all only: f)
  with assms(4) have "exits_of ?j es" by (simp add: exits_of_def)
  with assms(2,5) f show ?thesis
    by (simp add: run_exits_state run_exits_pending kills_def)
qed

theorem cancel_kills_then_ends_witness:
  "\<exists>job'. pd_job_impl_do_cancel_with_reason PD_JOB_STATE_CANCELED ''job-canceled-by-user'' sample_job = job'
    \<and> jb_syscalls job' = [Sys_kill 10, Sys_kill 11, Sys_kill 12]
    \<and> jb_state (run_exits sample_exits job') = PD_JOB_STATE_CANCELED"
  using cancel_kills_then_ends [OF _ _ _ sample_exits_of, of "''job-canceled-by-user''" PD_JOB_STATE_CANCELED]
  by (simp add: pd_job_impl_add_state_reason_def pd_job_set_state_reasons_def add_state_reason_eq
      sample_exits_def WEXITSTATUS_def)

text \<open>Cancelling on the other branches: a pending or held job takes the new state at once; a
  terminal job keeps its state, its processes and its signals, and only the reason is added.\<close>

theorem cancel_not_processing:
  assumes "jb_state job \<notin> {PD_JOB_STATE_PROCESSING, PD_JOB_STATE_PROCESSING_STOPPED}"
  shows "pd_job_impl_do_cancel_with_reason s reason job =
    (let job1 = pd_job_impl_add_state_reason job reason in
     if jb_state job \<in> {PD_JOB_STATE_PENDING, PD_JOB_STATE_PENDING_HELD} then pd_job_set_state s job1 else job1)"
  using assms by (simp add: pd_job_impl_do_cancel_with_reason_def Let_def)

theorem cancel_not_processing_witness:
  "jb_state (pd_job_impl_do_cancel_with_reason PD_JOB_STATE_CANCELED ''r''
     (pd_job_impl_init 1 ''n'' [] ''/p'')) = PD_JOB_STATE_CANCELED"
  using cancel_not_processing [of "pd_job_impl_init 1 ''n'' [] ''/p''" PD_JOB_STATE_CANCELED "''r''"]
  by (simp add: pd_job_impl_init_def Let_def)

text \<open>C22: The stop-point reason is meant to make a second cancellation harmless, and it does when
  the second one comes with a reason that is not set yet. With the same reason as before,
  adding it again drops every later reason, the stop-point too, so the running processes are
  sent KILL a second time and the pending state is overwritten.\<close>

theorem second_cancel:
  assumes "can_cancel_processing job" and "job1 = pd_job_impl_do_cancel_with_reason s reason job"
    and "reason \<notin> set (jb_state_reasons job)" and "reason \<noteq> ''processing-to-stop-point''"
    and "reason \<noteq> ''job-transforming''" and "''processing-to-stop-point'' \<notin> set (jb_state_reasons job)"
  shows "jb_syscalls (pd_job_impl_do_cancel_with_reason s' reason job1) = jb_syscalls job @ kills job @ kills job
    \<and> pending_job_state (pd_job_impl_do_cancel_with_reason s' reason job1) = s'
    \<and> (other \<notin> set (jb_state_reasons job1) \<longrightarrow>
        jb_syscalls (pd_job_impl_do_cancel_with_reason s' other job1) = jb_syscalls job1
        \<and> pending_job_state (pd_job_impl_do_cancel_with_reason s' other job1) = s)"
proof -
  have n: "''processing-to-stop-point'' \<notin> set (jb_state_reasons (pd_job_impl_add_state_reason job reason))"
    using assms(3-6) by (simp add: job_reasons.add_keeps_others)
  note f = cancel_processing_frame [OF assms(1) n, of s, folded assms(2)]
  have c: "can_cancel_processing job1" using assms(1) f by auto
  have k: "kills job1 = kills job"
    using arg_cong [where f = "\<lambda>j. jp_pid (backend j)", OF assms(2)] f(4,5)
    by (simp add: kills_def cancel_processing_step [OF assms(1) n] Let_def)
  let ?rs = "jb_state_reasons (snd (pd_job_impl_check_job_transforming (pd_job_impl_add_state_reason job reason)))"
  have "jb_state_reasons job1 = ?rs @ [''processing-to-stop-point'']"
    using assms(2) n
    by (simp add: cancel_processing_step [OF assms(1) n] Let_def job_reasons.reasons_after_add)
  moreover have "reason \<in> set ?rs"
    using assms(3,5) job_reasons.added by simp
  ultimately have "jb_state_reasons (pd_job_impl_add_state_reason job1 reason) = takeWhile (\<lambda>x. x \<noteq> reason) ?rs"
    by (simp add: job_reasons.reasons_after_add reasons_add_present)
  moreover have "''processing-to-stop-point'' \<notin> set ?rs" using n by simp
  ultimately have n1: "''processing-to-stop-point'' \<notin> set (jb_state_reasons (pd_job_impl_add_state_reason job1 reason))"
    by (auto dest: set_takeWhileD)
  note g = cancel_processing_frame [OF c n1, of s']
  have "jb_syscalls (pd_job_impl_do_cancel_with_reason s' other job1) = jb_syscalls job1
        \<and> pending_job_state (pd_job_impl_do_cancel_with_reason s' other job1) = s"
    if o: "other \<notin> set (jb_state_reasons job1)"
  proof -
    let ?j = "pd_job_impl_add_state_reason job1 other"
    have "''processing-to-stop-point'' \<in> set (jb_state_reasons ?j)"
      using f(8) o by (metis job_reasons.add_keeps_others)
    then have p: "state_reason_is_set (snd (pd_job_impl_check_job_transforming ?j)) ''processing-to-stop-point''"
      by (simp add: state_reason_is_set_iff)
    obtain t j2 where t: "pd_job_impl_check_job_transforming ?j = (t, j2)" by fastforce
    with check_transforming_frame(9) [of ?j] c p show ?thesis
      using check_transforming_frame(5,6,7) [of ?j] f(2)
      by (auto simp: pd_job_impl_do_cancel_with_reason_def Let_def)
  qed
  with f g k show ?thesis by simp
qed

theorem second_cancel_witness:
  "jb_syscalls (pd_job_impl_do_cancel_with_reason PD_JOB_STATE_ABORTED ''job-aborted-by-system''
     (pd_job_impl_do_cancel_with_reason PD_JOB_STATE_ABORTED ''job-aborted-by-system'' sample_job))
   = [Sys_kill 10, Sys_kill 11, Sys_kill 12, Sys_kill 10, Sys_kill 11, Sys_kill 12]"
  using second_cancel [of sample_job _ PD_JOB_STATE_ABORTED "''job-aborted-by-system''" PD_JOB_STATE_ABORTED, OF _ refl]
  by (simp add: kills_def)



end
