(* ===== verification/Pd_Job_Io.thy ===== *)
theory Pd_Job_Io
  imports Pd_Job
begin

text \<open>
  src/pd-job-impl.c, part two: the messages of filters and backend on their standard error, and
  the callbacks that move the data of the last filter into the backend through the buffer of
  the job. What a channel operation does is an argument of the callback (an outcome); None is
  a failed assertion, a NULL dereference or the use of a channel that was freed.
\<close>

subsection \<open>Messages\<close>

datatype printer_reason = Add_printer_state_reason string | Remove_printer_state_reason string

definition separators :: string where
  "separators = [CHR '','', CHR '' '', CHR 0x09, CHR 0x0A]"

text \<open>The loop over the reasons of a message: the pointer token moves over the separators after each.\<close>

function parse_reasons :: "string \<Rightarrow> string list" where
  "parse_reasons token =
     (if token = [] then []
      else let end_token = drop (strcspn token separators) token;
               reason = take (strcspn token separators) token in
        reason # parse_reasons (drop (strspn end_token separators) end_token))"
  by auto
termination
proof (relation "measure length")
  fix token end_token reason :: string
  assume t: "token \<noteq> []" and e: "end_token = drop (strcspn token separators) token"
  show "(drop (strspn end_token separators) end_token, token) \<in> measure length"
  proof (cases "strcspn token separators = 0")
    case True
    with t obtain c cs where "token = c # cs" "c \<in> set separators"
      by (cases token) (auto simp: strcspn_def split: if_splits)
    with True e t show ?thesis by (simp add: strspn_def)
  next
    case False
    with e t show ?thesis by simp
  qed
qed simp

declare parse_reasons.simps [simp del]

definition pd_job_impl_parse_stderr :: "string \<Rightarrow> printer_reason list" where
  "pd_job_impl_parse_stderr line =
     (if strncmp_eq line ''STATE:'' 6
      then (let token0 = drop 6 line;
                token1 = drop (strspn token0 [CHR '' '', CHR 0x09]) token0 in
            case token1 of
              [] \<Rightarrow> []
            | add_or_remove # token \<Rightarrow>
                if add_or_remove = CHR ''+'' then map Add_printer_state_reason (parse_reasons token)
                else if add_or_remove = CHR ''-'' then map Remove_printer_state_reason (parse_reasons token)
                else [])
      else [])"

subsection \<open>Data\<close>

datatype read_outcome = Read_normal "byte list" | Read_eof | Read_error | Read_again

datatype write_outcome = Write_normal nat | Write_eof nat | Write_error | Write_again nat

text \<open>If the channel is not NULL, watch it and remember the source.\<close>

definition watch_channel :: "jp_ref \<Rightarrow> nat \<Rightarrow> io_watch \<Rightarrow> job \<Rightarrow> job option" where
  "watch_channel ref fd w job =
     (case jp_channel (get_jp ref job) fd of
        Chan_null \<Rightarrow> Some job
      | Chan_live \<Rightarrow> Some (map_jp ref (\<lambda>jp. jp\<lparr>jp_io_source := (jp_io_source jp)(fd := Some w)\<rparr>) job)
      | Chan_freed \<Rightarrow> None)"

definition clear_source :: "jp_ref \<Rightarrow> nat \<Rightarrow> job \<Rightarrow> job" where
  "clear_source ref fd job = map_jp ref (\<lambda>jp. jp\<lparr>jp_io_source := (jp_io_source jp)(fd := None)\<rparr>) job"

definition set_channel :: "jp_ref \<Rightarrow> nat \<Rightarrow> channel \<Rightarrow> job \<Rightarrow> job" where
  "set_channel ref fd c job = map_jp ref (\<lambda>jp. jp\<lparr>jp_channel := (jp_channel jp)(fd := c)\<rparr>) job"

text \<open>
  pd_job_impl_data_io_cb for the conditions G_IO_IN and G_IO_HUP. The result is the job and
  keep_source. Only the EOF branch resets the channel pointer; after an error it dangles.
\<close>

definition data_io_cb_in :: "jp_ref \<Rightarrow> read_outcome \<Rightarrow> job \<Rightarrow> (job \<times> bool) option" where
  "data_io_cb_in this outcome job =
     (if this = Backend then None
      else case outcome of
        Read_normal bs \<Rightarrow>
          (let job1 = job\<lparr>buffer := bs @ drop (length bs) (buffer job), buflen := length bs, bufsent := 0\<rparr> in
           map_option (\<lambda>j. (clear_source this STDOUT_FILENO j, False))
             (watch_channel Backend STDIN_FILENO Data_out job1))
      | Read_eof \<Rightarrow>
          map_option (\<lambda>j. (j, False))
            (watch_channel Backend STDIN_FILENO Data_out
              (set_channel this STDOUT_FILENO Chan_null (clear_source this STDOUT_FILENO job)))
      | Read_error \<Rightarrow>
          Some (clear_source this STDOUT_FILENO
            (set_channel this STDOUT_FILENO Chan_freed
              (pd_job_impl_do_cancel_with_reason PD_JOB_STATE_ABORTED ''job-aborted-by-system'' job)), False)
      | Read_again \<Rightarrow> Some (job, True))"

text \<open>The next process: for the backend the last filter (a NULL list has no last element).\<close>

definition next_process :: "jp_ref \<Rightarrow> job \<Rightarrow> jp_ref option" where
  "next_process this job =
     (if this = Backend
      then (if filterchain job = [] then None else Some (Filter (length (filterchain job) - 1)))
      else Some Backend)"

text \<open>The part of the write branch after the switch: wrote bytes more are sent.\<close>

definition data_sent :: "jp_ref \<Rightarrow> jp_ref \<Rightarrow> nat \<Rightarrow> job \<Rightarrow> (job \<times> bool) option" where
  "data_sent this next wrote job =
     (let job1 = job\<lparr>bufsent := bufsent job + wrote\<rparr> in
      if buflen job1 = bufsent job1
      then map_option (\<lambda>j. (j, False)) (watch_channel next STDOUT_FILENO Data_in (clear_source this STDIN_FILENO job1))
      else Some (job1, True))"

definition data_io_cb_out :: "jp_ref \<Rightarrow> write_outcome \<Rightarrow> job \<Rightarrow> (job \<times> bool) option" where
  "data_io_cb_out this outcome job =
     (case next_process this job of
        None \<Rightarrow> None
      | Some next \<Rightarrow>
          if buflen job = bufsent job
          then Some (snd (pd_job_impl_check_job_transforming
                  (set_channel this STDIN_FILENO Chan_null (clear_source this STDIN_FILENO job))), False)
          else case outcome of
            Write_error \<Rightarrow>
              Some (pd_job_impl_do_cancel_with_reason PD_JOB_STATE_ABORTED ''job-aborted-by-system'' job, True)
          | Write_eof wrote \<Rightarrow>
              data_sent this next wrote
                (pd_job_impl_do_cancel_with_reason PD_JOB_STATE_ABORTED ''job-canceled-by-system'' job)
          | Write_again wrote \<Rightarrow> data_sent this next wrote job
          | Write_normal wrote \<Rightarrow> data_sent this next wrote job)"

subsection \<open>Messages of a process\<close>

datatype line_end = Lines_error | Lines_eof | Lines_again

text \<open>
  pd_job_impl_message_io_cb for a channel of the process: the lines read and the status that
  ended the loop. The emissions for the printer are in order.
\<close>

definition message_io_cb ::
  "glib \<Rightarrow> jp_ref \<Rightarrow> nat \<Rightarrow> string list \<Rightarrow> line_end \<Rightarrow> job \<Rightarrow> job \<times> printer_reason list \<times> bool" where
  "message_io_cb G this thisfd read_lines status job =
     (let emitted = (if thisfd = STDERR_FILENO
            then concat (map (\<lambda>line. pd_job_impl_parse_stderr (g_strchomp G line)) read_lines) else []) in
      case status of
        Lines_error \<Rightarrow>
          (pd_job_set_state PD_JOB_STATE_CANCELED
             (pd_job_impl_add_state_reason (set_channel this thisfd Chan_freed job) ''job-canceled-by-system''),
           emitted, False)
      | Lines_eof \<Rightarrow> (clear_source this thisfd (set_channel this thisfd Chan_null job), emitted, False)
      | Lines_again \<Rightarrow> (job, emitted, True))"

subsection \<open>Lemmas on messages\<close>

fun join_reasons :: "string \<Rightarrow> string list \<Rightarrow> string" where
  "join_reasons sep [] = []"
| "join_reasons sep [w] = w"
| "join_reasons sep (w # v # ws) = w @ sep @ join_reasons sep (v # ws)"

definition reason_word :: "string \<Rightarrow> bool" where
  "reason_word w \<longleftrightarrow> w \<noteq> [] \<and> set w \<inter> set separators = {}"

lemma strcspn_word:
  "set w \<inter> set separators = {} \<Longrightarrow> s \<in> set separators \<Longrightarrow> strcspn (w @ s # t) separators = length w"
  unfolding strcspn_def by (induction w) auto

lemma strcspn_word_end: "set w \<inter> set separators = {} \<Longrightarrow> strcspn w separators = length w"
  unfolding strcspn_def by (induction w) auto

lemma strspn_separators:
  "set u \<subseteq> A \<Longrightarrow> A = set a \<Longrightarrow> t = [] \<or> hd t \<notin> A \<Longrightarrow> strspn (u @ t) a = length u"
  unfolding strspn_def by (induction u) (auto simp: neq_Nil_conv takeWhile_eq_Nil_iff)

lemma parse_reasons_Nil [simp]: "parse_reasons [] = []"
  by (subst parse_reasons.simps) simp

lemma parse_reasons_word:
  "reason_word w \<Longrightarrow> parse_reasons w = [w]"
  by (subst parse_reasons.simps) (simp add: reason_word_def strcspn_word_end strspn_def)

lemma parse_reasons_step:
  assumes "set w \<inter> set separators = {}" and "set sep \<subseteq> set separators" and "sep \<noteq> []"
    and "t = [] \<or> hd t \<notin> set separators"
  shows "parse_reasons (w @ sep @ t) = w # parse_reasons t"
proof -
  obtain s u where su: "sep = s # u" using assms(3) by (cases sep) auto
  with assms(1,2) have c: "strcspn (w @ sep @ t) separators = length w"
    using strcspn_word [of w s "u @ t"] by simp
  have d: "strspn (sep @ t) separators = length sep"
    using assms(2) refl assms(4) by (rule strspn_separators)
  show ?thesis
    by (subst parse_reasons.simps) (simp add: c d Let_def assms(3))
qed

lemma hd_join_reasons: "\<forall>w\<in>set ws. reason_word w \<Longrightarrow> join_reasons sep ws = [] \<or> hd (join_reasons sep ws) \<notin> set separators"
  by (cases "(sep, ws)" rule: join_reasons.cases) (auto simp: reason_word_def neq_Nil_conv)

lemma parse_join:
  assumes "\<forall>w\<in>set ws. reason_word w" and "set sep \<subseteq> set separators" and "sep \<noteq> []"
  shows "parse_reasons (join_reasons sep ws) = ws"
  using assms
proof (induction sep ws rule: join_reasons.induct)
  case (3 sep w v ws)
  have "parse_reasons (w @ sep @ join_reasons sep (v # ws)) = w # parse_reasons (join_reasons sep (v # ws))"
    using 3(2-4) hd_join_reasons [of "v # ws" sep] by (intro parse_reasons_step) (auto simp: reason_word_def)
  with 3 show ?case by simp
qed (simp_all add: parse_reasons_word)

subsection \<open>Lemmas on the data callbacks\<close>

lemma watch_channel_Some:
  "watch_channel ref fd w job = Some j \<longleftrightarrow>
     jp_channel (get_jp ref job) fd \<noteq> Chan_freed \<and>
     j = (if jp_channel (get_jp ref job) fd = Chan_null then job
          else map_jp ref (\<lambda>jp. jp\<lparr>jp_io_source := (jp_io_source jp)(fd := Some w)\<rparr>) job)"
  by (auto simp: watch_channel_def split: channel.splits)

definition only_io :: "(pd_job_process \<Rightarrow> pd_job_process) \<Rightarrow> bool" where
  "only_io f \<longleftrightarrow> (\<forall>jp. jp_started (f jp) = jp_started jp \<and> running (f jp) = running jp \<and> process_ok (f jp) = process_ok jp)"

lemma only_io_updates [simp]:
  "only_io (\<lambda>jp. jp\<lparr>jp_io_source := g jp\<rparr>)" "only_io (\<lambda>jp. jp\<lparr>jp_channel := h jp\<rparr>)"
  by (simp_all add: only_io_def running_def process_ok_def)

lemma job_inv_only_io: "only_io f \<Longrightarrow> job_inv job \<Longrightarrow> valid_ref ref job \<Longrightarrow> job_inv (map_jp ref f job)"
  by (rule job_inv_map_jp) (simp_all add: only_io_def job_inv_process_ok)

lemma job_inv_clear_source: "job_inv job \<Longrightarrow> valid_ref ref job \<Longrightarrow> job_inv (clear_source ref fd job)"
  by (simp add: clear_source_def job_inv_only_io)

lemma job_inv_set_channel: "job_inv job \<Longrightarrow> valid_ref ref job \<Longrightarrow> job_inv (set_channel ref fd c job)"
  by (simp add: set_channel_def job_inv_only_io)

lemma job_inv_watch_channel:
  "watch_channel ref fd w job = Some j \<Longrightarrow> job_inv job \<Longrightarrow> valid_ref ref job \<Longrightarrow> job_inv j"
  by (auto simp: watch_channel_Some job_inv_only_io)

lemma valid_ref_io [simp]:
  "valid_ref r (clear_source ref fd job) = valid_ref r job"
  "valid_ref r (set_channel ref fd c job) = valid_ref r job"
  by (simp_all add: clear_source_def set_channel_def)

lemma cancel_frame [simp]:
  "filterchain (pd_job_impl_do_cancel_with_reason s reason job) = filterchain job"
  "buffer (pd_job_impl_do_cancel_with_reason s reason job) = buffer job"
  "buflen (pd_job_impl_do_cancel_with_reason s reason job) = buflen job"
  "bufsent (pd_job_impl_do_cancel_with_reason s reason job) = bufsent job"
  "document_fd (pd_job_impl_do_cancel_with_reason s reason job) = document_fd job"
  "document_filename (pd_job_impl_do_cancel_with_reason s reason job) = document_filename job"
  by (auto simp: pd_job_impl_do_cancel_with_reason_def pd_job_impl_check_job_transforming_def Let_def
      job_prop_defs stop_backend_input_def)

lemma valid_ref_cancel [simp]: "valid_ref r (pd_job_impl_do_cancel_with_reason s reason job) = valid_ref r job"
  by (cases r) simp_all

lemma cancel_backend:
  "backend (pd_job_impl_do_cancel_with_reason s reason job) = backend job
   \<or> backend (pd_job_impl_do_cancel_with_reason s reason job) = close_stdin (backend job)"
  by (auto simp: pd_job_impl_do_cancel_with_reason_def pd_job_impl_check_job_transforming_def Let_def
      stop_backend_input_def)

lemma job_inv_buffer:
  "job_inv job \<Longrightarrow> length b = 1024 \<Longrightarrow> n \<le> m \<Longrightarrow> m \<le> 1024 \<Longrightarrow>
     job_inv (job\<lparr>buffer := b, buflen := m, bufsent := n\<rparr>)"
  by (simp add: job_inv_def)

lemma job_inv_sent: "job_inv job \<Longrightarrow> bufsent job + n \<le> buflen job \<Longrightarrow> job_inv (job\<lparr>bufsent := bufsent job + n\<rparr>)"
  by (simp add: job_inv_def)

lemma valid_ref_buffers [simp]:
  "valid_ref r (job\<lparr>buffer := b\<rparr>) = valid_ref r job"
  "valid_ref r (job\<lparr>buflen := m\<rparr>) = valid_ref r job"
  "valid_ref r (job\<lparr>bufsent := n\<rparr>) = valid_ref r job"
  by (cases r; simp)+

lemma get_jp_buffers [simp]:
  "get_jp r (job\<lparr>buffer := b\<rparr>) = get_jp r job"
  "get_jp r (job\<lparr>buflen := m\<rparr>) = get_jp r job"
  "get_jp r (job\<lparr>bufsent := n\<rparr>) = get_jp r job"
  by (cases r; simp)+

lemma job_inv_data_in:
  assumes "data_io_cb_in this outcome job = Some (job', keep)" and "job_inv job" and "valid_ref this job"
    and "\<And>bs. outcome = Read_normal bs \<Longrightarrow> length bs \<le> 1024"
  shows "job_inv job'"
proof (cases outcome)
  case (Read_normal bs)
  from assms(2) have "job_inv (job\<lparr>buffer := bs @ drop (length bs) (buffer job), buflen := length bs, bufsent := 0\<rparr>)"
    using assms(4) [OF Read_normal] by (intro job_inv_buffer) (simp_all add: job_inv_def)
  with assms(1,3) Read_normal show ?thesis
    by (auto simp: data_io_cb_in_def Let_def split: if_splits
        intro!: job_inv_clear_source dest: job_inv_watch_channel) (auto simp: watch_channel_Some split: if_splits)
next
  case Read_eof
  with assms(1-3) show ?thesis
    by (auto simp: data_io_cb_in_def split: if_splits
        dest!: job_inv_watch_channel intro: job_inv_set_channel job_inv_clear_source)
next
  case Read_error
  with assms(1-3) show ?thesis
    by (auto simp: data_io_cb_in_def job_inv_cancel split: if_splits
        intro!: job_inv_set_channel job_inv_clear_source)
next
  case Read_again
  with assms(1-3) show ?thesis by (auto simp: data_io_cb_in_def split: if_splits)
qed

lemma next_process_valid: "next_process this job = Some next \<Longrightarrow> valid_ref next job"
  by (auto simp: next_process_def split: if_splits)

lemma job_inv_data_sent:
  assumes "data_sent this next n job = Some (job', keep)" and "job_inv job" and "valid_ref this job"
    and "valid_ref next job" and "bufsent job + n \<le> buflen job"
  shows "job_inv job'"
  using assms job_inv_sent [OF assms(2,5)]
  by (auto simp: data_sent_def Let_def split: if_splits dest!: job_inv_watch_channel intro: job_inv_clear_source)

text \<open>What the documentation of g_io_channel_write_chars says of the number of bytes written.\<close>

fun write_ok :: "write_outcome \<Rightarrow> job \<Rightarrow> bool" where
  "write_ok (Write_normal n) job \<longleftrightarrow> bufsent job + n \<le> buflen job"
| "write_ok (Write_eof n) job \<longleftrightarrow> bufsent job + n \<le> buflen job"
| "write_ok (Write_again n) job \<longleftrightarrow> bufsent job + n \<le> buflen job"
| "write_ok Write_error job \<longleftrightarrow> True"

lemma job_inv_data_out:
  assumes "data_io_cb_out this outcome job = Some (job', keep)" and "job_inv job" and "valid_ref this job"
    and "write_ok outcome job"
  shows "job_inv job'"
proof -
  from assms(1) obtain next_jp where n: "next_process this job = Some next_jp"
    by (auto simp: data_io_cb_out_def split: option.splits)
  show ?thesis
  proof (cases "buflen job = bufsent job")
    case True
    with assms n show ?thesis
      by (auto simp: data_io_cb_out_def intro!: job_inv_set_channel job_inv_clear_source)
  next
    case False
    with assms n next_process_valid [OF n] show ?thesis
      by (auto simp: data_io_cb_out_def job_inv_cancel split: write_outcome.splits intro: job_inv_data_sent)
  qed
qed

lemma job_inv_message:
  assumes "message_io_cb G this fd ls status job = (job', emitted, keep)" and "job_inv job" and "valid_ref this job"
  shows "job_inv job'"
  using assms by (auto simp: message_io_cb_def Let_def split: line_end.splits
      intro!: job_inv_clear_source job_inv_set_channel)

subsection \<open>Properties\<close>

text \<open>C17: A STATE message that lists words after a plus or a minus sign adds or removes exactly
  these reasons, in order; other lines emit nothing. A blank between the sign and the first
  word makes the code emit one more reason, the empty one, in front.\<close>

theorem parse_stderr_reasons:
  assumes "\<forall>w\<in>set ws. reason_word w" and "set sep \<subseteq> set separators" and "sep \<noteq> []"
    and "set blanks \<subseteq> {CHR '' '', CHR 0x09}" and "ws \<noteq> []" and "take 6 other \<noteq> ''STATE:''"
  shows "pd_job_impl_parse_stderr (''STATE:'' @ blanks @ ''+'' @ join_reasons sep ws) = map Add_printer_state_reason ws
    \<and> pd_job_impl_parse_stderr (''STATE:'' @ blanks @ ''-'' @ join_reasons sep ws) = map Remove_printer_state_reason ws
    \<and> pd_job_impl_parse_stderr (''STATE:'' @ blanks @ ''+ '' @ join_reasons sep ws) = map Add_printer_state_reason ([] # ws)
    \<and> pd_job_impl_parse_stderr other = []"
proof -
  note p = parse_join [OF assms(1-3)]
  have "join_reasons sep ws = [] \<or> hd (join_reasons sep ws) \<notin> set separators"
    using assms(1) by (rule hd_join_reasons)
  then have e: "parse_reasons (CHR '' '' # join_reasons sep ws) = [] # ws"
    using parse_reasons_step [of "[]" "[CHR '' '']" "join_reasons sep ws"] p by (simp add: separators_def)
  have s: "strspn (blanks @ c # t) [CHR '' '', CHR 0x09] = length blanks" if "c \<noteq> CHR '' ''" "c \<noteq> CHR 0x09" for c t
    using assms(4) that by (intro strspn_separators [where A = "{CHR '' '', CHR 0x09}"]) auto
  show ?thesis
    using assms(6) p e by (simp add: pd_job_impl_parse_stderr_def strncmp_eq_def s)
qed

theorem parse_stderr_reasons_witness:
  "pd_job_impl_parse_stderr ''STATE: +media-empty,door-open'' =
     [Add_printer_state_reason ''media-empty'', Add_printer_state_reason ''door-open'']"
  using parse_stderr_reasons [of "[''media-empty'', ''door-open'']" "'',''" "'' ''" "''INFO: x''"]
  by (simp add: reason_word_def separators_def)

text \<open>C23: A read error on a message channel makes the job CANCELED whatever its state was, even a
  completed one, without stopping its processes; and after it, as after a read error on the
  data of a filter, the job holds a pointer to a channel it no longer owns, so finalizing the
  job releases that channel again.\<close>

theorem read_error_dangles:
  assumes "valid_ref r job" and "fd < PD_FD_MAX"
  shows "(\<exists>job' emitted. message_io_cb G r fd ls Lines_error job = (job', emitted, False)
       \<and> jb_state job' = PD_JOB_STATE_CANCELED \<and> jb_syscalls job' = jb_syscalls job
       \<and> running_refs job' = running_refs job \<and> pd_job_impl_finalize job' = None)
    \<and> (r \<noteq> Backend \<longrightarrow> (\<exists>job'. data_io_cb_in r Read_error job = Some (job', False)
       \<and> pd_job_impl_finalize job' = None))"
proof -
  let ?m = "pd_job_set_state PD_JOB_STATE_CANCELED
      (pd_job_impl_add_state_reason (set_channel r fd Chan_freed job) ''job-canceled-by-system'')"
  have "running_refs ?m = running_refs job"
    using assms(1) by (auto simp: running_refs_def set_channel_def running_def)
  with assms finalize_dangling [of r ?m fd] have M: "running_refs ?m = running_refs job" "pd_job_impl_finalize ?m = None"
    by (simp_all add: set_channel_def running_refs_def)
  let ?d = "clear_source r STDOUT_FILENO (set_channel r STDOUT_FILENO Chan_freed
      (pd_job_impl_do_cancel_with_reason PD_JOB_STATE_ABORTED ''job-aborted-by-system'' job))"
  have "pd_job_impl_finalize ?d = None"
    using assms(1) finalize_dangling [of r ?d STDOUT_FILENO] by (simp add: clear_source_def set_channel_def)
  with M show ?thesis
    by (simp add: message_io_cb_def data_io_cb_in_def) (simp add: set_channel_def)
qed

theorem read_error_dangles_witness:
  "\<exists>job' emitted. message_io_cb glib_doc Backend STDERR_FILENO [] Lines_error
      (sample_job\<lparr>jb_state := PD_JOB_STATE_COMPLETED\<rparr>) = (job', emitted, False)
    \<and> jb_state job' = PD_JOB_STATE_CANCELED \<and> pd_job_impl_finalize job' = None"
  using read_error_dangles [of Backend "sample_job\<lparr>jb_state := PD_JOB_STATE_COMPLETED\<rparr>" STDERR_FILENO glib_doc "[]"]
  by auto

end
