(* ===== verification/Pd_Job_Pump.thy ===== *)
theory Pd_Job_Pump
  imports Pd_Job_Io
begin

text \<open>
  The life of the data between the last filter and the backend: the steps are the callbacks of
  Pd_Job and Pd_Job_Io that the main loop may dispatch, each when its watch is installed, with
  any outcome of the channel operations that their documentation allows. The record adds to
  the job what was read and written so far, whether the end of the data was seen, and whether
  the input of the backend was closed because nothing is left to send.
\<close>

record pump =
  pm_job :: job
  pm_read :: "byte list"
  pm_written :: "byte list"
  pm_eof :: bool
  pm_closed :: bool

definition last_ref :: "job \<Rightarrow> jp_ref" where
  "last_ref job = Filter (length (filterchain job) - 1)"

abbreviation src :: "jp_ref \<Rightarrow> nat \<Rightarrow> job \<Rightarrow> io_watch option" where
  "src r i job \<equiv> jp_io_source (get_jp r job) i"

abbreviation chan :: "jp_ref \<Rightarrow> nat \<Rightarrow> job \<Rightarrow> channel" where
  "chan r i job \<equiv> jp_channel (get_jp r job) i"

fun bytes_read :: "read_outcome \<Rightarrow> byte list" where
  "bytes_read (Read_normal bs) = bs"
| "bytes_read _ = []"

fun read_ok :: "read_outcome \<Rightarrow> bool" where
  "read_ok (Read_normal bs) \<longleftrightarrow> bs \<noteq> [] \<and> length bs \<le> 1024"
| "read_ok _ \<longleftrightarrow> True"

fun wrote :: "write_outcome \<Rightarrow> nat" where
  "wrote (Write_normal n) = n"
| "wrote (Write_eof n) = n"
| "wrote (Write_again n) = n"
| "wrote Write_error = 0"

definition pending :: "job \<Rightarrow> byte list" where
  "pending job = take (buflen job - bufsent job) (drop (bufsent job) (buffer job))"

inductive pump_step :: "pump \<Rightarrow> pump \<Rightarrow> bool" where
  pump_read:
    "valid_ref r (pm_job p) \<Longrightarrow> src r STDOUT_FILENO (pm_job p) = Some Data_in \<Longrightarrow> read_ok outcome \<Longrightarrow>
     data_io_cb_in r outcome (pm_job p) = Some (job', keep) \<Longrightarrow>
     pump_step p (p\<lparr>pm_job := job', pm_read := pm_read p @ bytes_read outcome,
                    pm_eof := (pm_eof p \<or> outcome = Read_eof)\<rparr>)"
| pump_write:
    "valid_ref r (pm_job p) \<Longrightarrow> src r STDIN_FILENO (pm_job p) = Some Data_out \<Longrightarrow> write_ok outcome (pm_job p) \<Longrightarrow>
     data_io_cb_out r outcome (pm_job p) = Some (job', keep) \<Longrightarrow>
     pump_step p (p\<lparr>pm_job := job', pm_written := pm_written p @ take (wrote outcome) (pending (pm_job p)),
                    pm_closed := (pm_closed p \<or> buflen (pm_job p) = bufsent (pm_job p))\<rparr>)"
| pump_message:
    "valid_ref r (pm_job p) \<Longrightarrow> src r fd (pm_job p) = Some Message_in \<Longrightarrow>
     message_io_cb G r fd read_lines status (pm_job p) = (job', emitted, keep) \<Longrightarrow>
     pump_step p (p\<lparr>pm_job := job'\<rparr>)"
| pump_exit:
    "r \<in> running_refs (pm_job p) \<Longrightarrow>
     pump_step p (p\<lparr>pm_job := pd_job_impl_process_watch_cb r st (pm_job p)\<rparr>)"
| pump_cancel:
    "pump_step p (p\<lparr>pm_job := pd_job_impl_do_cancel_with_reason s reason (pm_job p)\<rparr>)"

text \<open>The state in which pd_job_impl_start_sending leaves a job that it has started.\<close>

definition pump_ready :: "job \<Rightarrow> bool" where
  "pump_ready job \<longleftrightarrow> filterchain job \<noteq> [] \<and> buflen job = bufsent job \<and> length (buffer job) = 1024
     \<and> buflen job \<le> 1024
     \<and> src (last_ref job) STDOUT_FILENO job = Some Data_in \<and> chan (last_ref job) STDOUT_FILENO job = Chan_live
     \<and> src Backend STDIN_FILENO job = None
     \<and> (\<forall>r. valid_ref r job \<longrightarrow> src r STDIN_FILENO job \<noteq> Some Data_out)
     \<and> (\<forall>r. valid_ref r job \<longrightarrow> r \<noteq> last_ref job \<longrightarrow> src r STDOUT_FILENO job \<noteq> Some Data_in)"

definition pump_initial :: "pump \<Rightarrow> bool" where
  "pump_initial p \<longleftrightarrow> pump_ready (pm_job p) \<and> pm_read p = [] \<and> pm_written p = [] \<and> \<not> pm_eof p \<and> \<not> pm_closed p"

text \<open>
  The two watches alternate: the last filter is read only while the buffer is drained, and the
  backend is written only when there is something to send or the end of the data was seen.
\<close>

definition watches_ok :: "job \<Rightarrow> bool \<Rightarrow> bool" where
  "watches_ok job eof \<longleftrightarrow>
     (\<forall>r. valid_ref r job \<longrightarrow> r \<noteq> last_ref job \<longrightarrow> src r STDOUT_FILENO job \<noteq> Some Data_in)
     \<and> (\<forall>r. valid_ref r job \<longrightarrow> r \<noteq> Backend \<longrightarrow> src r STDIN_FILENO job \<noteq> Some Data_out)
     \<and> src Backend STDIN_FILENO job \<noteq> Some Message_in
     \<and> src (last_ref job) STDOUT_FILENO job \<noteq> Some Message_in
     \<and> (src (last_ref job) STDOUT_FILENO job = Some Data_in \<longrightarrow>
          buflen job = bufsent job \<and> chan (last_ref job) STDOUT_FILENO job = Chan_live
          \<and> src Backend STDIN_FILENO job \<noteq> Some Data_out)
     \<and> (src Backend STDIN_FILENO job = Some Data_out \<longrightarrow>
          chan Backend STDIN_FILENO job = Chan_live \<and> (buflen job = bufsent job \<longrightarrow> eof))
     \<and> (eof \<longrightarrow> src (last_ref job) STDOUT_FILENO job = None \<and> chan (last_ref job) STDOUT_FILENO job = Chan_null)"

definition pump_inv :: "pump \<Rightarrow> bool" where
  "pump_inv p \<longleftrightarrow>
     filterchain (pm_job p) \<noteq> [] \<and> bufsent (pm_job p) \<le> buflen (pm_job p) \<and> buflen (pm_job p) \<le> 1024
     \<and> length (buffer (pm_job p)) = 1024
     \<and> watches_ok (pm_job p) (pm_eof p)
     \<and> pm_read p = pm_written p @ pending (pm_job p)
     \<and> (pm_closed p \<longrightarrow> pm_eof p \<and> pending (pm_job p) = [] \<and> chan Backend STDIN_FILENO (pm_job p) = Chan_null)"

subsection \<open>Steps that move no data\<close>

definition quiet :: "job \<Rightarrow> job \<Rightarrow> bool" where
  "quiet job job' \<longleftrightarrow>
     length (filterchain job') = length (filterchain job)
     \<and> buffer job' = buffer job \<and> buflen job' = buflen job \<and> bufsent job' = bufsent job
     \<and> (\<forall>r i. valid_ref r job \<longrightarrow>
          src r i job' = src r i job \<and> chan r i job' = chan r i job
          \<or> src r i job' = None \<and> chan r i job' = Chan_null
          \<or> src r i job = Some Message_in \<and> src r i job' = Some Message_in)"

lemma valid_ref_length: "length (filterchain job') = length (filterchain job) \<Longrightarrow> valid_ref r job' = valid_ref r job"
  by (cases r) simp_all

lemma last_ref_length: "length (filterchain job') = length (filterchain job) \<Longrightarrow> last_ref job' = last_ref job"
  by (simp add: last_ref_def)

lemma valid_last_ref [simp]: "filterchain job \<noteq> [] \<Longrightarrow> valid_ref (last_ref job) job"
  by (simp add: last_ref_def)

lemma last_ref_Backend [simp]: "last_ref job \<noteq> Backend" "Backend \<noteq> last_ref job"
  by (simp_all add: last_ref_def)

lemma quiet_pending: "quiet job job' \<Longrightarrow> pending job' = pending job"
  by (simp add: quiet_def pending_def)

lemma quietD:
  assumes "quiet job job'" and "valid_ref r job"
  shows "src r i job' = src r i job \<and> chan r i job' = chan r i job
    \<or> src r i job' = None \<and> chan r i job' = Chan_null
    \<or> src r i job = Some Message_in \<and> src r i job' = Some Message_in"
  using assms by (simp add: quiet_def)

lemma quiet_watches_ok:
  assumes q: "quiet job job'" and w: "watches_ok job eof" and f: "filterchain job \<noteq> []"
  shows "watches_ok job' eof"
proof -
  from q have l: "length (filterchain job') = length (filterchain job)"
    and b: "buflen job' = buflen job" "bufsent job' = bufsent job" by (simp_all add: quiet_def)
  have Q: "src r i job' = src r i job \<and> chan r i job' = chan r i job
    \<or> src r i job' = None \<and> chan r i job' = Chan_null
    \<or> src r i job = Some Message_in \<and> src r i job' = Some Message_in" if "valid_ref r job" for r i
    using q that by (rule quietD)
  have vB: "valid_ref Backend job" by simp
  have vL: "valid_ref (last_ref job) job" using f by simp
  from w have n: "src Backend STDIN_FILENO job \<noteq> Some Message_in"
    "src (last_ref job) STDOUT_FILENO job \<noteq> Some Message_in" by (simp_all add: watches_ok_def)
  have QB: "src Backend STDIN_FILENO job' = src Backend STDIN_FILENO job
      \<and> chan Backend STDIN_FILENO job' = chan Backend STDIN_FILENO job
    \<or> src Backend STDIN_FILENO job' = None \<and> chan Backend STDIN_FILENO job' = Chan_null"
    using Q [OF vB, of STDIN_FILENO] n by blast
  have QL: "src (last_ref job) STDOUT_FILENO job' = src (last_ref job) STDOUT_FILENO job
      \<and> chan (last_ref job) STDOUT_FILENO job' = chan (last_ref job) STDOUT_FILENO job
    \<or> src (last_ref job) STDOUT_FILENO job' = None \<and> chan (last_ref job) STDOUT_FILENO job' = Chan_null"
    using Q [OF vL, of STDOUT_FILENO] n by blast
  have D: "src r i job' = Some d \<Longrightarrow> d \<noteq> Message_in \<Longrightarrow> src r i job = Some d" if "valid_ref r job" for r i d
    using Q [OF that, of i] by auto
  have A: "\<forall>r. valid_ref r job \<longrightarrow> r \<noteq> last_ref job \<longrightarrow> src r STDOUT_FILENO job' \<noteq> Some Data_in"
    using w D unfolding watches_ok_def by blast
  have B: "\<forall>r. valid_ref r job \<longrightarrow> r \<noteq> Backend \<longrightarrow> src r STDIN_FILENO job' \<noteq> Some Data_out"
    using w D unfolding watches_ok_def by blast
  show ?thesis
    unfolding watches_ok_def valid_ref_length [OF l] last_ref_length [OF l] b
    using w QB QL A B unfolding watches_ok_def by auto
qed

lemma quiet_pump_inv:
  assumes "quiet (pm_job p) job'" and "pump_inv p"
  shows "pump_inv (p\<lparr>pm_job := job'\<rparr>)"
proof -
  from assms(2) have f: "filterchain (pm_job p) \<noteq> []" and w: "watches_ok (pm_job p) (pm_eof p)"
    by (simp_all add: pump_inv_def)
  from assms(1) have "filterchain job' \<noteq> []" using f by (auto simp: quiet_def)
  moreover have "chan Backend STDIN_FILENO job' = Chan_null"
    if "chan Backend STDIN_FILENO (pm_job p) = Chan_null"
    using quietD [OF assms(1), of Backend STDIN_FILENO] that w by (auto simp: watches_ok_def)
  ultimately show ?thesis
    using assms quiet_watches_ok [OF assms(1) w f] quiet_pending [OF assms(1)]
    by (simp add: pump_inv_def) (simp add: quiet_def)
qed

lemma quiet_cancel: "quiet job (pd_job_impl_do_cancel_with_reason s reason job)"
proof -
  have "src r i (pd_job_impl_do_cancel_with_reason s reason job) = src r i job
      \<and> chan r i (pd_job_impl_do_cancel_with_reason s reason job) = chan r i job
    \<or> src r i (pd_job_impl_do_cancel_with_reason s reason job) = None
      \<and> chan r i (pd_job_impl_do_cancel_with_reason s reason job) = Chan_null" for r i
    using cancel_backend [of s reason job] by (cases r) (auto simp: close_stdin_def split: if_splits)
  then show ?thesis unfolding quiet_def by (metis cancel_frame(1-4))
qed

lemma process_watch_buffers [simp]:
  "length (filterchain (pd_job_impl_process_watch_cb r st job)) = length (filterchain job)"
  "buffer (pd_job_impl_process_watch_cb r st job) = buffer job"
  "buflen (pd_job_impl_process_watch_cb r st job) = buflen job"
  "bufsent (pd_job_impl_process_watch_cb r st job) = bufsent job"
  by (auto simp: pd_job_impl_process_watch_cb_def pd_job_impl_check_job_transforming_def Let_def job_prop_defs)

lemma quiet_exit: "valid_ref ref job \<Longrightarrow> quiet job (pd_job_impl_process_watch_cb ref st job)"
  by (auto simp: quiet_def exit_process_def close_stdin_def)

lemma message_buffers:
  "message_io_cb G r fd ls status job = (job', emitted, keep) \<Longrightarrow>
     length (filterchain job') = length (filterchain job) \<and> buffer job' = buffer job
     \<and> buflen job' = buflen job \<and> bufsent job' = bufsent job"
  by (auto simp: message_io_cb_def Let_def set_channel_def clear_source_def job_prop_defs split: line_end.splits)

lemma quiet_message:
  assumes "message_io_cb G r fd ls status job = (job', emitted, keep)" and "valid_ref r job"
    and "src r fd job = Some Message_in"
  shows "quiet job job'"
proof -
  have "src x i job' = src x i job \<and> chan x i job' = chan x i job
      \<or> src x i job' = None \<and> chan x i job' = Chan_null
      \<or> src x i job = Some Message_in \<and> src x i job' = Some Message_in" for x i
    using assms by (auto simp: message_io_cb_def Let_def set_channel_def clear_source_def
        split: line_end.splits if_splits)
  with message_buffers [OF assms(1)] show ?thesis by (simp add: quiet_def)
qed

subsection \<open>Steps that move data\<close>

lemma watch_channel_get:
  assumes "watch_channel ref fd w job = Some j" and "valid_ref ref job"
  shows "jp_channel (get_jp r j) = jp_channel (get_jp r job)"
    and "src r i j = (if r = ref \<and> i = fd \<and> chan ref fd job = Chan_live then Some w else src r i job)"
    and "filterchain j = [] \<longleftrightarrow> filterchain job = []" and "length (filterchain j) = length (filterchain job)"
    and "buffer j = buffer job" and "buflen j = buflen job" and "bufsent j = bufsent job"
  using assms by (auto simp: watch_channel_Some split: if_splits) (metis channel.exhaust)

lemma clear_source_get [simp]:
  "valid_ref ref job \<Longrightarrow> jp_channel (get_jp r (clear_source ref fd job)) = jp_channel (get_jp r job)"
  "valid_ref ref job \<Longrightarrow> src r i (clear_source ref fd job) = (if r = ref \<and> i = fd then None else src r i job)"
  "length (filterchain (clear_source ref fd job)) = length (filterchain job)"
  "buffer (clear_source ref fd job) = buffer job" "buflen (clear_source ref fd job) = buflen job"
  "bufsent (clear_source ref fd job) = bufsent job"
  by (auto simp: clear_source_def)

lemma set_channel_get [simp]:
  "valid_ref ref job \<Longrightarrow> jp_io_source (get_jp r (set_channel ref fd c job)) = jp_io_source (get_jp r job)"
  "valid_ref ref job \<Longrightarrow> chan r i (set_channel ref fd c job) = (if r = ref \<and> i = fd then c else chan r i job)"
  "length (filterchain (set_channel ref fd c job)) = length (filterchain job)"
  "buffer (set_channel ref fd c job) = buffer job" "buflen (set_channel ref fd c job) = buflen job"
  "bufsent (set_channel ref fd c job) = bufsent job"
  by (auto simp: set_channel_def)

lemma last_ref_io [simp]:
  "last_ref (clear_source ref fd job) = last_ref job" "last_ref (set_channel ref fd c job) = last_ref job"
  by (simp_all add: last_ref_def)

lemma pending_sent:
  assumes "bufsent job + n \<le> buflen job"
  shows "pending job = take n (pending job) @ pending (job\<lparr>bufsent := bufsent job + n\<rparr>)"
proof -
  have "pending job = take n (pending job) @ drop n (pending job)" by simp
  moreover have "drop n (pending job) = pending (job\<lparr>bufsent := bufsent job + n\<rparr>)"
    using assms by (simp add: pending_def drop_take add.commute)
  ultimately show ?thesis by simp
qed

lemma pending_drained [simp]: "buflen job = bufsent job \<Longrightarrow> pending job = []"
  by (simp add: pending_def)

lemma pending_eq_Nil:
  "bufsent job \<le> buflen job \<Longrightarrow> buflen job \<le> length (buffer job) \<Longrightarrow> pending job = [] \<longleftrightarrow> buflen job = bufsent job"
  by (auto simp: pending_def)

lemma pump_write_refs:
  assumes "pump_inv p" and "valid_ref r (pm_job p)" and "src r STDIN_FILENO (pm_job p) = Some Data_out"
  shows "r = Backend"
  using assms by (auto simp: pump_inv_def watches_ok_def)

lemma pump_read_refs:
  assumes "pump_inv p" and "valid_ref r (pm_job p)" and "src r STDOUT_FILENO (pm_job p) = Some Data_in"
  shows "r = last_ref (pm_job p)"
  using assms by (auto simp: pump_inv_def watches_ok_def)

text \<open>The facts the invariant gives about the two watches.\<close>

lemma pump_invD:
  assumes "pump_inv p"
  shows "filterchain (pm_job p) \<noteq> []" and "bufsent (pm_job p) \<le> buflen (pm_job p)" and "buflen (pm_job p) \<le> 1024"
    and "length (buffer (pm_job p)) = 1024" and "watches_ok (pm_job p) (pm_eof p)"
    and "pm_read p = pm_written p @ pending (pm_job p)"
    and "pm_closed p \<Longrightarrow> pm_eof p" and "pm_closed p \<Longrightarrow> chan Backend STDIN_FILENO (pm_job p) = Chan_null"
    and "pm_closed p \<Longrightarrow> pending (pm_job p) = []"
  using assms by (simp_all add: pump_inv_def)

lemma pump_inv_read:
  assumes I: "pump_inv p" and v: "valid_ref r (pm_job p)" and s: "src r STDOUT_FILENO (pm_job p) = Some Data_in"
    and ok: "read_ok outcome" and c: "data_io_cb_in r outcome (pm_job p) = Some (job', keep)"
  shows "pump_inv (p\<lparr>pm_job := job', pm_read := pm_read p @ bytes_read outcome,
           pm_eof := (pm_eof p \<or> outcome = Read_eof)\<rparr>)"
proof -
  let ?job = "pm_job p"
  note D = pump_invD [OF I]
  have r: "r = last_ref ?job" using pump_read_refs [OF I v s] .
  with D(5) s have drained: "buflen ?job = bufsent ?job" and ne: "\<not> pm_eof p"
    and nw: "src Backend STDIN_FILENO ?job \<noteq> Some Data_out" by (auto simp: watches_ok_def)
  with D(7) have nc: "\<not> pm_closed p" by blast
  show ?thesis
  proof (cases outcome)
    case (Read_normal bs)
    let ?j = "?job\<lparr>buffer := bs @ drop (length bs) (buffer ?job), buflen := length bs, bufsent := 0\<rparr>"
    from c Read_normal obtain j where j: "watch_channel Backend STDIN_FILENO Data_out ?j = Some j"
      and job': "job' = clear_source r STDOUT_FILENO j"
      by (auto simp: data_io_cb_in_def Let_def split: if_splits)
    have vj: "valid_ref Backend ?j" by simp
    note W = watch_channel_get [OF j vj]
    have l: "length (filterchain j) = length (filterchain ?job)" using W(4) by simp
    have L: "last_ref j = last_ref ?job" and V: "valid_ref x j = valid_ref x ?job" for x
      by (rule last_ref_length [OF l], rule valid_ref_length [OF l])
    have vr: "valid_ref r j" using v V by simp
    have S: "src x i job' = (if x = r \<and> i = STDOUT_FILENO then None else src x i j)"
      and C: "jp_channel (get_jp x job') = jp_channel (get_jp x j)" for x i
      using vr by (simp_all add: job')
    have V': "valid_ref x job' = valid_ref x ?job" and L': "last_ref job' = last_ref ?job" for x
      using V L by (simp_all add: job')
    have B: "buflen job' = length bs" "bufsent job' = 0" by (simp_all add: job' W(6,7))
    have "watches_ok job' (pm_eof p)"
      using D(5) ok Read_normal r ne unfolding watches_ok_def V' L' B S C W(1,2)
      by auto
    moreover have "pending job' = bs" using ok Read_normal D(4)
      by (simp add: job' pending_def W(5-7))
    ultimately show ?thesis
      using D ok Read_normal drained nc W by (simp add: pump_inv_def job' clear_source_def)
  next
    case Read_eof
    let ?j = "set_channel r STDOUT_FILENO Chan_null (clear_source r STDOUT_FILENO ?job)"
    from c Read_eof have j: "watch_channel Backend STDIN_FILENO Data_out ?j = Some job'"
      by (auto simp: data_io_cb_in_def split: if_splits)
    have vj: "valid_ref Backend ?j" by simp
    note W = watch_channel_get [OF j vj]
    have l: "length (filterchain job') = length (filterchain ?job)" using W(4) by simp
    have L: "last_ref job' = last_ref ?job" and V: "valid_ref x job' = valid_ref x ?job" for x
      by (rule last_ref_length [OF l], rule valid_ref_length [OF l])
    have S: "src x i ?j = (if x = r \<and> i = STDOUT_FILENO then None else src x i ?job)"
      and C: "chan x i ?j = (if x = r \<and> i = STDOUT_FILENO then Chan_null else chan x i ?job)" for x i
      using v by simp_all
    have B: "buflen job' = buflen ?job" "bufsent job' = bufsent ?job" by (simp_all add: W(6,7))
    have "watches_ok job' True"
      using D(5) r drained unfolding watches_ok_def V L B W(1,2) S C
      by auto
    moreover have "pending job' = []" using drained by (simp add: W(5-7))
    ultimately show ?thesis
      using D Read_eof drained nc W by (simp add: pump_inv_def) (auto simp: clear_source_def set_channel_def)
  next
    case Read_error
    let ?c = "pd_job_impl_do_cancel_with_reason PD_JOB_STATE_ABORTED ''job-aborted-by-system'' ?job"
    from c Read_error r have job': "job' = clear_source r STDOUT_FILENO (set_channel r STDOUT_FILENO Chan_freed ?c)"
      by (simp add: data_io_cb_in_def)
    have C: "watches_ok ?c (pm_eof p)" using quiet_watches_ok [OF quiet_cancel D(5,1)] .
    have V: "valid_ref x job' = valid_ref x ?c" for x by (simp add: job')
    have vc: "valid_ref r ?c" using v by simp
    have lc: "length (filterchain job') = length (filterchain ?c)" by (simp add: job')
    have S: "src x i job' = (if x = r \<and> i = STDOUT_FILENO then None else src x i ?c)"
      and H: "chan x i job' = (if x = r \<and> i = STDOUT_FILENO then Chan_freed else chan x i ?c)" for x i
      using vc by (simp_all add: job')
    have B: "buflen job' = buflen ?c" "bufsent job' = bufsent ?c" by (simp_all add: job')
    have rc: "r = last_ref ?c" using r by (simp add: last_ref_def)
    have "watches_ok job' (pm_eof p)"
      using C rc ne unfolding watches_ok_def V S H B last_ref_length [OF lc] by auto
    moreover have "pending job' = []" using drained by (simp add: job')
    ultimately show ?thesis
      using D Read_error drained nc by (simp add: pump_inv_def job') (auto simp: clear_source_def set_channel_def)
  next
    case Read_again
    with c r I show ?thesis by (cases p) (auto simp: data_io_cb_in_def)
  qed
qed

lemma pump_inv_sent:
  assumes I: "pump_inv p" and n: "bufsent (pm_job p) + n \<le> buflen (pm_job p)"
    and d: "buflen (pm_job p) \<noteq> bufsent (pm_job p)"
    and c: "data_sent Backend (last_ref (pm_job p)) n (pm_job p) = Some (job', keep)"
  shows "pump_inv (p\<lparr>pm_job := job', pm_written := pm_written p @ take n (pending (pm_job p))\<rparr>)"
proof -
  let ?job = "pm_job p"
  let ?j1 = "?job\<lparr>bufsent := bufsent ?job + n\<rparr>"
  note D = pump_invD [OF I]
  from D(9) d pending_eq_Nil [of ?job] D(2-4) have nc: "\<not> pm_closed p" by auto
  from d D(5) have nr: "src (last_ref ?job) STDOUT_FILENO ?job \<noteq> Some Data_in" by (auto simp: watches_ok_def)
  have R: "pm_read p = (pm_written p @ take n (pending ?job)) @ pending ?j1"
    using D(6) pending_sent [OF n] by simp
  have L1: "last_ref ?j1 = last_ref ?job" by (simp add: last_ref_def)
  show ?thesis
  proof (cases "buflen ?job = bufsent ?job + n")
    case True
    let ?j2 = "clear_source Backend STDIN_FILENO ?j1"
    from c True have j: "watch_channel (last_ref ?job) STDOUT_FILENO Data_in ?j2 = Some job'"
      by (auto simp: data_sent_def Let_def)
    have vj: "valid_ref (last_ref ?job) ?j2" using D(1) by simp
    note W = watch_channel_get [OF j vj]
    have l: "length (filterchain job') = length (filterchain ?job)" using W(4) by simp
    have L: "last_ref job' = last_ref ?job" and V: "valid_ref x job' = valid_ref x ?job" for x
      by (rule last_ref_length [OF l], rule valid_ref_length [OF l])
    have S: "src x i ?j2 = (if x = Backend \<and> i = STDIN_FILENO then None else src x i ?job)"
      and C: "jp_channel (get_jp x ?j2) = jp_channel (get_jp x ?job)" for x i
      by simp_all
    have "watches_ok job' (pm_eof p)"
      using D(5) nr True unfolding watches_ok_def L V W(1,2) S C
      by (auto simp: W(6,7))
    moreover have "pending job' = pending ?j1" by (simp add: pending_def W(5-7))
    ultimately show ?thesis
      using D R True nc W by (simp add: pump_inv_def) (auto simp: clear_source_def)
  next
    case False
    with c have j: "job' = ?j1" by (auto simp: data_sent_def Let_def split: if_splits)
    have V: "valid_ref x ?j1 = valid_ref x ?job" for x by simp
    have "watches_ok job' (pm_eof p)"
      using D(5) nr False unfolding watches_ok_def j L1 V by auto
    with D R n nc j show ?thesis by (simp add: pump_inv_def)
  qed
qed

lemma check_transforming_buffers:
  "buffer (snd (pd_job_impl_check_job_transforming job)) = buffer job"
  "buflen (snd (pd_job_impl_check_job_transforming job)) = buflen job"
  "bufsent (snd (pd_job_impl_check_job_transforming job)) = bufsent job"
  by (simp_all add: pd_job_impl_check_job_transforming_def job_prop_defs)

lemma wrote_ok:
  "write_ok outcome job \<Longrightarrow> outcome \<noteq> Write_error \<Longrightarrow> bufsent job + wrote outcome \<le> buflen job"
  by (cases outcome) simp_all

lemma pump_inv_write:
  assumes I: "pump_inv p" and v: "valid_ref r (pm_job p)" and s: "src r STDIN_FILENO (pm_job p) = Some Data_out"
    and ok: "write_ok outcome (pm_job p)" and c: "data_io_cb_out r outcome (pm_job p) = Some (job', keep)"
  shows "pump_inv (p\<lparr>pm_job := job', pm_written := pm_written p @ take (wrote outcome) (pending (pm_job p)),
           pm_closed := (pm_closed p \<or> buflen (pm_job p) = bufsent (pm_job p))\<rparr>)"
proof -
  let ?job = "pm_job p"
  note D = pump_invD [OF I]
  have r: "r = Backend" using pump_write_refs [OF I v s] .
  have n: "next_process r ?job = Some (last_ref ?job)"
    using D(1) r by (simp add: next_process_def last_ref_def)
  show ?thesis
  proof (cases "buflen ?job = bufsent ?job")
    case True
    let ?j = "set_channel Backend STDIN_FILENO Chan_null (clear_source Backend STDIN_FILENO ?job)"
    have q: "quiet ?job (snd (pd_job_impl_check_job_transforming ?j))"
      by (auto simp del: get_jp.simps simp: quiet_def check_transforming_buffers)
    from c n True r have j: "job' = snd (pd_job_impl_check_job_transforming ?j)"
      by (simp add: data_io_cb_out_def)
    have "pump_inv (p\<lparr>pm_job := job'\<rparr>)" using quiet_pump_inv [OF q I] j by simp
    moreover have "pm_eof p" using D(5) s r True by (simp add: watches_ok_def)
    moreover have "chan Backend STDIN_FILENO job' = Chan_null"
      unfolding j check_transforming_frame(1) by (simp del: get_jp.simps)
    moreover have "pending job' = []" using quiet_pending [OF q] True j by simp
    ultimately show ?thesis using True D(6) by (simp add: pump_inv_def)
  next
    case False
    show ?thesis
    proof (cases outcome)
      case Write_error
      with c n False have "job' = pd_job_impl_do_cancel_with_reason PD_JOB_STATE_ABORTED ''job-aborted-by-system'' ?job"
        by (simp add: data_io_cb_out_def)
      with quiet_pump_inv [OF quiet_cancel I] Write_error False show ?thesis by (cases p) simp
    next
      case (Write_eof m)
      let ?c = "pd_job_impl_do_cancel_with_reason PD_JOB_STATE_ABORTED ''job-canceled-by-system'' ?job"
      let ?p = "p\<lparr>pm_job := ?c\<rparr>"
      have I': "pump_inv ?p" by (rule quiet_pump_inv [OF quiet_cancel I])
      have "data_sent Backend (last_ref (pm_job ?p)) m (pm_job ?p) = Some (job', keep)"
        using c n False r Write_eof by (simp add: data_io_cb_out_def last_ref_def)
      from pump_inv_sent [OF I' _ _ this] ok Write_eof False quiet_pending [OF quiet_cancel]
      show ?thesis by (cases p) simp
    next
      case (Write_again m)
      have "data_sent Backend (last_ref ?job) m ?job = Some (job', keep)"
        using c n False r Write_again by (simp add: data_io_cb_out_def)
      from pump_inv_sent [OF I _ _ this] ok Write_again False show ?thesis by (cases p) simp
    next
      case (Write_normal m)
      have "data_sent Backend (last_ref ?job) m ?job = Some (job', keep)"
        using c n False r Write_normal by (simp add: data_io_cb_out_def)
      from pump_inv_sent [OF I _ _ this] ok Write_normal False show ?thesis by (cases p) simp
    qed
  qed
qed

lemma pump_inv_initial: "pump_initial p \<Longrightarrow> pump_inv p"
  by (auto simp: pump_initial_def pump_ready_def pump_inv_def watches_ok_def last_ref_def)

lemma pump_inv_step:
  assumes I: "pump_inv p" and s: "pump_step p p'"
  shows "pump_inv p'"
  using s
proof cases
  case (pump_read r outcome job' keep)
  with I show ?thesis by (simp add: pump_inv_read)
next
  case (pump_write r outcome job' keep)
  with I show ?thesis by (simp add: pump_inv_write)
next
  case (pump_message r fd G read_lines status job' emitted keep)
  with I show ?thesis by (simp add: quiet_pump_inv quiet_message)
next
  case (pump_exit r st)
  with I show ?thesis by (simp add: quiet_pump_inv quiet_exit running_refs_valid)
next
  case (pump_cancel s reason)
  with I show ?thesis by (simp add: quiet_pump_inv quiet_cancel)
qed

interpretation data_pump: invariant_system pump_step pump_initial pump_inv
  by unfold_locales (rule pump_inv_initial, assumption, rule pump_inv_step)

subsection \<open>Properties\<close>

text \<open>A job as start_sending leaves it, with one filter.\<close>

definition pump_job :: job where
  "pump_job = (pd_job_impl_init 1 ''doc'' [] ''/p'')
     \<lparr>jb_state := PD_JOB_STATE_PROCESSING, pending_job_state := PD_JOB_STATE_COMPLETED,
      filterchain := [(running_process 10)\<lparr>jp_io_source := [STDOUT_FILENO \<mapsto> Data_in],
                                           jp_channel := (\<lambda>_. Chan_null)(STDOUT_FILENO := Chan_live)\<rparr>],
      backend := (running_process 12)\<lparr>jp_channel := (\<lambda>_. Chan_null)(STDIN_FILENO := Chan_live)\<rparr>\<rparr>"

definition pump_sample :: pump where
  "pump_sample = \<lparr>pm_job = pump_job, pm_read = [], pm_written = [], pm_eof = False, pm_closed = False\<rparr>"

lemma pump_sample_initial: "pump_initial pump_sample"
proof -
  have s: "jp_io_source (running_process i) j = None" for i j
    by (simp add: running_process_def pd_job_impl_init_jp_def)
  have "src r STDIN_FILENO pump_job \<noteq> Some Data_out"
    "r \<noteq> last_ref pump_job \<Longrightarrow> src r STDOUT_FILENO pump_job \<noteq> Some Data_in" if "valid_ref r pump_job" for r
    using that by (cases r; simp add: pump_job_def s last_ref_def)+
  then show ?thesis
    by (simp add: pump_initial_def pump_ready_def pump_sample_def) (simp add: pump_job_def pd_job_impl_init_def last_ref_def s)
qed

lemma pump_sample_read:
  "\<exists>job'. pump_step pump_sample (pump_sample\<lparr>pm_job := job', pm_read := [1, 2, 3]\<rparr>)"
proof -
  have v: "valid_ref (Filter 0) (pm_job pump_sample)"
    and s: "src (Filter 0) STDOUT_FILENO (pm_job pump_sample) = Some Data_in"
    by (simp_all add: pump_sample_def pump_job_def)
  obtain job' where "data_io_cb_in (Filter 0) (Read_normal [1, 2, 3]) (pm_job pump_sample) = Some (job', False)"
    by (simp add: data_io_cb_in_def Let_def watch_channel_def pump_sample_def) (simp add: pump_job_def)
  from pump_step.pump_read [OF v s _ this] show ?thesis
    by (intro exI [of _ job']) (simp add: pump_sample_def)
qed



end
