(* ===== verification/Pd_Device.thy ===== *)
theory Pd_Device
  imports Pd_Common "HOL-Library.Sublist"
begin

text \<open>
  src/pd-device-impl.c: a detected device and the identifier that names it on the bus. The
  method CreatePrinter of a device is in theory Pd_Manager, because it calls the engine.
\<close>

text \<open>The properties ieee1284-id, uri and description of the skeleton and the cached id field.\<close>

record device =
  dev_ieee1284_id :: "string option"
  dev_uri :: string
  dev_description :: string
  dev_id :: "string option"

definition id_chars :: string where
  "id_chars = ''ABCDEFGHIJKLMNOPQRSTUVWXYZabcdefghijklmnopqrstuvwxyz1234567890_''"

text \<open>Appending with the format percent-s underscore, for a field that is present.\<close>

definition append_field :: "string option \<Rightarrow> string \<Rightarrow> string" where
  "append_field f s = (case f of None \<Rightarrow> s | Some v \<Rightarrow> s @ v @ ''_'')"

definition pd_device_impl_get_id :: "glib \<Rightarrow> device \<Rightarrow> string option \<times> device" where
  "pd_device_impl_get_id G device =
     (case dev_id device of
        Some i \<Rightarrow> (Some i, device)
      | None \<Rightarrow> (case pd_parse_ieee1284_id G (dev_ieee1284_id device) of
              None \<Rightarrow> (dev_id device, device)
            | Some ht \<Rightarrow>
                (let s = append_field (ht ''sn'') (append_field (ht ''mdl'') (append_field (ht ''mfg'') []));
                     raw = (if length s \<noteq> 0 then take (length s - 1) s else ''unknown-device'');
                     i = g_strcanon G raw id_chars CHR ''_'' in
                 (Some i, device\<lparr>dev_id := Some i\<rparr>))))"

text \<open>The specification: the fields that are present, joined by underscores.\<close>

fun join_us :: "string list \<Rightarrow> string" where
  "join_us [] = []"
| "join_us [s] = s"
| "join_us (s # t # ts) = s @ CHR ''_'' # join_us (t # ts)"

definition present_fields :: "(string \<rightharpoonup> string) \<Rightarrow> string list" where
  "present_fields ht = concat (map (\<lambda>k. case ht k of None \<Rightarrow> [] | Some v \<Rightarrow> [v]) [''mfg'', ''mdl'', ''sn''])"

lemma set_id_chars [simp]: "CHR ''_'' \<in> set id_chars"
  by (simp add: id_chars_def)

lemma take_butlast_us [simp]: "take (length s) (s @ ''_'') = s"
  by simp

lemma append_fields_eq:
  "append_field (ht ''sn'') (append_field (ht ''mdl'') (append_field (ht ''mfg'') [])) =
     (if present_fields ht = [] then [] else join_us (present_fields ht) @ ''_'')"
  by (auto simp: append_field_def present_fields_def split: option.splits)

lemma join_us_eq_Nil: "join_us ts = [] \<longleftrightarrow> ts = [] \<or> ts = [[]]"
  by (cases ts rule: join_us.cases) auto

context glib_contract
begin

lemma device_id_value:
  assumes "dev_id d = None" and "pd_parse_ieee1284_id G (dev_ieee1284_id d) = Some ht"
  shows "fst (pd_device_impl_get_id G d) =
    Some (doc_strcanon (if present_fields ht = [] then ''unknown-device'' else join_us (present_fields ht))
      id_chars CHR ''_'')"
  using assms by (simp add: pd_device_impl_get_id_def append_fields_eq Let_def strcanon)

end

lemma device_get_id_Some [simp]: "dev_id d = Some i \<Longrightarrow> pd_device_impl_get_id G d = (Some i, d)"
  by (simp add: pd_device_impl_get_id_def)

lemma device_get_id_again:
  "pd_device_impl_get_id G (snd (pd_device_impl_get_id G d)) = pd_device_impl_get_id G d"
proof (cases "dev_id d")
  case None
  then show ?thesis
    by (cases "pd_parse_ieee1284_id G (dev_ieee1284_id d)") (simp_all add: pd_device_impl_get_id_def Let_def)
qed simp

lemma device_get_id_cached:
  "pd_device_impl_get_id G d = (i, d') \<Longrightarrow> pd_device_impl_get_id G d' = (i, d')"
  using device_get_id_again [of G d] by simp

subsection \<open>Properties\<close>

text \<open>C16: The identifier of a device with a device id string is made of the characters that an
  object path allows; it is the manufacturer, model and serial fields that are present, joined
  by underscores and canonicalised, and "unknown-device" canonicalised when there is none; it
  is cached, so asking again changes nothing.\<close>

theorem device_id_spec:
  assumes "glib_contract G" and "dev_id d = None"
    and "pd_parse_ieee1284_id G (dev_ieee1284_id d) = Some ht"
  shows "\<exists>i d'. pd_device_impl_get_id G d = (Some i, d')
    \<and> i = doc_strcanon (if present_fields ht = [] then ''unknown-device'' else join_us (present_fields ht))
            id_chars CHR ''_''
    \<and> set i \<subseteq> set id_chars
    \<and> (i = [] \<longleftrightarrow> present_fields ht = [[]])
    \<and> pd_device_impl_get_id G d' = (Some i, d')"
proof -
  let ?raw = "if present_fields ht = [] then ''unknown-device'' else join_us (present_fields ht)"
  let ?c = "doc_strcanon ?raw id_chars CHR ''_''"
  obtain i d' where e: "pd_device_impl_get_id G d = (i, d')" by fastforce
  with glib_contract.device_id_value [OF assms] have i: "i = Some ?c" by simp
  have "?c = [] \<longleftrightarrow> ?raw = []" by (rule strcanon_eq_Nil)
  also have "\<dots> \<longleftrightarrow> present_fields ht = [[]]" by (auto simp: join_us_eq_Nil)
  finally have nil: "?c = [] \<longleftrightarrow> present_fields ht = [[]]" .
  have sub: "set ?c \<subseteq> set id_chars" by (rule set_strcanon) (rule set_id_chars)
  show ?thesis
    using e device_get_id_cached [OF e] nil sub unfolding i
    by (intro exI [of _ ?c] exI [of _ d'] conjI) (assumption | rule refl)+
qed

theorem device_id_spec_witness:
  "fst (pd_device_impl_get_id glib_doc
     \<lparr>dev_ieee1284_id = Some ''MFG:HP;MDL:LaserJet 4;'', dev_uri = [], dev_description = [], dev_id = None\<rparr>)
   = Some ''HP_LaserJet_4''"
proof -
  let ?d = "\<lparr>dev_ieee1284_id = Some ''MFG:HP;MDL:LaserJet 4;'', dev_uri = [], dev_description = [], dev_id = None\<rparr>"
  have p: "''MFG:HP;MDL:LaserJet 4;'' = ieee1284_print [(''MFG'', ''HP''), (''MDL'', ''LaserJet 4'')]"
    by (simp add: ieee1284_print_def)
  have "\<forall>f\<in>set [(''MFG'', ''HP''), (''MDL'', ''LaserJet 4'')]. ieee1284_field_ok f"
    by (simp add: ieee1284_field_ok_def doc_strstrip_def doc_strchomp_def is_space_def)
  note f = glib_contract.parse_print [OF glib_doc_contract this]
  have "ieee1284_fieldname glib_doc ''MFG'' = ''mfg''" by code_simp
  moreover have "ieee1284_fieldname glib_doc ''MDL'' = ''mdl''" by code_simp
  ultimately have "pd_parse_ieee1284_id glib_doc (dev_ieee1284_id ?d) =
      Some (map_of [(''mdl'', ''LaserJet 4''), (''mfg'', ''HP'')])"
    using f by (simp add: p)
  from device_id_spec [OF glib_doc_contract _ this]
  show ?thesis
    by (auto simp: present_fields_def doc_strcanon_def id_chars_def)
qed

end
