(* ===== verification/Pd_Daemon.thy ===== *)
theory Pd_Daemon
  imports Pd_Enums
begin

text \<open>
  src/pd-daemon.c: the authorization check that every privileged handler makes first. PolicyKit
  is a parameter: for an action id and the flag that allows user interaction it either fails
  with an error (no result object) or gives a result that is authorized or not. A refused
  check has already answered the D-Bus call, so the check returns its verdict together with
  the replies it sent.
\<close>

datatype polkit_answer = Polkit_error | Polkit_result bool

type_synonym polkit = "string \<Rightarrow> bool \<Rightarrow> polkit_answer"

text \<open>What the daemon of one method call looks like: on the session bus there is no authority.\<close>

record daemon_env =
  is_session :: bool
  authority :: polkit

text \<open>
  The loop over the action ids: the interaction flag is set with the last id, the error of an
  earlier check is cleared, and the first check that yields a result object ends the loop.
\<close>

fun authorization_loop :: "polkit \<Rightarrow> string \<Rightarrow> string list \<Rightarrow> polkit_answer" where
  "authorization_loop P action_id [] = P action_id True"
| "authorization_loop P action_id (next_action_id # others) =
     (case P action_id False of
        Polkit_result b \<Rightarrow> Polkit_result b
      | Polkit_error \<Rightarrow> authorization_loop P next_action_id others)"

definition pd_daemon_check_authorization_sync ::
  "daemon_env \<Rightarrow> string \<Rightarrow> string \<Rightarrow> string list \<Rightarrow> bool \<times> reply list" where
  "pd_daemon_check_authorization_sync d message first_action_id others =
     (if is_session d then (True, [])
      else (case authorization_loop (authority d) first_action_id others of
              Polkit_error \<Rightarrow> (False, [Reply_gerror])
            | Polkit_result False \<Rightarrow> (False, [Reply_error PD_ERROR_FAILED message])
            | Polkit_result True \<Rightarrow> (True, [])))"

text \<open>A handler that is refused has answered once; one that may go on has not answered yet.\<close>

lemma check_authorization_replies:
  "pd_daemon_check_authorization_sync d msg a as = (ok, rs) \<Longrightarrow> length rs = (if ok then 0 else 1)"
  by (auto simp: pd_daemon_check_authorization_sync_def split: if_splits polkit_answer.splits bool.splits)

lemma check_authorization_ok_iff [simp]:
  "fst (pd_daemon_check_authorization_sync d msg a as) \<longleftrightarrow>
     is_session d \<or> authorization_loop (authority d) a as = Polkit_result True"
  by (auto simp: pd_daemon_check_authorization_sync_def split: polkit_answer.splits bool.splits)

lemma check_authorization_ok_replies:
  "fst (pd_daemon_check_authorization_sync d msg a as) \<Longrightarrow>
     snd (pd_daemon_check_authorization_sync d msg a as) = []"
  by (auto simp: pd_daemon_check_authorization_sync_def split: if_splits polkit_answer.splits bool.splits)

subsection \<open>Properties\<close>

text \<open>C15: Off the session bus a caller is authorized exactly when the first action id whose
  check yields a result at all (the last one asked with user interaction allowed) is
  authorized; the ids after it are never asked.\<close>

theorem authorization_decided_by_first_result:
  assumes "\<not> is_session d" and "\<forall>x\<in>set pre. authority d x False = Polkit_error"
    and "authority d a (post = []) = Polkit_result b"
    and "pre @ a # post = first # others"
  shows "pd_daemon_check_authorization_sync d msg first others =
    (b, if b then [] else [Reply_error PD_ERROR_FAILED msg])"
proof -
  have "authorization_loop (authority d) first others = Polkit_result b"
    using assms(2,3,4)
  proof (induction pre arbitrary: first others)
    case Nil
    then show ?case by (cases others) auto
  next
    case (Cons x pre)
    then obtain y ys where y: "pre @ a # post = y # ys" by (cases pre) auto
    with Cons.prems(3) have o: "first = x" "others = y # ys" by simp_all
    from Cons y have "authorization_loop (authority d) y ys = Polkit_result b" by simp
    with o Cons.prems(1) show ?case by simp
  qed
  with assms(1) show ?thesis by (simp add: pd_daemon_check_authorization_sync_def split: bool.splits)
qed

theorem authorization_decided_by_first_result_witness:
  "pd_daemon_check_authorization_sync
     \<lparr>is_session = False, authority = (\<lambda>x f. Polkit_result (x = ''printer-add''))\<rparr> ''no''
     ''all-edit'' [''printer-add''] = (False, [Reply_error PD_ERROR_FAILED ''no''])"
  using authorization_decided_by_first_result
    [of "\<lparr>is_session = False, authority = (\<lambda>x f. Polkit_result (x = ''printer-add''))\<rparr>"
      "[]" "''all-edit''" "[''printer-add'']" False "''all-edit''" "[''printer-add'']" "''no''"]
  by simp

end
