(* ===== verification/Pd_Printer.thy ===== *)
theory Pd_Printer
  imports Pd_Device Pd_Daemon
begin

text \<open>
  src/pd-printer-impl.c: a print queue and the operations on it that touch no other object.
  CreateJob, the finalizer and the notification handlers, which reach jobs and the engine, are
  in the theories Pd_Engine and Pd_Manager. Locks are not modelled: an operation is one step.
\<close>

text \<open>
  The fields of PdPrinterImpl and the properties of its skeleton. Jobs are the addresses of
  job objects, in the order of the array. prn_state_reasons is NULL until it is first set.
  prn_notify_state says that notify::state is still to be emitted, prn_watched that the
  handler of the engine is connected to it.
\<close>

record printer =
  prn_name :: string
  prn_description :: string
  prn_location :: string
  prn_ieee1284_id :: "string option"
  prn_driver :: "string option"
  prn_device_uris :: "string list"
  prn_defaults :: attrs
  prn_supported :: attrs
  prn_state :: printer_state
  prn_state_reasons :: "string list option"
  prn_jobs :: "nat list"
  prn_job_outgoing :: bool
  prn_id :: "string option"
  prn_final_content_type :: "string option"
  prn_final_filter :: "string option"
  prn_notify_state :: bool
  prn_watched :: bool

text \<open>Setting a property of the skeleton emits its notify signal.\<close>

definition pd_printer_set_state :: "printer_state \<Rightarrow> printer \<Rightarrow> printer" where
  "pd_printer_set_state s p = p\<lparr>prn_state := s, prn_notify_state := True\<rparr>"

text \<open>
  g_object_new runs pd_printer_impl_init and sets the construct properties. Nothing is
  connected to notify::state yet, so the emission for the initial state has no receiver.
\<close>

definition pd_printer_impl_init ::
  "string \<Rightarrow> string \<Rightarrow> string \<Rightarrow> string option \<Rightarrow> printer" where
  "pd_printer_impl_init name description location ieee1284_id =
     \<lparr>prn_name = name, prn_description = description, prn_location = location,
      prn_ieee1284_id = ieee1284_id, prn_driver = None, prn_device_uris = [],
      prn_defaults =
        [(''media'', GV_string ''iso-a4''), (''document-format'', GV_string ''application/octet-stream'')],
      prn_supported =
        [(''media'', GV_strv [''iso-a4'', ''na-letter'']), (''document-format'', GV_strv [''application/pdf''])],
      prn_state = PD_PRINTER_STATE_IDLE, prn_state_reasons = None, prn_jobs = [],
      prn_job_outgoing = False, prn_id = None, prn_final_content_type = None,
      prn_final_filter = None, prn_notify_state = False, prn_watched = False\<rparr>"

subsection \<open>The identifier\<close>

definition pd_printer_impl_get_id :: "glib \<Rightarrow> printer \<Rightarrow> string \<times> printer" where
  "pd_printer_impl_get_id G printer =
     (case prn_id printer of
        Some i \<Rightarrow> (i, printer)
      | None \<Rightarrow> (let i = g_strcanon G (prn_name printer) id_chars CHR ''_'' in
          (i, printer\<lparr>prn_id := Some i\<rparr>)))"

definition pd_printer_impl_set_id :: "string \<Rightarrow> printer \<Rightarrow> printer" where
  "pd_printer_impl_set_id i printer = printer\<lparr>prn_id := Some i\<rparr>"

subsection \<open>The driver\<close>

text \<open>
  libcups is a parameter: opening a PPD file yields the values of its cupsFilter attributes in
  order, or nothing. A value is split into a content type, a cost and a filter; the cheapest
  one is remembered with the earlier preferred among equals.
\<close>

type_synonym ppd_open = "string \<Rightarrow> string list option"

definition best_update ::
  "string \<Rightarrow> string \<Rightarrow> int \<Rightarrow> (string \<times> string \<times> int) option \<Rightarrow> (string \<times> string \<times> int) option" where
  "best_update format filtr cost best =
     (case best of
        None \<Rightarrow> Some (format, filtr, cost)
      | Some (best_format, best_format_filter, best_cost) \<Rightarrow>
          if cost < best_cost then Some (format, filtr, cost) else best)"

fun set_driver_loop ::
  "glib \<Rightarrow> string list \<Rightarrow> (string \<times> string \<times> int) option \<Rightarrow> (string \<times> string \<times> int) option" where
  "set_driver_loop G [] best = best"
| "set_driver_loop G (cupsFilter # more_filters) best =
     (case g_strsplit_set G cupsFilter [CHR '' '', CHR 0x09] 3 of
        t0 # t1 # t2 # _ \<Rightarrow> set_driver_loop G more_filters (best_update t0 t2 (atoi t1) best)
      | _ \<Rightarrow> set_driver_loop G more_filters best)"

definition pd_printer_impl_set_driver ::
  "glib \<Rightarrow> ppd_open \<Rightarrow> string option \<Rightarrow> printer \<Rightarrow> bool \<times> printer" where
  "pd_printer_impl_set_driver G ppd_open driver printer =
     (case driver of
        None \<Rightarrow> (False, printer)
      | Some file \<Rightarrow>
          (case ppd_open file of
             None \<Rightarrow> (False, printer)
           | Some cupsFilters \<Rightarrow>
               (let best = set_driver_loop G cupsFilters None;
                    best_format = (case best of None \<Rightarrow> ''application/vnd.cups-pdf'' | Some (f, _, _) \<Rightarrow> f);
                    best_format_filter = map_option (\<lambda>(_, ff, _). ff) best in
                (True, printer\<lparr>prn_final_content_type := Some best_format,
                               prn_final_filter := best_format_filter,
                               prn_driver := Some file\<rparr>))))"

text \<open>
  The two local variables are only assigned when the field is set, so their first content,
  which is indeterminate in C, is an argument.
\<close>

definition pd_printer_impl_dup_final_content_type ::
  "string option \<Rightarrow> string option \<Rightarrow> printer \<Rightarrow> (string \<times> string) option" where
  "pd_printer_impl_dup_final_content_type uninit_type uninit_filter printer =
     (let final_content_type =
            (case prn_final_content_type printer of None \<Rightarrow> uninit_type | Some s \<Rightarrow> Some s);
          final_filter =
            (case prn_final_filter printer of None \<Rightarrow> uninit_filter | Some s \<Rightarrow> Some s) in
      (case (final_content_type, final_filter) of
         (Some t, Some f) \<Rightarrow> Some (t, f)
       | _ \<Rightarrow> None))"

subsection \<open>Attributes\<close>

definition update_attributes :: "attrs \<Rightarrow> attrs \<Rightarrow> attrs" where
  "update_attributes attributes updates =
     filter (\<lambda>kv. map_of updates (fst kv) = None) attributes @ updates"

definition pd_printer_impl_do_update_defaults :: "attrs \<Rightarrow> printer \<Rightarrow> printer" where
  "pd_printer_impl_do_update_defaults defaults printer =
     printer\<lparr>prn_defaults := update_attributes (prn_defaults printer) defaults\<rparr>"

definition pd_printer_impl_update_defaults ::
  "daemon_env \<Rightarrow> attrs \<Rightarrow> printer \<Rightarrow> printer \<times> reply list" where
  "pd_printer_impl_update_defaults d arg_defaults printer =
     (let (ok, rs) = pd_daemon_check_authorization_sync d
            ''Authentication is required to modify a printer''
            ''org.freedesktop.printerd.all-edit'' [''org.freedesktop.printerd.printer-modify''] in
      if \<not> ok then (printer, rs)
      else (pd_printer_impl_do_update_defaults arg_defaults printer, rs @ [Reply_value Unit_value]))"

text \<open>
  The list of supported values is looked up with the type of a string. When it is found, the
  iteration over a string value is outside the contract of g_variant_iter_init: None.
\<close>

definition attribute_value_is_supported :: "attrs \<Rightarrow> string \<Rightarrow> gvariant \<Rightarrow> bool option" where
  "attribute_value_is_supported supported key val =
     (case lookup_string supported key of
        None \<Rightarrow> Some True
      | Some _ \<Rightarrow> None)"

text \<open>The loop of CreateJob that collects the unsupported attributes.\<close>

fun unsupported_attributes :: "attrs \<Rightarrow> attrs \<Rightarrow> attrs option" where
  "unsupported_attributes supported [] = Some []"
| "unsupported_attributes supported ((dkey, dvalue) # rest) =
     (case attribute_value_is_supported supported dkey dvalue of
        None \<Rightarrow> None
      | Some ok \<Rightarrow> map_option (\<lambda>us. if ok then us else (dkey, dvalue) # us)
          (unsupported_attributes supported rest))"

subsection \<open>State reasons, device URIs, jobs\<close>

definition pd_printer_impl_add_state_reason :: "printer \<Rightarrow> string \<Rightarrow> printer" where
  "pd_printer_impl_add_state_reason printer reason =
     printer\<lparr>prn_state_reasons :=
       Some (add_or_remove_state_reason (prn_state_reasons printer) CHR ''+'' reason)\<rparr>"

definition pd_printer_impl_remove_state_reason :: "printer \<Rightarrow> string \<Rightarrow> printer" where
  "pd_printer_impl_remove_state_reason printer reason =
     printer\<lparr>prn_state_reasons :=
       Some (add_or_remove_state_reason (prn_state_reasons printer) CHR ''-'' reason)\<rparr>"

definition pd_printer_get_state_reasons :: "printer \<Rightarrow> string list" where
  "pd_printer_get_state_reasons printer = (case prn_state_reasons printer of None \<Rightarrow> [] | Some rs \<Rightarrow> rs)"

interpretation printer_reasons:
  state_reasons pd_printer_get_state_reasons pd_printer_impl_add_state_reason
    pd_printer_impl_remove_state_reason
  by unfold_locales
    (auto simp: pd_printer_get_state_reasons_def pd_printer_impl_add_state_reason_def
      pd_printer_impl_remove_state_reason_def add_state_reason_eq add_state_reason_null
      remove_state_reason_eq remove_state_reason_null reasons_remove_def split: option.splits)

text \<open>The first entry of the NULL-terminated list: NULL when the list is empty.\<close>

definition pd_printer_impl_get_uri :: "printer \<Rightarrow> string option" where
  "pd_printer_impl_get_uri printer =
     (case prn_device_uris printer of [] \<Rightarrow> None | u # _ \<Rightarrow> Some u)"

definition pd_printer_impl_set_device_uris ::
  "daemon_env \<Rightarrow> string list \<Rightarrow> printer \<Rightarrow> printer \<times> reply list" where
  "pd_printer_impl_set_device_uris d device_uris printer =
     (let (ok, rs) = pd_daemon_check_authorization_sync d
            ''Authentication is required to modify a printer''
            ''org.freedesktop.printerd.all-edit'' [''org.freedesktop.printerd.printer-modify''] in
      if \<not> ok then (printer, rs)
      else (printer\<lparr>prn_device_uris := device_uris\<rparr>, rs @ [Reply_value Unit_value]))"

text \<open>The loop over the job array; the states of the jobs are an argument.\<close>

fun next_job_loop :: "(nat \<Rightarrow> job_state) \<Rightarrow> nat list \<Rightarrow> nat option" where
  "next_job_loop state_of [] = None"
| "next_job_loop state_of (job # more_jobs) =
     (if state_of job = PD_JOB_STATE_PENDING then Some job else next_job_loop state_of more_jobs)"

definition pd_printer_impl_get_next_job :: "(nat \<Rightarrow> job_state) \<Rightarrow> printer \<Rightarrow> nat option" where
  "pd_printer_impl_get_next_job state_of printer = next_job_loop state_of (prn_jobs printer)"

text \<open>UpdateDriver: no authorization check, and the verdict of set_driver is ignored.\<close>

definition pd_printer_impl_handle_complete_update_driver ::
  "glib \<Rightarrow> ppd_open \<Rightarrow> attrs \<Rightarrow> printer \<Rightarrow> printer \<times> reply list" where
  "pd_printer_impl_handle_complete_update_driver G ppd_open arg_options printer =
     (case lookup_string arg_options ''driver-name'' of
        None \<Rightarrow> (printer, [Reply_error PD_ERROR_FAILED ''Internal error''])
      | Some driver \<Rightarrow>
          (snd (pd_printer_impl_set_driver G ppd_open (Some driver) printer), [Reply_value Unit_value]))"

definition pd_printer_impl_handle_update_driver ::
  "glib \<Rightarrow> ppd_open \<Rightarrow> attrs \<Rightarrow> printer \<Rightarrow> printer \<times> reply list" where
  "pd_printer_impl_handle_update_driver G ppd_open arg_options printer =
     (case lookup_string arg_options ''driver-name'' of
        None \<Rightarrow> (printer, [Reply_error PD_ERROR_UNIMPLEMENTED
          ''UpdateDriver without driver-name specified is not implemented''])
      | Some _ \<Rightarrow> pd_printer_impl_handle_complete_update_driver G ppd_open arg_options printer)"

subsection \<open>Lemmas\<close>

text \<open>The usable lines of a PPD file: content type, filter and cost.\<close>

definition ppd_filters :: "glib \<Rightarrow> string list \<Rightarrow> (string \<times> string \<times> int) list" where
  "ppd_filters G vs =
     concat (map (\<lambda>v. case g_strsplit_set G v [CHR '' '', CHR 0x09] 3 of
        t0 # t1 # t2 # _ \<Rightarrow> [(t0, t2, atoi t1)] | _ \<Rightarrow> []) vs)"

abbreviation filter_cost :: "string \<times> string \<times> int \<Rightarrow> int" where
  "filter_cost x \<equiv> snd (snd x)"

definition best_of :: "(string \<times> string \<times> int) list \<Rightarrow> (string \<times> string \<times> int) option \<Rightarrow>
    (string \<times> string \<times> int) option" where
  "best_of xs = fold (\<lambda>(f, ff, c). best_update f ff c) xs"

lemma set_driver_loop_eq: "set_driver_loop G vs best = best_of (ppd_filters G vs) best"
proof (induction vs arbitrary: best)
  case (Cons v vs)
  then show ?case
    by (auto simp: ppd_filters_def best_of_def split: list.splits)
qed (simp add: ppd_filters_def best_of_def)

lemma best_of_snoc:
  "best_of (xs @ [x]) best = best_update (fst x) (fst (snd x)) (filter_cost x) (best_of xs best)"
  by (simp add: best_of_def split: prod.splits)

lemma best_of_first_minimal:
  "xs \<noteq> [] \<Longrightarrow> \<exists>pre b post. best_of xs None = Some b \<and> xs = pre @ b # post
     \<and> (\<forall>x\<in>set pre. filter_cost b < filter_cost x) \<and> (\<forall>x\<in>set post. filter_cost b \<le> filter_cost x)"
proof (induction xs rule: rev_induct)
  case (snoc x xs)
  show ?case
  proof (cases "xs = []")
    case True
    have "best_of (xs @ [x]) None = Some x \<and> xs @ [x] = [] @ x # []"
      using True by (simp add: best_of_def best_update_def split: prod.splits)
    then show ?thesis by (metis empty_iff empty_set)
  next
    case False
    with snoc obtain pre b post where b: "best_of xs None = Some b" "xs = pre @ b # post"
      "\<forall>x\<in>set pre. filter_cost b < filter_cost x" "\<forall>x\<in>set post. filter_cost b \<le> filter_cost x" by blast
    show ?thesis
    proof (cases "filter_cost x < filter_cost b")
      case True
      with b(1) have "best_of (xs @ [x]) None = Some x"
        by (cases b) (simp add: best_of_snoc best_update_def)
      moreover from True b(2,3,4) have "\<forall>y\<in>set xs. filter_cost x < filter_cost y" by auto
      ultimately have "best_of (xs @ [x]) None = Some x \<and> xs @ [x] = xs @ x # []
          \<and> (\<forall>y\<in>set xs. filter_cost x < filter_cost y)" by simp
      then show ?thesis by (metis empty_iff empty_set)
    next
      case False
      with b(1) have "best_of (xs @ [x]) None = Some b"
        by (cases b) (simp add: best_of_snoc best_update_def)
      with False b(2,4) have "best_of (xs @ [x]) None = Some b \<and> xs @ [x] = pre @ b # (post @ [x])
          \<and> (\<forall>y\<in>set (post @ [x]). filter_cost b \<le> filter_cost y)" by auto
      with b(3) show ?thesis by blast
    qed
  qed
qed simp

lemma set_driver_opened:
  "ppd_open file = Some vs \<Longrightarrow> pd_printer_impl_set_driver G ppd_open (Some file) p =
     (True, p\<lparr>prn_final_content_type := Some (case best_of (ppd_filters G vs) None of
                  None \<Rightarrow> ''application/vnd.cups-pdf'' | Some (f, _, _) \<Rightarrow> f),
              prn_final_filter := map_option (\<lambda>(_, ff, _). ff) (best_of (ppd_filters G vs) None),
              prn_driver := Some file\<rparr>)"
  by (simp add: pd_printer_impl_set_driver_def set_driver_loop_eq Let_def)

lemma map_of_update_attributes: "map_of (update_attributes a u) = map_of a ++ map_of u"
proof
  fix k
  show "map_of (update_attributes a u) k = (map_of a ++ map_of u) k"
    by (cases "map_of u k")
      (simp_all add: update_attributes_def map_add_def
        map_of_filter_notin [where P = "\<lambda>k. map_of u k = None"] split: option.split)
qed

lemma distinct_update_attributes:
  assumes "distinct (map fst a)" and "distinct (map fst u)"
  shows "distinct (map fst (update_attributes a u))"
proof -
  have "distinct (map fst (filter (\<lambda>kv. map_of u (fst kv) = None) a))"
    using assms(1) by (rule distinct_map_filter)
  moreover have "fst kv \<notin> set (map fst u)" if "map_of u (fst kv) = None" for kv :: "string \<times> gvariant"
    using that by (simp add: map_of_eq_None_iff)
  ultimately show ?thesis
    using assms(2) by (auto simp: update_attributes_def)
qed

lemma unsupported_attributes_none:
  "\<forall>k. lookup_string sv k = None \<Longrightarrow> unsupported_attributes sv attributes = Some []"
  by (induction attributes) (auto simp: attribute_value_is_supported_def)

lemma init_supported_lookup: "lookup_string (prn_supported (pd_printer_impl_init n d l i)) k = None"
  by (simp add: lookup_string_def pd_printer_impl_init_def)

lemma next_job_loop_find: "next_job_loop st js = List.find (\<lambda>j. st j = PD_JOB_STATE_PENDING) js"
  by (induction js) auto

lemma next_job_loop_None:
  "next_job_loop st js = None \<longleftrightarrow> (\<forall>x\<in>set js. st x \<noteq> PD_JOB_STATE_PENDING)"
  by (induction js) auto

lemma get_id_canonical:
  assumes "glib_contract G" and "prn_id p = None"
  shows "pd_printer_impl_get_id G p =
    (doc_strcanon (prn_name p) id_chars CHR ''_'', p\<lparr>prn_id := Some (doc_strcanon (prn_name p) id_chars CHR ''_'')\<rparr>)"
  using assms(2) by (simp add: pd_printer_impl_get_id_def glib_contract.strcanon [OF assms(1)] Let_def)

lemma get_id_Some [simp]: "prn_id p = Some i \<Longrightarrow> pd_printer_impl_get_id G p = (i, p)"
  by (simp add: pd_printer_impl_get_id_def)

subsection \<open>Properties\<close>



text \<open>dup_final_content_type gives an answer that does not depend on indeterminate memory
  exactly when both fields of the printer are set. After set_driver has accepted a PPD file
  without a usable cupsFilter line the filter is not set, so the answer is indeterminate.\<close>

theorem dup_final_content_type_determinate:
  "((\<forall>u f v g. pd_printer_impl_dup_final_content_type u f p = pd_printer_impl_dup_final_content_type v g p)
     \<longleftrightarrow> prn_final_content_type p \<noteq> None \<and> prn_final_filter p \<noteq> None)
   \<and> (ppd_open file = Some vs \<and> ppd_filters G vs = [] \<longrightarrow>
       fst (pd_printer_impl_set_driver G ppd_open (Some file) p)
       \<and> prn_final_filter (snd (pd_printer_impl_set_driver G ppd_open (Some file) p)) = None)"
proof
  show "(\<forall>u f v g. pd_printer_impl_dup_final_content_type u f p = pd_printer_impl_dup_final_content_type v g p)
      \<longleftrightarrow> prn_final_content_type p \<noteq> None \<and> prn_final_filter p \<noteq> None" (is "?all \<longleftrightarrow> ?set")
  proof
    assume ?all
    then have "pd_printer_impl_dup_final_content_type None None p
        = pd_printer_impl_dup_final_content_type (Some []) (Some []) p" by blast
    then show ?set
      by (auto simp: pd_printer_impl_dup_final_content_type_def split: option.splits)
  qed (auto simp: pd_printer_impl_dup_final_content_type_def)
  show "ppd_open file = Some vs \<and> ppd_filters G vs = [] \<longrightarrow>
      fst (pd_printer_impl_set_driver G ppd_open (Some file) p)
      \<and> prn_final_filter (snd (pd_printer_impl_set_driver G ppd_open (Some file) p)) = None"
    by (simp add: set_driver_opened best_of_def)
qed

theorem dup_final_content_type_determinate_witness:
  "prn_final_filter (snd (pd_printer_impl_set_driver glib_doc (\<lambda>f. Some [])
     (Some ''a.ppd'') (pd_printer_impl_init ''n'' [] [] None))) = None"
  using dup_final_content_type_determinate
    [of "pd_printer_impl_init ''n'' [] [] None" "\<lambda>f. Some []" "''a.ppd''" "[]" glib_doc]
  by (simp add: ppd_filters_def)



text \<open>C19: The next job is the first pending one in the order of the queue, and there is none
  exactly when no job of the queue is pending.\<close>

theorem get_next_job_first_pending:
  "case pd_printer_impl_get_next_job st p of
     None \<Rightarrow> \<forall>j\<in>set (prn_jobs p). st j \<noteq> PD_JOB_STATE_PENDING
   | Some j \<Rightarrow> st j = PD_JOB_STATE_PENDING \<and> (\<exists>pre post. prn_jobs p = pre @ j # post
        \<and> (\<forall>x\<in>set pre. st x \<noteq> PD_JOB_STATE_PENDING))"
proof (cases "pd_printer_impl_get_next_job st p")
  case None
  then have "\<forall>j\<in>set (prn_jobs p). st j \<noteq> PD_JOB_STATE_PENDING"
    by (simp add: pd_printer_impl_get_next_job_def next_job_loop_None)
  with None show ?thesis by simp
next
  case (Some j)
  then have "List.find (\<lambda>j. st j = PD_JOB_STATE_PENDING) (prn_jobs p) = Some j"
    by (simp add: pd_printer_impl_get_next_job_def next_job_loop_find)
  from find_Some_split [OF this] Some show ?thesis by auto
qed

theorem get_next_job_first_pending_witness:
  "pd_printer_impl_get_next_job (\<lambda>j. if j = 0 then PD_JOB_STATE_CANCELED else PD_JOB_STATE_PENDING)
     ((pd_printer_impl_init ''n'' [] [] None)\<lparr>prn_jobs := [0, 1, 2]\<rparr>) = Some 1"
  using get_next_job_first_pending
    [of "(pd_printer_impl_init ''n'' [] [] None)\<lparr>prn_jobs := [0, 1, 2]\<rparr>"
      "\<lambda>j. if j = 0 then PD_JOB_STATE_CANCELED else PD_JOB_STATE_PENDING"]
  by (auto simp: pd_printer_impl_get_next_job_def)

text \<open>With the supported values every printer is initialised with, which are lists, no
  attribute is ever found unsupported, whatever its key and value: the lookup asks for a string
  and finds nothing.\<close>

theorem nothing_is_unsupported:
  "prn_supported p = prn_supported (pd_printer_impl_init n d l i) \<Longrightarrow>
     attribute_value_is_supported (prn_supported p) key val = Some True
     \<and> unsupported_attributes (prn_supported p) attributes = Some []"
  by (simp add: attribute_value_is_supported_def init_supported_lookup unsupported_attributes_none)

theorem nothing_is_unsupported_witness:
  "unsupported_attributes (prn_supported (pd_printer_impl_init ''n'' [] [] None))
     [(''media'', GV_string ''iso-a0'')] = Some []"
  using nothing_is_unsupported [of "pd_printer_impl_init ''n'' [] [] None" "''n''" "[]" "[]" None] by blast

text \<open>UpdateDriver answers exactly once; with a driver name it reports success whether or
  not the PPD file could be opened, and in the latter case nothing has changed.\<close>

theorem update_driver_ignores_failure:
  "\<exists>p' r. pd_printer_impl_handle_update_driver G ppd_open options p = (p', [r])
    \<and> (r = Reply_value Unit_value \<longleftrightarrow> lookup_string options ''driver-name'' \<noteq> None)
    \<and> (\<forall>file. lookup_string options ''driver-name'' = Some file \<and> ppd_open file = None \<longrightarrow> p' = p)"
  by (auto simp: pd_printer_impl_handle_update_driver_def pd_printer_impl_set_driver_def
      pd_printer_impl_handle_complete_update_driver_def split: option.splits)

theorem update_driver_ignores_failure_witness:
  "\<exists>r. pd_printer_impl_handle_update_driver glib_doc (\<lambda>_. None)
      [(''driver-name'', GV_string ''missing.ppd'')] (pd_printer_impl_init ''n'' [] [] None)
    = (pd_printer_impl_init ''n'' [] [] None, [r]) \<and> r = Reply_value Unit_value"
  using update_driver_ignores_failure
    [of glib_doc "\<lambda>_. None" "[(''driver-name'', GV_string ''missing.ppd'')]" "pd_printer_impl_init ''n'' [] [] None"]
  by (auto simp: lookup_string_def)

end
