(* ===== verification/Pd_Job_Spawn.thy ===== *)
theory Pd_Job_Spawn
  imports Pd_Job_Pump Pd_Printer
begin

text \<open>
  src/pd-job-impl.c, part three: the start of the filter chain and of the backend. The system
  is a parameter: the record os_env says, for each call the code makes, whether it succeeds
  and with which descriptors or process id. Each stage of pd_job_impl_start_processing is a
  definition that yields the job, on the left when the code jumps to fail (or to fail_setup,
  which frees a process record first) and on the right when it goes on.
\<close>

datatype pipe_use = Pipe_for jp_ref nat | Pipe_back | Pipe_after nat

record os_env =
  os_open :: "string option \<Rightarrow> int"
  os_pipe :: "pipe_use \<Rightarrow> (int \<times> int) option"
  os_socketpair :: "(int \<times> int) option"
  os_spawn :: "jp_ref \<Rightarrow> int option"
  os_uninit_type :: "string option"
  os_uninit_filter :: "string option"

type_synonym stage = "job + job"

fun stage_bind :: "stage \<Rightarrow> (job \<Rightarrow> stage) \<Rightarrow> stage" where
  "stage_bind (Inl job) f = Inl job"
| "stage_bind (Inr job) f = f job"

fun stage_all :: "('a \<Rightarrow> job \<Rightarrow> stage) \<Rightarrow> 'a list \<Rightarrow> job \<Rightarrow> stage" where
  "stage_all f [] job = Inr job"
| "stage_all f (x # xs) job = stage_bind (f x job) (stage_all f xs)"

subsection \<open>Pipes\<close>

text \<open>A pipe is a pair of the descriptor to read from and the one to write to.\<close>

definition pd_job_impl_create_pipe_for :: "os_env \<Rightarrow> jp_ref \<Rightarrow> nat \<Rightarrow> bool \<Rightarrow> job \<Rightarrow> job option" where
  "pd_job_impl_create_pipe_for env ref fd out job =
     (case os_pipe env (Pipe_for ref fd) of
        None \<Rightarrow> None
      | Some (p0, p1) \<Rightarrow>
          Some (map_jp ref (\<lambda>jp. jp\<lparr>jp_child_fd := (jp_child_fd jp)(fd := if out then p1 else p0),
                                     jp_parent_fd := (jp_parent_fd jp)(fd := if out then p0 else p1)\<rparr>) job))"

definition set_child_fd :: "jp_ref \<Rightarrow> nat \<Rightarrow> int \<Rightarrow> job \<Rightarrow> job" where
  "set_child_fd ref i fd job = map_jp ref (\<lambda>jp. jp\<lparr>jp_child_fd := (jp_child_fd jp)(i := fd)\<rparr>) job"

definition sys_close :: "int \<Rightarrow> job \<Rightarrow> job" where
  "sys_close fd job = job\<lparr>jb_syscalls := jb_syscalls job @ [Sys_close fd]\<rparr>"

text \<open>The label fail_setup: the process record at hand is freed, though it may be in the chain.\<close>

definition fail_setup :: "jp_ref option \<Rightarrow> int \<Rightarrow> job \<Rightarrow> stage" where
  "fail_setup ref fd job =
     Inl (sys_close fd (case ref of None \<Rightarrow> job | Some r \<Rightarrow> map_jp r (\<lambda>jp. jp\<lparr>jp_freed := True\<rparr>) job))"

definition setup_pipe_for :: "os_env \<Rightarrow> int \<Rightarrow> jp_ref \<Rightarrow> jp_ref \<Rightarrow> nat \<Rightarrow> bool \<Rightarrow> job \<Rightarrow> stage" where
  "setup_pipe_for env doc_fd jp ref fd out job =
     (case pd_job_impl_create_pipe_for env ref fd out job of
        None \<Rightarrow> fail_setup (Some jp) doc_fd job
      | Some job' \<Rightarrow> Inr job')"

subsection \<open>Running a process\<close>

text \<open>The value of an attribute: the first entry with the key.\<close>

fun get_attribute_value :: "attrs \<Rightarrow> string \<Rightarrow> gvariant option" where
  "get_attribute_value [] key = None"
| "get_attribute_value ((dkey, dvalue) # rest) key =
     (if dkey = key then Some dvalue else get_attribute_value rest key)"

text \<open>g_variant_get_string yields NULL for a variant that is no string.\<close>

definition variant_string :: "gvariant \<Rightarrow> string option" where
  "variant_string v = (case v of GV_string s \<Rightarrow> Some s | _ \<Rightarrow> None)"

definition originating_user :: "job \<Rightarrow> string option" where
  "originating_user job =
     Option.bind (get_attribute_value (jb_attributes job) ''job-originating-user-name'') variant_string"

text \<open>The percent-s conversion of a NULL pointer.\<close>

definition fmt_s :: "string option \<Rightarrow> string" where
  "fmt_s s = (case s of None \<Rightarrow> ''(null)'' | Some t \<Rightarrow> t)"

text \<open>The entries of a NULL-terminated vector.\<close>

fun vector :: "string option list \<Rightarrow> string list" where
  "vector (Some s # rest) = s # vector rest"
| "vector _ = []"

definition option_value :: "glib \<Rightarrow> gvariant \<Rightarrow> string" where
  "option_value G v = (case v of GV_string s \<Rightarrow> s | _ \<Rightarrow> g_variant_print G v)"

fun options_string :: "glib \<Rightarrow> string option \<Rightarrow> attrs \<Rightarrow> string option" where
  "options_string G options [] = options"
| "options_string G options ((dkey, dvalue) # rest) =
     (let opt = dkey @ ''='' @ option_value G dvalue in
      options_string G (Some (case options of None \<Rightarrow> opt | Some s \<Rightarrow> s @ '' '' @ opt)) rest)"

definition run_process_argv :: "glib \<Rightarrow> job \<Rightarrow> pd_job_process \<Rightarrow> string list" where
  "run_process_argv G job jp =
     (let username = (case get_attribute_value (jb_attributes job) ''job-originating-user-name'' of
            Some v \<Rightarrow> variant_string v | None \<Rightarrow> Some ''unknown'');
          options = (case options_string G None (jb_attributes job) of None \<Rightarrow> [] | Some s \<Rightarrow> s) in
      vector [jp_cmd jp, jb_device_uri job, Some (fmt_u (unat (jb_id job))), username, Some (jb_name job),
              Some ''1'', Some options])"

definition run_process_envp :: "job \<Rightarrow> string option \<Rightarrow> string list" where
  "run_process_envp job ppd = [''DEVICE_URI='' @ fmt_s (jb_device_uri job), ''PPD='' @ fmt_s ppd]"

definition run_cupsfilter_argv :: "string \<Rightarrow> pd_job_process \<Rightarrow> string list" where
  "run_cupsfilter_argv driver jp =
     vector [Some ''/usr/sbin/cupsfilter'', Some ''-p'', Some driver, Some ''-i'',
             Some ''application/vnd.cups-pdf'', Some ''-m'', jp_final_content_type jp]"

text \<open>
  The arguments of the process, or None when run_cupsfilter gives up because the job has no
  printer or the printer no driver.
\<close>

definition process_argv :: "glib \<Rightarrow> printer option \<Rightarrow> job \<Rightarrow> pd_job_process \<Rightarrow> string list option" where
  "process_argv G printer job jp =
     (if jp_type jp = FILTERCHAIN_CUPSFILTER
      then (case Option.bind printer prn_driver of
              None \<Rightarrow> None
            | Some driver \<Rightarrow> Some (run_cupsfilter_argv driver jp))
      else Some (run_process_argv G job jp))"

definition started_process :: "int \<Rightarrow> pd_job_process \<Rightarrow> pd_job_process" where
  "started_process pid jp =
     jp\<lparr>jp_pid := pid, jp_started := True,
        jp_channel := (\<lambda>i. if i < PD_FD_MAX \<and> jp_parent_fd jp i \<noteq> -1 then Chan_live else jp_channel jp i)\<rparr>"

definition pd_job_impl_run_process ::
  "glib \<Rightarrow> os_env \<Rightarrow> printer option \<Rightarrow> string option \<Rightarrow> jp_ref \<Rightarrow> job \<Rightarrow> stage" where
  "pd_job_impl_run_process G env printer ppd ref job =
     (let jp = get_jp ref job in
      case process_argv G printer job jp of
        None \<Rightarrow> Inl job
      | Some argv \<Rightarrow>
          (case os_spawn env ref of
             None \<Rightarrow> Inl job
           | Some pid \<Rightarrow>
               (let job1 = map_jp ref (started_process pid) job in
                Inr (job1\<lparr>jb_syscalls := jb_syscalls job @ [Sys_spawn argv (run_process_envp job ppd)]
                      @ concat (map (\<lambda>i. close_fd (jp_child_fd jp i)) [0..<Suc STDERR_FILENO])\<rparr>))))"

subsection \<open>pd_job_impl_start_processing\<close>

text \<open>The backend and the three kinds of filters.\<close>

definition setup_backend :: "string option \<Rightarrow> pd_job_process \<Rightarrow> pd_job_process" where
  "setup_backend scheme jp =
     (if scheme = Some ''file''
      then jp\<lparr>jp_cmd := Some ''(file output)'', jp_type := FILTERCHAIN_FILE_OUTPUT, jp_what := Some ''backend''\<rparr>
      else jp\<lparr>jp_cmd := Some (''/usr/lib/cups/backend/'' @ fmt_s scheme), jp_type := FILTERCHAIN_CMD,
              jp_what := Some ''backend''\<rparr>)"

definition arranger :: pd_job_process where
  "arranger = pd_job_impl_init_jp\<lparr>jp_type := FILTERCHAIN_CMD, jp_cmd := Some ''/usr/lib/cups/filter/pdftopdf'',
                                  jp_what := Some ''arranger''\<rparr>"

definition transformer :: "string \<Rightarrow> pd_job_process" where
  "transformer content_type =
     pd_job_impl_init_jp\<lparr>jp_type := FILTERCHAIN_CUPSFILTER, jp_cmd := Some ''(cupsfilter)'',
                         jp_what := Some ''transformer'', jp_final_content_type := Some content_type\<rparr>"

definition final_filter_process :: "string \<Rightarrow> pd_job_process" where
  "final_filter_process final_filter =
     pd_job_impl_init_jp\<lparr>jp_type := FILTERCHAIN_CMD, jp_cmd := Some (''/usr/lib/cups/filter/'' @ final_filter),
                         jp_what := Some ''final-filter''\<rparr>"

text \<open>
  The filter chain of a printer: the arranger, with a driver the transformer, and the final
  filter unless it is "-". When the content type cannot be told the transformer, not yet in
  the chain, is freed.
\<close>

definition setup_chain :: "os_env \<Rightarrow> printer \<Rightarrow> int \<Rightarrow> job \<Rightarrow> stage" where
  "setup_chain env printer doc_fd job =
     (let job1 = job\<lparr>filterchain := filterchain job @ [arranger]\<rparr> in
      if prn_driver printer \<noteq> None \<and> prn_driver printer \<noteq> Some []
      then (case pd_printer_impl_dup_final_content_type (os_uninit_type env) (os_uninit_filter env) printer of
              None \<Rightarrow> fail_setup None doc_fd job1
            | Some (content_type, final_filter) \<Rightarrow>
                (let job2 = job1\<lparr>filterchain := filterchain job1 @ [transformer content_type]\<rparr> in
                 Inr (if final_filter \<noteq> ''-''
                      then job2\<lparr>filterchain := filterchain job2 @ [final_filter_process final_filter]\<rparr>
                      else job2)))
      else Inr job1)"

definition chain_refs :: "job \<Rightarrow> jp_ref list" where
  "chain_refs job = map Filter [0..<length (filterchain job)]"

text \<open>The three pipes of the backend; jp is still the filter appended last.\<close>

definition setup_backend_pipes :: "os_env \<Rightarrow> int \<Rightarrow> job \<Rightarrow> stage" where
  "setup_backend_pipes env doc_fd job =
     stage_all (\<lambda>(fd, out). setup_pipe_for env doc_fd (last_ref job) Backend fd out)
       [(STDIN_FILENO, False), (STDOUT_FILENO, True), (STDERR_FILENO, True)] job"

definition setup_back_channel :: "os_env \<Rightarrow> job \<Rightarrow> stage" where
  "setup_back_channel env job =
     (case os_pipe env Pipe_back of
        None \<Rightarrow> Inl job
      | Some (p0, p1) \<Rightarrow>
          (let job1 = set_child_fd Backend PD_FD_BACK p1 (job\<lparr>fd_back := (\<lambda>i. if i = 0 then p0 else p1)\<rparr>) in
           Inr (fold (\<lambda>ref. set_child_fd ref PD_FD_BACK p0) (chain_refs job1) job1)))"

definition setup_side_channel :: "os_env \<Rightarrow> job \<Rightarrow> stage" where
  "setup_side_channel env job =
     (case os_socketpair env of
        None \<Rightarrow> Inl job
      | Some (s0, s1) \<Rightarrow>
          (let job1 = set_child_fd Backend PD_FD_SIDE s1 (job\<lparr>fd_side := (\<lambda>i. if i = 0 then s0 else s1)\<rparr>) in
           Inr (fold (\<lambda>ref. set_child_fd ref PD_FD_SIDE s0) (chain_refs job1) job1)))"

definition setup_stderr_pipes :: "os_env \<Rightarrow> int \<Rightarrow> job \<Rightarrow> stage" where
  "setup_stderr_pipes env doc_fd job =
     stage_all (\<lambda>ref. setup_pipe_for env doc_fd ref ref STDERR_FILENO True) (chain_refs job) job"

definition pipe_between :: "os_env \<Rightarrow> int \<Rightarrow> nat \<Rightarrow> job \<Rightarrow> stage" where
  "pipe_between env doc_fd k job =
     (case os_pipe env (Pipe_after k) of
        None \<Rightarrow> fail_setup (Some (Filter k)) doc_fd job
      | Some (p0, p1) \<Rightarrow>
          Inr (set_child_fd (Filter (Suc k)) STDIN_FILENO p0 (set_child_fd (Filter k) STDOUT_FILENO p1 job)))"

definition setup_filter_pipes :: "os_env \<Rightarrow> int \<Rightarrow> job \<Rightarrow> stage" where
  "setup_filter_pipes env doc_fd job = stage_all (pipe_between env doc_fd) [0..<length (filterchain job) - 1] job"

definition setup_ends :: "os_env \<Rightarrow> int \<Rightarrow> job \<Rightarrow> stage" where
  "setup_ends env doc_fd job =
     (let job1 = set_child_fd (Filter 0) STDIN_FILENO doc_fd job in
      setup_pipe_for env doc_fd (last_ref job1) (last_ref job1) STDOUT_FILENO True job1)"

definition run_chain :: "glib \<Rightarrow> os_env \<Rightarrow> printer option \<Rightarrow> job \<Rightarrow> stage" where
  "run_chain G env printer job =
     (let job1 = pd_job_impl_add_state_reason (job\<lparr>pending_job_state := PD_JOB_STATE_PROCESSING\<rparr>) ''job-transforming'' in
      stage_all (pd_job_impl_run_process G env printer (Option.bind printer prn_driver)) (chain_refs job1) job1)"

definition add_watch :: "nat \<Rightarrow> io_watch \<Rightarrow> jp_ref \<Rightarrow> job \<Rightarrow> job" where
  "add_watch i w ref job = map_jp ref (\<lambda>jp. jp\<lparr>jp_io_source := (jp_io_source jp)(i := Some w)\<rparr>) job"

definition watch_exit :: "jp_ref \<Rightarrow> job \<Rightarrow> job" where
  "watch_exit ref job = map_jp ref (\<lambda>jp. jp\<lparr>jp_process_watch := True\<rparr>) job"

definition watch_chain :: "job \<Rightarrow> stage" where
  "watch_chain job =
     (let job1 = sys_close (fd_side job 0) (sys_close (fd_back job STDIN_FILENO) job);
          job2 = job1\<lparr>fd_back := (fd_back job1)(STDIN_FILENO := -1), fd_side := (fd_side job1)(0 := -1)\<rparr> in
      Inr (fold watch_exit (chain_refs job2) (fold (add_watch STDERR_FILENO Message_in) (chain_refs job2) job2)))"

definition pipeline :: "glib \<Rightarrow> os_env \<Rightarrow> printer \<Rightarrow> int \<Rightarrow> job \<Rightarrow> stage" where
  "pipeline G env printer doc_fd job =
     stage_bind (setup_chain env printer doc_fd job) (\<lambda>job.
     stage_bind (setup_backend_pipes env doc_fd job) (\<lambda>job.
     stage_bind (setup_back_channel env job) (\<lambda>job.
     stage_bind (setup_side_channel env job) (\<lambda>job.
     stage_bind (setup_stderr_pipes env doc_fd job) (\<lambda>job.
     stage_bind (setup_filter_pipes env doc_fd job) (\<lambda>job.
     stage_bind (setup_ends env doc_fd job) (\<lambda>job.
     stage_bind (run_chain G env (Some printer) job) watch_chain)))))))"

fun stage_result :: "stage \<Rightarrow> job" where
  "stage_result (Inl job) = pd_job_set_state PD_JOB_STATE_ABORTED job"
| "stage_result (Inr job) = job"

definition pd_job_impl_start_processing :: "glib \<Rightarrow> os_env \<Rightarrow> printer option \<Rightarrow> job \<Rightarrow> job" where
  "pd_job_impl_start_processing G env printer job =
     (if filterchain job \<noteq> [] then job
      else stage_result
        (case printer of
           None \<Rightarrow> Inl job
         | Some prn \<Rightarrow>
             (let uri = pd_printer_impl_get_uri prn;
                  job1 = job\<lparr>jb_device_uri := uri\<rparr>;
                  scheme = Option.bind uri (g_uri_parse_scheme G);
                  doc_fd = os_open env (document_filename job1) in
              if doc_fd = -1 then Inl job1
              else pipeline G env prn doc_fd (job1\<lparr>backend := setup_backend scheme (backend job1)\<rparr>))))"

subsection \<open>pd_job_impl_start_sending\<close>

definition watch_backend :: "job \<Rightarrow> job" where
  "watch_backend job =
     (let job1 = sys_close (fd_side job 1) (sys_close (fd_back job STDOUT_FILENO) job);
          job2 = job1\<lparr>fd_back := (fd_back job1)(STDOUT_FILENO := -1), fd_side := (fd_side job1)(1 := -1)\<rparr>;
          job3 = clear_source Backend STDIN_FILENO job2;
          job4 = add_watch STDERR_FILENO Message_in Backend (add_watch STDOUT_FILENO Message_in Backend job3) in
      add_watch STDOUT_FILENO Data_in (last_ref job4) (watch_exit Backend job4))"

definition pd_job_impl_start_sending :: "glib \<Rightarrow> os_env \<Rightarrow> printer option \<Rightarrow> job \<Rightarrow> job" where
  "pd_job_impl_start_sending G env printer job =
     (let job1 = pd_job_impl_add_state_reason job ''job-outgoing'';
          job2 = (if filterchain job1 = [] then pd_job_impl_start_processing G env printer job1 else job1) in
      if filterchain job1 = [] \<and> jb_state job2 = PD_JOB_STATE_ABORTED then job2
      else stage_result
        (stage_bind (pd_job_impl_run_process G env printer (Option.bind printer prn_driver) Backend
                       (job2\<lparr>pending_job_state := PD_JOB_STATE_COMPLETED\<rparr>))
          (\<lambda>job. Inr (watch_backend job))))"

subsection \<open>Stages that keep a predicate\<close>

fun stage_ok :: "(job \<Rightarrow> bool) \<Rightarrow> stage \<Rightarrow> bool" where
  "stage_ok P (Inl job) \<longleftrightarrow> P job"
| "stage_ok P (Inr job) \<longleftrightarrow> P job"

lemma stage_ok_bind: "stage_ok P s \<Longrightarrow> (\<And>j. P j \<Longrightarrow> stage_ok P (f j)) \<Longrightarrow> stage_ok P (stage_bind s f)"
  by (cases s) simp_all

lemma stage_ok_all:
  assumes "P job" and "\<And>x j. x \<in> set xs \<Longrightarrow> P j \<Longrightarrow> stage_ok P (f x j)"
  shows "stage_ok P (stage_all f xs job)"
  using assms
proof (induction xs arbitrary: job)
  case (Cons x xs)
  have "stage_ok P (f x job)" using Cons.prems by simp
  then show ?case using Cons by (auto intro!: stage_ok_bind)
qed simp

lemma stage_all_append: "stage_all f (xs @ ys) job = stage_bind (stage_all f xs job) (stage_all f ys)"
proof (induction xs arbitrary: job)
  case (Cons x xs)
  then show ?case by (cases "f x job") simp_all
qed simp

lemma bind_Inr: "stage_bind s f = Inr j \<Longrightarrow> \<exists>k. s = Inr k \<and> f k = Inr j"
  by (cases s) simp_all

text \<open>The predicate every stage keeps while the backend has not been started.\<close>

definition setting_up :: "nat \<Rightarrow> job_state \<Rightarrow> string list \<Rightarrow> job \<Rightarrow> bool" where
  "setting_up n s rs job \<longleftrightarrow> job_inv job \<and> \<not> jp_started (backend job) \<and> length (filterchain job) = n
     \<and> (\<forall>r. valid_ref r job \<longrightarrow> \<not> jp_finished (get_jp r job)) \<and> jb_state job = s
     \<and> jb_state_reasons job = rs \<and> buflen job = bufsent job"

lemma setting_up_map_jp:
  assumes "setting_up n s rs job" and "valid_ref r job"
    and "\<And>jp. jp_finished (f jp) = jp_finished jp" and "process_ok (f (get_jp r job))"
    and "r = Backend \<Longrightarrow> \<not> jp_started (f (get_jp r job))"
  shows "setting_up n s rs (map_jp r f job)"
proof -
  have "\<not> jp_started (backend (map_jp r f job))"
    using assms(1,5) by (cases r) (simp_all add: setting_up_def map_jp.simps)
  with assms show ?thesis
    by (auto simp: setting_up_def job_inv_iff)
qed

lemma setting_up_valid: "setting_up n s rs job \<Longrightarrow> valid_ref r job \<longleftrightarrow> r = Backend \<or> (\<exists>k<n. r = Filter k)"
  by (cases r) (auto simp: setting_up_def)

lemma setting_up_log [simp]:
  "setting_up n s rs (job\<lparr>jb_syscalls := cs\<rparr>) = setting_up n s rs job"
  "setting_up n s rs (job\<lparr>fd_back := b\<rparr>) = setting_up n s rs job"
  "setting_up n s rs (job\<lparr>fd_side := b\<rparr>) = setting_up n s rs job"
proof -
  have g: "get_jp r (job\<lparr>jb_syscalls := cs\<rparr>) = get_jp r job" "get_jp r (job\<lparr>fd_back := b\<rparr>) = get_jp r job"
    "get_jp r (job\<lparr>fd_side := b\<rparr>) = get_jp r job" "valid_ref r (job\<lparr>jb_syscalls := cs\<rparr>) = valid_ref r job"
    "valid_ref r (job\<lparr>fd_back := b\<rparr>) = valid_ref r job" "valid_ref r (job\<lparr>fd_side := b\<rparr>) = valid_ref r job" for r
    by (cases r; simp)+
  show "setting_up n s rs (job\<lparr>jb_syscalls := cs\<rparr>) = setting_up n s rs job"
    "setting_up n s rs (job\<lparr>fd_back := b\<rparr>) = setting_up n s rs job"
    "setting_up n s rs (job\<lparr>fd_side := b\<rparr>) = setting_up n s rs job"
    unfolding setting_up_def g by (simp_all add: job_inv_def)
qed

lemma setting_up_io:
  assumes "setting_up n s rs job" and "valid_ref r job"
    and "only_io f" and "\<And>jp. jp_finished (f jp) = jp_finished jp"
  shows "setting_up n s rs (map_jp r f job)"
  using assms setting_up_map_jp [OF assms(1,2,4)]
  by (auto simp: only_io_def setting_up_def job_inv_process_ok)

lemma only_io_fds [simp]:
  "only_io (\<lambda>jp. jp\<lparr>jp_child_fd := g jp\<rparr>)" "only_io (\<lambda>jp. jp\<lparr>jp_child_fd := g jp, jp_parent_fd := h jp\<rparr>)"
  "only_io (\<lambda>jp. jp\<lparr>jp_freed := b\<rparr>)"
  by (simp_all add: only_io_def running_def process_ok_def)

lemma setting_up_child_fd: "setting_up n s rs job \<Longrightarrow> valid_ref r job \<Longrightarrow> setting_up n s rs (set_child_fd r i fd job)"
  by (simp add: set_child_fd_def setting_up_io)

lemma setting_up_fail:
  "setting_up n s rs job \<Longrightarrow> (case r of None \<Rightarrow> True | Some x \<Rightarrow> valid_ref x job) \<Longrightarrow> stage_ok (setting_up n s rs) (fail_setup r fd job)"
  by (auto simp: fail_setup_def sys_close_def setting_up_io split: option.splits)

lemma setting_up_pipe_for:
  "setting_up n s rs job \<Longrightarrow> valid_ref jp job \<Longrightarrow> valid_ref r job \<Longrightarrow>
     stage_ok (setting_up n s rs) (setup_pipe_for env d jp r fd out job)"
  by (auto simp: setup_pipe_for_def pd_job_impl_create_pipe_for_def setting_up_io
      intro!: setting_up_fail split: option.splits)

lemma setting_up_fold:
  assumes "setting_up n s rs job" and "\<forall>r\<in>set refs. valid_ref r job"
    and "\<And>r j. setting_up n s rs j \<Longrightarrow> valid_ref r j \<Longrightarrow> setting_up n s rs (f r j)"
  shows "setting_up n s rs (fold f refs job)"
  using assms(1,2)
proof (induction refs arbitrary: job)
  case (Cons r refs)
  then show ?case using assms(3) by (auto simp: setting_up_valid)
qed simp

lemma chain_refs_valid: "r \<in> set (chain_refs job) \<Longrightarrow> valid_ref r job"
  by (auto simp: chain_refs_def)

lemma chain_refs_up: "setting_up n s rs job \<Longrightarrow> chain_refs job = map Filter [0..<n]"
  by (simp add: chain_refs_def setting_up_def)

lemma setting_up_length: "setting_up n s rs job \<Longrightarrow> length (filterchain job) = n"
  by (simp add: setting_up_def)

lemma setting_up_refs: "setting_up n s rs job \<Longrightarrow> r \<in> set (map Filter [0..<n]) \<Longrightarrow> valid_ref r job"
  by (auto simp: setting_up_valid)

lemma setting_up_last: "setting_up n s rs job \<Longrightarrow> 0 < n \<Longrightarrow> valid_ref (last_ref job) job"
  by (auto simp: setting_up_def)

lemma setting_up_last_eq: "setting_up n s rs job \<Longrightarrow> last_ref job = Filter (n - 1)"
  by (simp add: setting_up_def last_ref_def)

lemma setting_up_backend_pipes:
  assumes "setting_up n s rs job" and "0 < n"
  shows "stage_ok (setting_up n s rs) (setup_backend_pipes env d job)"
  unfolding setup_backend_pipes_def
proof (rule stage_ok_all)
  fix x j assume j: "setting_up n s rs j"
  then have "valid_ref (last_ref job) j"
    using assms(2) by (simp add: setting_up_last_eq [OF assms(1)] setting_up_length)
  then show "stage_ok (setting_up n s rs) ((\<lambda>(fd, out). setup_pipe_for env d (last_ref job) Backend fd out) x j)"
    using j by (cases x) (simp add: setting_up_pipe_for)
qed (rule assms)

lemma setting_up_back_channel:
  "setting_up n s rs job \<Longrightarrow> stage_ok (setting_up n s rs) (setup_back_channel env job)"
  by (auto simp: setup_back_channel_def Let_def split: option.splits
      intro!: setting_up_fold setting_up_child_fd dest: chain_refs_valid)

lemma setting_up_side_channel:
  "setting_up n s rs job \<Longrightarrow> stage_ok (setting_up n s rs) (setup_side_channel env job)"
  by (auto simp: setup_side_channel_def Let_def split: option.splits
      intro!: setting_up_fold setting_up_child_fd dest: chain_refs_valid)

lemma setting_up_stderr_pipes:
  assumes "setting_up n s rs job"
  shows "stage_ok (setting_up n s rs) (setup_stderr_pipes env d job)"
  unfolding setup_stderr_pipes_def
proof (rule stage_ok_all)
  fix r j assume "r \<in> set (chain_refs job)" "setting_up n s rs j"
  with assms show "stage_ok (setting_up n s rs) (setup_pipe_for env d r r STDERR_FILENO True j)"
    by (intro setting_up_pipe_for) (simp_all add: chain_refs_up [OF assms] setting_up_refs)
qed (rule assms)

lemma setting_up_filter_pipes:
  assumes "setting_up n s rs job"
  shows "stage_ok (setting_up n s rs) (setup_filter_pipes env d job)"
  unfolding setup_filter_pipes_def
proof (rule stage_ok_all)
  fix k j assume k: "k \<in> set [0..<length (filterchain job) - 1]" and j: "setting_up n s rs j"
  then have v: "valid_ref (Filter k) j" "valid_ref (Filter (Suc k)) j"
    by (auto simp: setting_up_length [OF j] setting_up_length [OF assms])
  then show "stage_ok (setting_up n s rs) (pipe_between env d k j)"
    using j by (auto simp: pipe_between_def set_child_fd_def setting_up_io intro!: setting_up_fail split: option.splits)
qed (rule assms)

lemma setting_up_ends:
  assumes "setting_up n s rs job" and "0 < n"
  shows "stage_ok (setting_up n s rs) (setup_ends env d job)"
proof -
  have j: "setting_up n s rs (set_child_fd (Filter 0) STDIN_FILENO d job)"
    using assms by (intro setting_up_child_fd) (simp_all add: setting_up_length)
  then show ?thesis
    unfolding setup_ends_def Let_def
    by (intro setting_up_pipe_for setting_up_last [OF j assms(2)])
qed

lemma setting_up_run_process:
  assumes "setting_up n s rs job" and "k < n"
  shows "stage_ok (setting_up n s rs) (pd_job_impl_run_process G env printer ppd (Filter k) job)"
proof -
  from assms have v: "valid_ref (Filter k) job" by (simp add: setting_up_length)
  with assms(1) have "\<not> jp_finished (get_jp (Filter k) job)" unfolding setting_up_def by blast
  then have "setting_up n s rs (map_jp (Filter k) (started_process pid) job)" for pid
    using assms(1) v
    by (intro setting_up_map_jp) (simp_all add: started_process_def process_ok_def running_def)
  with assms(1) show ?thesis
    by (simp add: pd_job_impl_run_process_def Let_def split: option.splits)
qed

lemma setting_up_pending:
  "setting_up n s rs job \<Longrightarrow> setting_up n s rs (job\<lparr>pending_job_state := p\<rparr>)"
  by (simp add: setting_up_def) (simp add: job_inv_def)

lemma setting_up_add_reason:
  "setting_up n s rs job \<Longrightarrow> setting_up n s (reasons_add x rs) (pd_job_impl_add_state_reason job x)"
  using job_reasons.reasons_after_add [of job x]
  by (simp add: setting_up_def) (simp add: job_prop_defs)

lemma setting_up_watch:
  "setting_up n s rs job \<Longrightarrow> valid_ref r job \<Longrightarrow> setting_up n s rs (add_watch i w r job)"
  by (simp add: add_watch_def setting_up_io)

subsection \<open>What a stage that goes on does to the processes\<close>

definition procs_upd :: "jp_ref list \<Rightarrow> (jp_ref \<Rightarrow> pd_job_process \<Rightarrow> pd_job_process) \<Rightarrow> job \<Rightarrow> job \<Rightarrow> bool" where
  "procs_upd rs f job job' \<longleftrightarrow>
     length (filterchain job') = length (filterchain job)
     \<and> (\<forall>r. valid_ref r job \<longrightarrow> get_jp r job' = (if r \<in> set rs then f r (get_jp r job) else get_jp r job))"

lemma procs_updD:
  assumes "procs_upd rs f job job'" and "valid_ref r job"
  shows "get_jp r job' = (if r \<in> set rs then f r (get_jp r job) else get_jp r job)" and "valid_ref r job'"
  using assms valid_ref_length [of job' job r] by (auto simp: procs_upd_def)

lemma procs_upd_map: "valid_ref r job \<Longrightarrow> procs_upd [r] f job (map_jp r (f r) job)"
  by (simp add: procs_upd_def)

lemma procs_upd_same:
  "length (filterchain j) = length (filterchain job) \<Longrightarrow> (\<And>r. get_jp r j = get_jp r job) \<Longrightarrow> procs_upd [] f job j"
  by (simp add: procs_upd_def)

lemma procs_upd_trans:
  assumes "procs_upd rs f job j" and "procs_upd ss g j k"
  shows "procs_upd (rs @ ss) (\<lambda>r jp. if r \<in> set ss then g r (if r \<in> set rs then f r jp else jp) else f r jp) job k"
proof -
  have "get_jp r k = (if r \<in> set (rs @ ss)
      then (if r \<in> set ss then g r (if r \<in> set rs then f r (get_jp r job) else get_jp r job) else f r (get_jp r job))
      else get_jp r job)" if "valid_ref r job" for r
    using procs_updD [OF assms(1) that] procs_updD(1) [OF assms(2) procs_updD(2) [OF assms(1) that]] by simp
  with assms show ?thesis by (simp add: procs_upd_def)
qed

lemma procs_upd_cong:
  "procs_upd rs f job j \<Longrightarrow> set rs = set ss \<Longrightarrow> (\<And>r jp. r \<in> set ss \<Longrightarrow> f r jp = g r jp) \<Longrightarrow> procs_upd ss g job j"
  by (simp add: procs_upd_def)

lemma procs_upd_Cons:
  assumes "procs_upd [r] f job j" and "procs_upd rs f j k" and "r \<notin> set rs"
  shows "procs_upd (r # rs) f job k"
  using procs_upd_trans [OF assms(1,2)] by (rule procs_upd_cong) (use assms(3) in auto)

lemma procs_upd_fold:
  assumes "distinct rs" and "\<forall>r\<in>set rs. valid_ref r job"
    and "\<And>r j. valid_ref r j \<Longrightarrow> procs_upd [r] f j (g r j)"
  shows "procs_upd rs f job (fold g rs job)"
  using assms(1,2)
proof (induction rs arbitrary: job)
  case Nil
  then show ?case by (simp add: procs_upd_def)
next
  case (Cons r rs)
  then have "procs_upd [r] f job (g r job)" using assms(3) by simp
  moreover from this Cons.prems have "\<forall>x\<in>set rs. valid_ref x (g r job)"
    using procs_updD(2) by (metis list.set_intros(2))
  ultimately show ?case using Cons.IH [of "g r job"] Cons.prems by (auto intro: procs_upd_Cons)
qed

lemma procs_upd_all:
  assumes "stage_all g rs job = Inr k" and "distinct rs" and "\<forall>r\<in>set rs. valid_ref r job"
    and "\<And>r j j'. valid_ref r j \<Longrightarrow> g r j = Inr j' \<Longrightarrow> procs_upd [r] f j j'"
  shows "procs_upd rs f job k"
  using assms(1-3)
proof (induction rs arbitrary: job)
  case Nil
  then show ?case by (simp add: procs_upd_def)
next
  case (Cons r rs)
  then obtain j where j: "g r job = Inr j" "stage_all g rs j = Inr k" by (auto dest: bind_Inr)
  with Cons.prems assms(4) have u: "procs_upd [r] f job j" by simp
  with Cons.prems have "\<forall>x\<in>set rs. valid_ref x j"
    using procs_updD(2) by (metis list.set_intros(2))
  with Cons j u show ?case by (auto intro: procs_upd_Cons)
qed

text \<open>The two ends of a pipe.\<close>

definition pipe_rd :: "os_env \<Rightarrow> pipe_use \<Rightarrow> int" where
  "pipe_rd env u = fst (the (os_pipe env u))"

definition pipe_wr :: "os_env \<Rightarrow> pipe_use \<Rightarrow> int" where
  "pipe_wr env u = snd (the (os_pipe env u))"

lemma upd_pipe_for:
  assumes "setup_pipe_for env d x r fd out job = Inr j" and "valid_ref r job"
  shows "os_pipe env (Pipe_for r fd) \<noteq> None \<and> procs_upd [r] (\<lambda>_ jp. jp
     \<lparr>jp_child_fd := (jp_child_fd jp)(fd := if out then pipe_wr env (Pipe_for r fd) else pipe_rd env (Pipe_for r fd)),
      jp_parent_fd := (jp_parent_fd jp)(fd := if out then pipe_rd env (Pipe_for r fd) else pipe_wr env (Pipe_for r fd))\<rparr>) job j"
  using assms
  by (auto simp: setup_pipe_for_def pd_job_impl_create_pipe_for_def fail_setup_def pipe_rd_def pipe_wr_def procs_upd_def
      split: option.splits)

lemma upd_backend_pipes:
  assumes "setup_backend_pipes env d job = Inr j"
  shows "(\<forall>i<3. os_pipe env (Pipe_for Backend i) \<noteq> None) \<and> procs_upd [Backend] (\<lambda>_ jp. jp
     \<lparr>jp_child_fd := (jp_child_fd jp)(0 := pipe_rd env (Pipe_for Backend 0), 1 := pipe_wr env (Pipe_for Backend 1),
                      2 := pipe_wr env (Pipe_for Backend 2)),
      jp_parent_fd := (jp_parent_fd jp)(0 := pipe_wr env (Pipe_for Backend 0), 1 := pipe_rd env (Pipe_for Backend 1),
                      2 := pipe_rd env (Pipe_for Backend 2))\<rparr>) job j"
proof -
  from assms obtain j1 j2 where
    s: "setup_pipe_for env d (last_ref job) Backend 0 False job = Inr j1"
      "setup_pipe_for env d (last_ref job) Backend 1 True j1 = Inr j2"
      "setup_pipe_for env d (last_ref job) Backend 2 True j2 = Inr j"
    by (auto simp: setup_backend_pipes_def dest!: bind_Inr)
  note u = upd_pipe_for [OF s(1), simplified] upd_pipe_for [OF s(2), simplified] upd_pipe_for [OF s(3), simplified]
  have "procs_upd [Backend] (\<lambda>_ jp. jp
     \<lparr>jp_child_fd := (jp_child_fd jp)(0 := pipe_rd env (Pipe_for Backend 0), 1 := pipe_wr env (Pipe_for Backend 1),
                      2 := pipe_wr env (Pipe_for Backend 2)),
      jp_parent_fd := (jp_parent_fd jp)(0 := pipe_wr env (Pipe_for Backend 0), 1 := pipe_rd env (Pipe_for Backend 1),
                      2 := pipe_rd env (Pipe_for Backend 2))\<rparr>) job j"
    using procs_upd_trans [OF procs_upd_trans [OF u(1) [THEN conjunct2] u(2) [THEN conjunct2]] u(3) [THEN conjunct2]]
    by (rule procs_upd_cong) auto
  with u show ?thesis by (auto simp: less_Suc_eq numeral_eq_Suc)
qed

lemma get_jp_fields [simp]:
  "get_jp r (job\<lparr>fd_back := b\<rparr>) = get_jp r job" "valid_ref r (job\<lparr>fd_back := b\<rparr>) = valid_ref r job"
  "get_jp r (job\<lparr>fd_side := b\<rparr>) = get_jp r job" "valid_ref r (job\<lparr>fd_side := b\<rparr>) = valid_ref r job"
  "get_jp r (job\<lparr>jb_syscalls := cs\<rparr>) = get_jp r job" "valid_ref r (job\<lparr>jb_syscalls := cs\<rparr>) = valid_ref r job"
  by (cases r; simp)+

lemma Backend_not_chain [simp]: "Backend \<notin> set (chain_refs job)"
  by (auto simp: chain_refs_def)

lemma distinct_chain_refs [simp]: "distinct (chain_refs job)"
  by (simp add: chain_refs_def distinct_map inj_on_def)

lemma set_chain_refs: "r \<in> set (chain_refs job) \<longleftrightarrow> r \<noteq> Backend \<and> valid_ref r job"
  by (cases r) (auto simp: chain_refs_def)

lemma chain_refs_cong: "length (filterchain j) = length (filterchain job) \<Longrightarrow> chain_refs j = chain_refs job"
  by (simp add: chain_refs_def)

lemma upd_set_child_fd: "valid_ref r job \<Longrightarrow> procs_upd [r] (\<lambda>_ jp. jp\<lparr>jp_child_fd := (jp_child_fd jp)(i := fd)\<rparr>) job (set_child_fd r i fd job)"
  by (simp add: set_child_fd_def procs_upd_map [where f = "\<lambda>_. _"])

text \<open>Both channels: one descriptor for the backend, the other one for every filter.\<close>

lemma upd_channel:
  assumes "length (filterchain j0) = length (filterchain job)" and "\<And>r. get_jp r j0 = get_jp r job"
  shows "procs_upd (Backend # chain_refs job) (\<lambda>r jp. jp\<lparr>jp_child_fd := (jp_child_fd jp)(i := if r = Backend then b else f)\<rparr>) job
     (fold (\<lambda>ref. set_child_fd ref i f) (chain_refs (set_child_fd Backend i b j0)) (set_child_fd Backend i b j0))"
proof -
  have c: "chain_refs (set_child_fd Backend i b j0) = chain_refs job"
    using assms(1) by (simp add: chain_refs_def set_child_fd_def)
  have "procs_upd [] (\<lambda>_ jp. jp) job j0" using assms by (rule procs_upd_same)
  moreover have "procs_upd [Backend] (\<lambda>_ jp. jp\<lparr>jp_child_fd := (jp_child_fd jp)(i := b)\<rparr>) j0 (set_child_fd Backend i b j0)"
    by (rule upd_set_child_fd) simp
  moreover have "procs_upd (chain_refs job) (\<lambda>_ jp. jp\<lparr>jp_child_fd := (jp_child_fd jp)(i := f)\<rparr>)
      (set_child_fd Backend i b j0) (fold (\<lambda>ref. set_child_fd ref i f) (chain_refs job) (set_child_fd Backend i b j0))"
    using assms(1) by (intro procs_upd_fold upd_set_child_fd) (simp_all add: chain_refs_valid [of _ "set_child_fd Backend i b j0", unfolded c])
  ultimately show ?thesis
    unfolding c by (rule procs_upd_cong [OF procs_upd_trans [OF procs_upd_trans]]) auto
qed

lemma upd_back_channel:
  assumes "setup_back_channel env job = Inr j"
  shows "os_pipe env Pipe_back \<noteq> None \<and> procs_upd (Backend # chain_refs job) (\<lambda>r jp. jp\<lparr>jp_child_fd :=
      (jp_child_fd jp)(3 := if r = Backend then pipe_wr env Pipe_back else pipe_rd env Pipe_back)\<rparr>) job j"
proof -
  from assms obtain a b where p: "os_pipe env Pipe_back = Some (a, b)"
    by (auto simp: setup_back_channel_def split: option.splits)
  then have e: "pipe_rd env Pipe_back = a" "pipe_wr env Pipe_back = b" by (simp_all add: pipe_rd_def pipe_wr_def)
  from assms p upd_channel [of "job\<lparr>fd_back := \<lambda>i. if i = 0 then a else b\<rparr>" job 3 b a]
  show ?thesis unfolding e by (simp add: setup_back_channel_def Let_def)
qed

lemma upd_side_channel:
  assumes "setup_side_channel env job = Inr j"
  shows "os_socketpair env \<noteq> None \<and> procs_upd (Backend # chain_refs job) (\<lambda>r jp. jp\<lparr>jp_child_fd :=
      (jp_child_fd jp)(4 := if r = Backend then snd (the (os_socketpair env)) else fst (the (os_socketpair env)))\<rparr>) job j"
proof -
  from assms obtain a b where p: "os_socketpair env = Some (a, b)"
    by (auto simp: setup_side_channel_def split: option.splits)
  then have e: "fst (the (os_socketpair env)) = a" "snd (the (os_socketpair env)) = b" by simp_all
  from assms p upd_channel [of "job\<lparr>fd_side := \<lambda>i. if i = 0 then a else b\<rparr>" job 4 b a]
  show ?thesis unfolding e by (simp add: setup_side_channel_def Let_def)
qed

lemma upd_stderr_pipes:
  assumes "setup_stderr_pipes env d job = Inr j"
  shows "procs_upd (chain_refs job) (\<lambda>r jp. jp
     \<lparr>jp_child_fd := (jp_child_fd jp)(2 := pipe_wr env (Pipe_for r 2)),
      jp_parent_fd := (jp_parent_fd jp)(2 := pipe_rd env (Pipe_for r 2))\<rparr>) job j"
  using assms [unfolded setup_stderr_pipes_def] distinct_chain_refs
proof (rule procs_upd_all)
  fix r j j' assume "valid_ref r j" "setup_pipe_for env d r r 2 True j = Inr j'"
  from upd_pipe_for [OF this(2,1)] show "procs_upd [r] (\<lambda>r jp. jp
     \<lparr>jp_child_fd := (jp_child_fd jp)(2 := pipe_wr env (Pipe_for r 2)),
      jp_parent_fd := (jp_parent_fd jp)(2 := pipe_rd env (Pipe_for r 2))\<rparr>) j j'"
    by (auto elim: procs_upd_cong)
qed (simp add: set_chain_refs)

text \<open>The descriptors of filter k after the first m pipes between filters.\<close>

definition between_fds :: "os_env \<Rightarrow> nat \<Rightarrow> nat \<Rightarrow> (nat \<Rightarrow> int) \<Rightarrow> nat \<Rightarrow> int" where
  "between_fds env m k c = c
     (0 := (if 0 < k \<and> k \<le> m then pipe_rd env (Pipe_after (k - 1)) else c 0),
      1 := (if k < m then pipe_wr env (Pipe_after k) else c 1))"

lemma between_fds_0 [simp]: "between_fds env 0 k c = c"
  by (auto simp: between_fds_def fun_eq_iff)

lemma fun_upd_keep: "c(0 := d, Suc 0 := c (Suc 0)) = c(0 := (d :: int))"
  by (auto simp: fun_eq_iff)

fun filter_no :: "jp_ref \<Rightarrow> nat" where
  "filter_no (Filter k) = k"
| "filter_no Backend = 0"

lemma upd_between:
  assumes "stage_all (pipe_between env d) [0..<m] job = Inr j" and "m < length (filterchain job)"
  shows "procs_upd (chain_refs job) (\<lambda>r jp. jp\<lparr>jp_child_fd := between_fds env m (filter_no r) (jp_child_fd jp)\<rparr>) job j"
  using assms
proof (induction m arbitrary: j)
  case 0
  then have "j = job" by simp
  then show ?case by (simp add: procs_upd_def)
next
  case (Suc m)
  from Suc.prems(1) have "stage_bind (stage_all (pipe_between env d) [0..<m] job) (stage_all (pipe_between env d) [m]) = Inr j"
    by (simp add: stage_all_append)
  then obtain l where l: "stage_all (pipe_between env d) [0..<m] job = Inr l" "pipe_between env d m l = Inr j"
    by (auto dest!: bind_Inr)
  from Suc.IH [OF l(1)] Suc.prems(2)
  have u: "procs_upd (chain_refs job) (\<lambda>r jp. jp\<lparr>jp_child_fd := between_fds env m (filter_no r) (jp_child_fd jp)\<rparr>) job l"
    by simp
  from l(2) have j: "j = set_child_fd (Filter (Suc m)) 0 (pipe_rd env (Pipe_after m))
      (set_child_fd (Filter m) 1 (pipe_wr env (Pipe_after m)) l)"
    by (auto simp: pipe_between_def fail_setup_def pipe_rd_def pipe_wr_def split: option.splits)
  have len: "length (filterchain l) = length (filterchain job)" using u by (simp add: procs_upd_def)
  have "get_jp r j = (if r \<in> set (chain_refs job)
      then (get_jp r job)\<lparr>jp_child_fd := between_fds env (Suc m) (filter_no r) (jp_child_fd (get_jp r job))\<rparr> else get_jp r job)"
    if v: "valid_ref r job" for r
  proof (cases r)
    case Backend
    with procs_updD [OF u v] Suc.prems(2) len show ?thesis
      by (simp add: j set_child_fd_def backend_map_jp)
  next
    case (Filter k)
    have g: "get_jp (Filter k) l = (get_jp (Filter k) job)\<lparr>jp_child_fd := between_fds env m k (jp_child_fd (get_jp (Filter k) job))\<rparr>"
      using procs_updD(1) [OF u v] Filter v by (simp add: set_chain_refs del: get_jp.simps)
    have v2: "valid_ref (Filter m) l" "valid_ref (Filter (Suc m)) (set_child_fd (Filter m) 1 p l)" for p
      using Suc.prems(2) len by (simp_all add: set_child_fd_def)
    have "get_jp (Filter k) j = (get_jp (Filter k) job)\<lparr>jp_child_fd := between_fds env (Suc m) k (jp_child_fd (get_jp (Filter k) job))\<rparr>"
      using g unfolding j set_child_fd_def get_map_jp [OF v2(1)] get_map_jp [OF v2(2) [unfolded set_child_fd_def]]
      by (auto simp: between_fds_def fun_upd_keep simp del: get_jp.simps)
    with Filter v show ?thesis by (simp add: set_chain_refs)
  qed
  then show ?case using len by (simp add: procs_upd_def j set_child_fd_def)
qed

lemma upd_filter_pipes:
  assumes "setup_filter_pipes env d job = Inr j" and "filterchain job \<noteq> []"
  shows "procs_upd (chain_refs job) (\<lambda>r jp. jp\<lparr>jp_child_fd :=
     between_fds env (length (filterchain job) - 1) (filter_no r) (jp_child_fd jp)\<rparr>) job j"
  using assms by (intro upd_between [where d = d]) (simp_all add: setup_filter_pipes_def)

lemma upd_ends:
  assumes "setup_ends env d job = Inr j" and "filterchain job \<noteq> []"
  shows "os_pipe env (Pipe_for (last_ref job) 1) \<noteq> None \<and> procs_upd (Filter 0 # [last_ref job]) (\<lambda>r jp. jp
     \<lparr>jp_child_fd := (jp_child_fd jp)(0 := if r = Filter 0 then d else jp_child_fd jp 0,
         1 := if r = last_ref job then pipe_wr env (Pipe_for r 1) else jp_child_fd jp 1),
      jp_parent_fd := (jp_parent_fd jp)(1 := if r = last_ref job then pipe_rd env (Pipe_for r 1) else jp_parent_fd jp 1)\<rparr>) job j"
proof -
  let ?j1 = "set_child_fd (Filter 0) STDIN_FILENO d job"
  have l: "last_ref ?j1 = last_ref job" by (simp add: last_ref_def set_child_fd_def)
  from assms(1) have s: "setup_pipe_for env d (last_ref job) (last_ref job) STDOUT_FILENO True ?j1 = Inr j"
    by (simp add: setup_ends_def Let_def l)
  have v: "valid_ref (last_ref job) ?j1" using assms(2) by (simp add: set_child_fd_def)
  note u = upd_pipe_for [OF s v]
  have "procs_upd [Filter 0] (\<lambda>_ jp. jp\<lparr>jp_child_fd := (jp_child_fd jp)(0 := d)\<rparr>) job ?j1"
    using assms(2) by (intro upd_set_child_fd) simp
  from procs_upd_trans [OF this u [THEN conjunct2]]
  have "procs_upd ([Filter 0] @ [last_ref job]) (\<lambda>r jp. jp
     \<lparr>jp_child_fd := (jp_child_fd jp)(0 := if r = Filter 0 then d else jp_child_fd jp 0,
         1 := if r = last_ref job then pipe_wr env (Pipe_for r 1) else jp_child_fd jp 1),
      jp_parent_fd := (jp_parent_fd jp)(1 := if r = last_ref job then pipe_rd env (Pipe_for r 1) else jp_parent_fd jp 1)\<rparr>) job j"
    by (rule procs_upd_cong) (auto simp: fun_upd_keep)
  with u show ?thesis by simp
qed

lemma upd_run_process:
  assumes "valid_ref r job" and "pd_job_impl_run_process G env printer ppd r job = Inr j"
  shows "procs_upd [r] (\<lambda>r. started_process (the (os_spawn env r))) job j"
  using assms
  by (auto simp: pd_job_impl_run_process_def Let_def procs_upd_def split: option.splits)

lemma upd_run_chain:
  assumes "run_chain G env printer job = Inr j"
  shows "procs_upd (chain_refs job) (\<lambda>r. started_process (the (os_spawn env r))) job j"
proof -
  let ?j = "pd_job_impl_add_state_reason (job\<lparr>pending_job_state := PD_JOB_STATE_PROCESSING\<rparr>) ''job-transforming''"
  have c: "chain_refs ?j = chain_refs job" by (simp add: chain_refs_def)
  from assms have s: "stage_all (pd_job_impl_run_process G env printer (Option.bind printer prn_driver)) (chain_refs job) ?j = Inr j"
    by (simp add: run_chain_def Let_def c)
  have v: "\<forall>r\<in>set (chain_refs job). valid_ref r ?j" by (simp add: set_chain_refs)
  have "procs_upd (chain_refs job) (\<lambda>r. started_process (the (os_spawn env r))) ?j j"
    using s distinct_chain_refs v by (rule procs_upd_all) (rule upd_run_process)
  then show ?thesis by (simp add: procs_upd_def)
qed

lemma get_jp_fold_log [simp]:
  "get_jp r (sys_close fd job) = get_jp r job" "valid_ref r (sys_close fd job) = valid_ref r job"
  "filterchain (sys_close fd job) = filterchain job" "backend (sys_close fd job) = backend job"
  by (simp_all add: sys_close_def)

lemma upd_watch_chain:
  assumes "watch_chain job = Inr j"
  shows "procs_upd (chain_refs job) (\<lambda>_ jp. jp\<lparr>jp_io_source := (jp_io_source jp)(2 := Some Message_in),
      jp_process_watch := True\<rparr>) job j"
proof -
  let ?a = "sys_close (fd_side job 0) (sys_close (fd_back job STDIN_FILENO) job)"
  let ?b = "?a\<lparr>fd_back := (fd_back ?a)(STDIN_FILENO := -1), fd_side := (fd_side ?a)(0 := -1)\<rparr>"
  have c: "chain_refs ?b = chain_refs job" by (rule chain_refs_cong) (simp add: get_jp_fold_log)
  have 1: "procs_upd [] (\<lambda>_ jp. jp) job ?b"
    by (rule procs_upd_same) (simp_all add: get_jp_fold_log)
  have vb: "\<forall>r\<in>set (chain_refs job). valid_ref r ?b" unfolding c [symmetric] by (simp add: set_chain_refs)
  have 2: "procs_upd (chain_refs job) (\<lambda>_ jp. jp\<lparr>jp_io_source := (jp_io_source jp)(2 := Some Message_in)\<rparr>) ?b
      (fold (add_watch 2 Message_in) (chain_refs job) ?b)"
    using distinct_chain_refs vb by (rule procs_upd_fold) (simp add: add_watch_def procs_upd_map [where f = "\<lambda>_. _"])
  have v2: "\<forall>r\<in>set (chain_refs job). valid_ref r (fold (add_watch 2 Message_in) (chain_refs job) ?b)"
    using procs_updD(2) [OF 2] vb by blast
  have 3: "procs_upd (chain_refs job) (\<lambda>_ jp. jp\<lparr>jp_process_watch := True\<rparr>)
      (fold (add_watch 2 Message_in) (chain_refs job) ?b)
      (fold watch_exit (chain_refs job) (fold (add_watch 2 Message_in) (chain_refs job) ?b))"
    using distinct_chain_refs v2 by (rule procs_upd_fold) (simp add: watch_exit_def procs_upd_map [where f = "\<lambda>_. _"])
  have "j = fold watch_exit (chain_refs job) (fold (add_watch 2 Message_in) (chain_refs job) ?b)"
    using assms unfolding watch_chain_def Let_def c by simp
  then show ?thesis
    using procs_upd_trans [OF procs_upd_trans [OF 1 2] 3] by (auto elim: procs_upd_cong)
qed

definition fresh_process :: "pd_job_process \<Rightarrow> bool" where
  "fresh_process jp \<longleftrightarrow> jp_child_fd jp = (\<lambda>_. -1) \<and> jp_parent_fd jp = (\<lambda>_. -1) \<and> jp_io_source jp = (\<lambda>_. None)
     \<and> jp_channel jp = (\<lambda>_. Chan_null) \<and> \<not> jp_started jp \<and> \<not> jp_finished jp \<and> \<not> jp_process_watch jp \<and> \<not> jp_freed jp"

lemma fresh_filters [simp]:
  "fresh_process arranger" "fresh_process (transformer t)" "fresh_process (final_filter_process f)"
  "fresh_process pd_job_impl_init_jp"
  "fresh_process (setup_backend scheme jp) = fresh_process jp"
  by (auto simp: fresh_process_def arranger_def transformer_def final_filter_process_def pd_job_impl_init_jp_def
      setup_backend_def)

lemma fresh_process_ok [simp]: "fresh_process jp \<Longrightarrow> process_ok jp"
  by (simp add: fresh_process_def process_ok_def)

lemma setup_chain_fresh:
  assumes "setup_chain env printer d job = Inr j" and "filterchain job = []"
  shows "filterchain j \<noteq> [] \<and> length (filterchain j) \<le> 3 \<and> (\<forall>jp\<in>set (filterchain j). fresh_process jp)
    \<and> j = job\<lparr>filterchain := filterchain j\<rparr>"
  using assms
  by (auto simp: setup_chain_def Let_def fail_setup_def split: if_splits option.splits)

lemma setting_up_chain:
  assumes "job_inv job" and "filterchain job = []" and "fresh_process (backend job)"
    and "buflen job = bufsent job"
  shows "stage_ok (\<lambda>j. \<exists>n. 0 < n \<and> setting_up n (jb_state job) (jb_state_reasons job) j)
    (setup_chain env printer d job)"
proof -
  have "setting_up (length jps) (jb_state job) (jb_state_reasons job) (job\<lparr>filterchain := jps\<rparr>)"
    if "\<forall>jp\<in>set jps. fresh_process jp" "length jps \<le> 3" for jps
  proof -
    have "\<not> jp_finished (get_jp r (job\<lparr>filterchain := jps\<rparr>))" if "valid_ref r (job\<lparr>filterchain := jps\<rparr>)" for r
      using that \<open>\<forall>jp\<in>set jps. fresh_process jp\<close> assms(3) by (cases r) (auto simp: fresh_process_def)
    with that assms show ?thesis by (auto simp: setting_up_def job_inv_def fresh_process_def)
  qed
  from this [of "[arranger]"] this [of "[arranger, transformer t]" for t]
    this [of "[arranger, transformer t, final_filter_process f]" for t f] assms(2)
  show ?thesis
    by (auto simp: setup_chain_def Let_def fail_setup_def sys_close_def split: option.splits)
qed

subsection \<open>The plumbing\<close>

text \<open>How filter k of n is connected: its five descriptors in the child and those of the daemon.\<close>

definition filter_wired :: "os_env \<Rightarrow> int \<Rightarrow> nat \<Rightarrow> nat \<Rightarrow> pd_job_process \<Rightarrow> bool" where
  "filter_wired env doc_fd n k jp \<longleftrightarrow>
     jp_child_fd jp 0 = (if k = 0 then doc_fd else pipe_rd env (Pipe_after (k - 1)))
     \<and> jp_child_fd jp 1 = (if Suc k = n then pipe_wr env (Pipe_for (Filter k) 1) else pipe_wr env (Pipe_after k))
     \<and> jp_child_fd jp 2 = pipe_wr env (Pipe_for (Filter k) 2)
     \<and> jp_child_fd jp 3 = pipe_rd env Pipe_back
     \<and> jp_child_fd jp 4 = fst (the (os_socketpair env))
     \<and> jp_parent_fd jp = (\<lambda>_. -1)(1 := if Suc k = n then pipe_rd env (Pipe_for (Filter k) 1) else -1,
                                  2 := pipe_rd env (Pipe_for (Filter k) 2))"

definition backend_wired :: "os_env \<Rightarrow> pd_job_process \<Rightarrow> bool" where
  "backend_wired env jp \<longleftrightarrow>
     jp_child_fd jp 0 = pipe_rd env (Pipe_for Backend 0)
     \<and> jp_child_fd jp 1 = pipe_wr env (Pipe_for Backend 1)
     \<and> jp_child_fd jp 2 = pipe_wr env (Pipe_for Backend 2)
     \<and> jp_child_fd jp 3 = pipe_wr env Pipe_back
     \<and> jp_child_fd jp 4 = snd (the (os_socketpair env))
     \<and> jp_parent_fd jp = (\<lambda>_. -1)(0 := pipe_wr env (Pipe_for Backend 0), 1 := pipe_rd env (Pipe_for Backend 1),
                                  2 := pipe_rd env (Pipe_for Backend 2))"

text \<open>A filter that was started: its state, watches and channels.\<close>

definition filter_up :: "os_env \<Rightarrow> jp_ref \<Rightarrow> pd_job_process \<Rightarrow> bool" where
  "filter_up env r jp \<longleftrightarrow> running jp \<and> jp_process_watch jp \<and> jp_pid jp = the (os_spawn env r)
     \<and> jp_io_source jp = (\<lambda>_. None)(2 := Some Message_in)
     \<and> jp_channel jp = (\<lambda>i. if i < PD_FD_MAX \<and> jp_parent_fd jp i \<noteq> -1 then Chan_live else Chan_null)
     \<and> \<not> jp_freed jp"

definition backend_ready :: "pd_job_process \<Rightarrow> bool" where
  "backend_ready jp \<longleftrightarrow> \<not> jp_started jp \<and> \<not> jp_finished jp \<and> \<not> jp_process_watch jp
     \<and> jp_io_source jp = (\<lambda>_. None) \<and> jp_channel jp = (\<lambda>_. Chan_null) \<and> \<not> jp_freed jp"

lemma pipeline_stages:
  assumes "pipeline G env printer d job = Inr j"
  obtains j1 j2 j3 j4 j5 j6 j7 j8 where "setup_chain env printer d job = Inr j1"
    and "setup_backend_pipes env d j1 = Inr j2" and "setup_back_channel env j2 = Inr j3"
    and "setup_side_channel env j3 = Inr j4" and "setup_stderr_pipes env d j4 = Inr j5"
    and "setup_filter_pipes env d j5 = Inr j6" and "setup_ends env d j6 = Inr j7"
    and "run_chain G env (Some printer) j7 = Inr j8" and "watch_chain j8 = Inr j"
  using assms unfolding pipeline_def by (auto dest!: bind_Inr)

lemma pipeline_processes:
  assumes "pipeline G env printer d job = Inr j" and "filterchain job = []" and "fresh_process (backend job)"
  shows "filterchain j \<noteq> [] \<and> length (filterchain j) \<le> 3
    \<and> (\<forall>k<length (filterchain j). filter_wired env d (length (filterchain j)) k (get_jp (Filter k) j)
        \<and> filter_up env (Filter k) (get_jp (Filter k) j))
    \<and> backend_wired env (backend j) \<and> backend_ready (backend j)
    \<and> os_pipe env (Pipe_for (last_ref j) 1) \<noteq> None"
proof -
  from pipeline_stages [OF assms(1)] obtain j1 j2 j3 j4 j5 j6 j7 j8 where
    s: "setup_chain env printer d job = Inr j1" "setup_backend_pipes env d j1 = Inr j2"
      "setup_back_channel env j2 = Inr j3" "setup_side_channel env j3 = Inr j4"
      "setup_stderr_pipes env d j4 = Inr j5" "setup_filter_pipes env d j5 = Inr j6"
      "setup_ends env d j6 = Inr j7" "run_chain G env (Some printer) j7 = Inr j8" "watch_chain j8 = Inr j" .
  note c = setup_chain_fresh [OF s(1) assms(2)]
  let ?n = "length (filterchain j1)"
  note u2 = upd_backend_pipes [OF s(2), THEN conjunct2] and u3 = upd_back_channel [OF s(3), THEN conjunct2]
    and u4 = upd_side_channel [OF s(4), THEN conjunct2] and u5 = upd_stderr_pipes [OF s(5)]
  have l2: "length (filterchain j2) = ?n" using u2 by (simp add: procs_upd_def)
  have l3: "length (filterchain j3) = ?n" using u3 l2 by (simp add: procs_upd_def)
  have l4: "length (filterchain j4) = ?n" using u4 l3 by (simp add: procs_upd_def)
  have l5: "length (filterchain j5) = ?n" using u5 l4 by (simp add: procs_upd_def)
  have "filterchain j5 \<noteq> []" using c l5 by auto
  note u6 = upd_filter_pipes [OF s(6) this]
  have l6: "length (filterchain j6) = ?n" using u6 l5 by (simp add: procs_upd_def)
  have ne6: "filterchain j6 \<noteq> []" using c l6 by auto
  note u7 = upd_ends [OF s(7) ne6, THEN conjunct2]
  have l7: "length (filterchain j7) = ?n" using u7 l6 by (simp add: procs_upd_def)
  note u8 = upd_run_chain [OF s(8)]
  have l8: "length (filterchain j8) = ?n" using u8 l7 by (simp add: procs_upd_def)
  note u9 = upd_watch_chain [OF s(9)]
  have l9: "length (filterchain j) = ?n" using u9 l8 by (simp add: procs_upd_def)
  have L: "last_ref j6 = Filter (?n - 1)" by (simp add: last_ref_def l6)
  have v: "valid_ref r j2 = valid_ref r j1" "valid_ref r j3 = valid_ref r j1" "valid_ref r j4 = valid_ref r j1"
    "valid_ref r j5 = valid_ref r j1" "valid_ref r j6 = valid_ref r j1" "valid_ref r j7 = valid_ref r j1"
    "valid_ref r j8 = valid_ref r j1" for r
    by (rule valid_ref_length, rule l2 l3 l4 l5 l6 l7 l8)+
  have "filter_wired env d ?n k (get_jp (Filter k) j) \<and> filter_up env (Filter k) (get_jp (Filter k) j)" if k: "k < ?n" for k
  proof -
    let ?r = "Filter k"
    have vr: "valid_ref ?r j1" using k by simp
    have f: "fresh_process (get_jp ?r j1)" using c k by simp
    have m: "?r \<in> set (chain_refs j2)" "?r \<in> set (chain_refs j3)" "?r \<in> set (chain_refs j4)" "?r \<in> set (chain_refs j5)"
      "?r \<in> set (chain_refs j7)" "?r \<in> set (chain_refs j8)"
      using vr by (simp_all only: set_chain_refs v) simp_all
    define p where "p = get_jp ?r j1"
    have "get_jp ?r j2 = p" using procs_updD(1) [OF u2 vr] unfolding p_def by (simp del: get_jp.simps)
    then have e3: "get_jp ?r j3 = p\<lparr>jp_child_fd := (jp_child_fd p)(3 := pipe_rd env Pipe_back)\<rparr>"
      using procs_updD(1) [OF u3, unfolded v, OF vr] m by (simp del: get_jp.simps)
    have e4: "get_jp ?r j4 = (get_jp ?r j3)\<lparr>jp_child_fd := (jp_child_fd (get_jp ?r j3))(4 := fst (the (os_socketpair env)))\<rparr>"
      using procs_updD(1) [OF u4, unfolded v, OF vr] m by (simp del: get_jp.simps)
    have e5: "get_jp ?r j5 = (get_jp ?r j4)\<lparr>jp_child_fd := (jp_child_fd (get_jp ?r j4))(2 := pipe_wr env (Pipe_for ?r 2)),
        jp_parent_fd := (jp_parent_fd (get_jp ?r j4))(2 := pipe_rd env (Pipe_for ?r 2))\<rparr>"
      using procs_updD(1) [OF u5, unfolded v, OF vr] m by (simp del: get_jp.simps)
    have e6: "get_jp ?r j6 = (get_jp ?r j5)\<lparr>jp_child_fd := between_fds env (?n - 1) k (jp_child_fd (get_jp ?r j5))\<rparr>"
      using procs_updD(1) [OF u6, unfolded v, OF vr] m l5 by (simp del: get_jp.simps)
    let ?p6 = "get_jp ?r j6"
    have e7: "get_jp ?r j7 = ?p6\<lparr>jp_child_fd := (jp_child_fd ?p6)(0 := if k = 0 then d else jp_child_fd ?p6 0,
           1 := if k = ?n - 1 then pipe_wr env (Pipe_for ?r 1) else jp_child_fd ?p6 1),
        jp_parent_fd := (jp_parent_fd ?p6)(1 := if k = ?n - 1 then pipe_rd env (Pipe_for ?r 1) else jp_parent_fd ?p6 1)\<rparr>"
      using procs_updD(1) [OF u7, unfolded v, OF vr] unfolding L
      by (cases "k = 0"; cases "k = ?n - 1") (simp_all add: fun_upd_keep del: get_jp.simps)
    have e8: "get_jp ?r j8 = started_process (the (os_spawn env ?r)) (get_jp ?r j7)"
      using procs_updD(1) [OF u8, unfolded v, OF vr] m by (simp del: get_jp.simps)
    have e9: "get_jp ?r j = (get_jp ?r j8)\<lparr>jp_io_source := (jp_io_source (get_jp ?r j8))(2 := Some Message_in), jp_process_watch := True\<rparr>"
      using procs_updD(1) [OF u9, unfolded v, OF vr] m by (simp del: get_jp.simps)
    note e = e9 e8 e7 e6 e5 e4 e3
    have n: "k = ?n - 1 \<longleftrightarrow> Suc k = ?n" "k < ?n - 1 \<longleftrightarrow> Suc k \<noteq> ?n" "k \<le> ?n - 1" using k by auto
    have "filter_wired env d ?n k (get_jp ?r j)"
      using f k unfolding e p_def [symmetric] filter_wired_def fresh_process_def n
      by (simp add: started_process_def between_fds_def n) (auto simp: fun_eq_iff)
    moreover have "filter_up env ?r (get_jp ?r j)"
      using f unfolding e p_def [symmetric] filter_up_def fresh_process_def n
      by (simp add: started_process_def running_def) (auto simp: fun_eq_iff)
    ultimately show ?thesis ..
  qed
  moreover have "backend_wired env (backend j) \<and> backend_ready (backend j)"
  proof -
    have vr: "valid_ref Backend j1" by simp
    from c have "j1 = job\<lparr>filterchain := filterchain j1\<rparr>" by blast
    then have "backend j1 = backend (job\<lparr>filterchain := filterchain j1\<rparr>)" by (rule arg_cong)
    then have "backend j1 = backend job" by simp
    then have f: "fresh_process (get_jp Backend j1)" using assms(3) by simp
    note e = procs_updD(1) [OF u2 vr] procs_updD(1) [OF u3, unfolded v, OF vr] procs_updD(1) [OF u4, unfolded v, OF vr]
      procs_updD(1) [OF u5, unfolded v, OF vr] procs_updD(1) [OF u6, unfolded v, OF vr]
      procs_updD(1) [OF u7, unfolded v, OF vr] procs_updD(1) [OF u8, unfolded v, OF vr] procs_updD(1) [OF u9, unfolded v, OF vr]
    have "backend_wired env (get_jp Backend j) \<and> backend_ready (get_jp Backend j)"
      using f unfolding e L l5
      by (auto simp: backend_wired_def backend_ready_def fresh_process_def fun_eq_iff simp del: get_jp.simps)
    then show ?thesis by simp
  qed
  moreover have "os_pipe env (Pipe_for (last_ref j) 1) \<noteq> None"
    using upd_ends [OF s(7) ne6] unfolding L by (simp add: last_ref_def l9)
  ultimately show ?thesis using c l9 by auto
qed

subsection \<open>The outcome of starting a job\<close>

lemma fold_keeps: "P job \<Longrightarrow> (\<And>x j. x \<in> set xs \<Longrightarrow> P j \<Longrightarrow> P (f x j)) \<Longrightarrow> P (fold f xs job)"
  by (induction xs arbitrary: job) auto

definition filters_running :: "nat \<Rightarrow> job_state \<Rightarrow> string list \<Rightarrow> job \<Rightarrow> bool" where
  "filters_running n s rs job \<longleftrightarrow> setting_up n s rs job \<and> (\<forall>k<n. running (get_jp (Filter k) job))"

lemma running_io [simp]:
  "running (jp\<lparr>jp_io_source := a\<rparr>) = running jp" "running (jp\<lparr>jp_process_watch := b\<rparr>) = running jp"
  "process_ok (jp\<lparr>jp_process_watch := True\<rparr>) = running jp"
  by (auto simp: running_def process_ok_def)

lemma filters_running_keep:
  assumes "filters_running n s rs job" and "k < n"
  shows "filters_running n s rs (add_watch i w (Filter k) job)" and "filters_running n s rs (watch_exit (Filter k) job)"
proof -
  from assms have u: "setting_up n s rs job" and r: "\<forall>x<n. running (get_jp (Filter x) job)"
    by (simp_all add: filters_running_def)
  have v: "valid_ref (Filter k) job" using assms(2) u by (simp add: setting_up_length)
  have "setting_up n s rs (watch_exit (Filter k) job)"
    unfolding watch_exit_def using u v r assms(2) by (intro setting_up_map_jp) (simp_all del: get_jp.simps)
  moreover have "setting_up n s rs (add_watch i w (Filter k) job)" using u v by (rule setting_up_watch)
  ultimately show "filters_running n s rs (add_watch i w (Filter k) job)" "filters_running n s rs (watch_exit (Filter k) job)"
    using r v unfolding filters_running_def add_watch_def watch_exit_def by (auto simp del: get_jp.simps)
qed

lemma filters_running_log [simp]:
  "filters_running n s rs (job\<lparr>jb_syscalls := cs\<rparr>) = filters_running n s rs job"
  "filters_running n s rs (job\<lparr>fd_back := b\<rparr>) = filters_running n s rs job"
  "filters_running n s rs (job\<lparr>fd_side := b\<rparr>) = filters_running n s rs job"
  by (simp_all add: filters_running_def del: get_jp.simps)

lemma filters_running_watch_chain:
  assumes "filters_running n s rs job" and "watch_chain job = Inr j"
  shows "filters_running n s rs j"
proof -
  from assms(1) have "chain_refs job = map Filter [0..<n]" by (auto simp: filters_running_def chain_refs_up)
  then have c: "chain_refs (sys_close a (sys_close b job)\<lparr>fd_back := x, fd_side := y\<rparr>) = map Filter [0..<n]" for a b x y
    by (simp add: chain_refs_def sys_close_def)
  show ?thesis
    using assms unfolding watch_chain_def Let_def c
    by (auto simp: sys_close_def intro!: fold_keeps [where P = "filters_running n s rs"] filters_running_keep)
qed

lemma setting_up_run_chain:
  assumes "setting_up n s rs job"
  shows "stage_ok (setting_up n s (reasons_add ''job-transforming'' rs)) (run_chain G env printer job)"
proof -
  let ?j = "pd_job_impl_add_state_reason (job\<lparr>pending_job_state := PD_JOB_STATE_PROCESSING\<rparr>) ''job-transforming''"
  have j: "setting_up n s (reasons_add ''job-transforming'' rs) ?j"
    using assms by (intro setting_up_add_reason setting_up_pending)
  show ?thesis
    unfolding run_chain_def Let_def chain_refs_up [OF j]
    by (rule stage_ok_all, rule j) (auto intro: setting_up_run_process)
qed

lemma run_chain_running:
  assumes "setting_up n s rs job" and "run_chain G env printer job = Inr j"
  shows "filters_running n s (reasons_add ''job-transforming'' rs) j"
proof -
  have u: "setting_up n s (reasons_add ''job-transforming'' rs) j"
    using setting_up_run_chain [OF assms(1), of G env printer] assms(2) by simp
  have "running (get_jp (Filter k) j)" if k: "k < n" for k
  proof -
    have v: "valid_ref (Filter k) job" using k assms(1) by (simp add: setting_up_length)
    with assms(1) have "\<not> jp_finished (get_jp (Filter k) job)" unfolding setting_up_def by blast
    with procs_updD(1) [OF upd_run_chain [OF assms(2)] v] v show ?thesis
      by (simp add: set_chain_refs started_process_def running_def del: get_jp.simps)
  qed
  with u show ?thesis by (simp add: filters_running_def)
qed

text \<open>The predicate of a job whose start may have failed at any point.\<close>

definition start_inv :: "job_state \<Rightarrow> string list \<Rightarrow> job \<Rightarrow> bool" where
  "start_inv s rs job \<longleftrightarrow> (\<exists>n. setting_up n s rs job \<or> setting_up n s (reasons_add ''job-transforming'' rs) job)"

lemma stage_ok_mono: "stage_ok P s \<Longrightarrow> (\<And>j. P j \<Longrightarrow> Q j) \<Longrightarrow> stage_ok Q s"
  by (cases s) simp_all

lemma bind_ok: "stage_ok P s \<Longrightarrow> (\<And>j. P j \<Longrightarrow> Q j) \<Longrightarrow> (\<And>j. P j \<Longrightarrow> stage_ok Q (f j)) \<Longrightarrow> stage_ok Q (stage_bind s f)"
  by (cases s) simp_all

lemma start_inv_I:
  "setting_up n s rs job \<Longrightarrow> start_inv s rs job"
  "setting_up n s (reasons_add ''job-transforming'' rs) job \<Longrightarrow> start_inv s rs job"
  by (auto simp: start_inv_def)

lemma pipeline_start_inv:
  assumes "job_inv job" and "filterchain job = []" and "fresh_process (backend job)"
    and "buflen job = bufsent job"
  shows "stage_ok (start_inv (jb_state job) (jb_state_reasons job)) (pipeline G env printer d job)"
proof -
  let ?s = "jb_state job" and ?rs = "jb_state_reasons job"
  let ?I = "start_inv ?s ?rs"
  have last: "stage_ok ?I (stage_bind (run_chain G env (Some printer) j) watch_chain)" if u: "setting_up n ?s ?rs j" for n j
  proof (cases "run_chain G env (Some printer) j")
    case (Inl k)
    with setting_up_run_chain [OF u, of G env "Some printer"] show ?thesis by (auto intro: start_inv_I)
  next
    case (Inr k)
    from run_chain_running [OF u Inr] have "filters_running n ?s (reasons_add ''job-transforming'' ?rs) k" .
    from filters_running_watch_chain [OF this] Inr show ?thesis
      by (cases "watch_chain k") (auto simp: filters_running_def watch_chain_def Let_def intro: start_inv_I)
  qed
  have tail: "stage_ok ?I
      (stage_bind (setup_backend_pipes env d j) (\<lambda>job.
       stage_bind (setup_back_channel env job) (\<lambda>job.
       stage_bind (setup_side_channel env job) (\<lambda>job.
       stage_bind (setup_stderr_pipes env d job) (\<lambda>job.
       stage_bind (setup_filter_pipes env d job) (\<lambda>job.
       stage_bind (setup_ends env d job) (\<lambda>job.
       stage_bind (run_chain G env (Some printer) job) watch_chain)))))))"
    if u: "setting_up n ?s ?rs j" and n: "0 < n" for n j
    using n u
    by (intro bind_ok [where P = "setting_up n ?s ?rs"] start_inv_I(1) [where n = n] last
        setting_up_backend_pipes setting_up_back_channel setting_up_side_channel setting_up_stderr_pipes
        setting_up_filter_pipes setting_up_ends)
  show ?thesis
    unfolding pipeline_def
    by (rule bind_ok [OF setting_up_chain [OF assms]]) (auto intro: start_inv_I tail)
qed

lemma upd_watch_backend:
  assumes "filterchain job \<noteq> []"
  shows "procs_upd [Backend, last_ref job] (\<lambda>r jp. if r = Backend
      then jp\<lparr>jp_io_source := (jp_io_source jp)(0 := None, 1 := Some Message_in, 2 := Some Message_in), jp_process_watch := True\<rparr>
      else jp\<lparr>jp_io_source := (jp_io_source jp)(1 := Some Data_in)\<rparr>) job (watch_backend job)"
proof -
  let ?a = "sys_close (fd_side job 1) (sys_close (fd_back job STDOUT_FILENO) job)"
  let ?b = "?a\<lparr>fd_back := (fd_back ?a)(STDOUT_FILENO := -1), fd_side := (fd_side ?a)(1 := -1)\<rparr>"
  let ?c = "add_watch STDERR_FILENO Message_in Backend
      (add_watch STDOUT_FILENO Message_in Backend (clear_source Backend STDIN_FILENO ?b))"
  have l: "last_ref ?c = last_ref job"
    by (simp add: last_ref_def add_watch_def clear_source_def sys_close_def)
  have v: "valid_ref r ?b = valid_ref r job" for r
    by (rule valid_ref_length) simp
  have "get_jp r (watch_backend job) = (if r \<in> set [Backend, last_ref job]
      then (if r = Backend
        then (get_jp r job)\<lparr>jp_io_source := (jp_io_source (get_jp r job))(0 := None, 1 := Some Message_in, 2 := Some Message_in),
               jp_process_watch := True\<rparr>
        else (get_jp r job)\<lparr>jp_io_source := (jp_io_source (get_jp r job))(1 := Some Data_in)\<rparr>)
      else get_jp r job)" if "valid_ref r job" for r
    using assms that v
    unfolding watch_backend_def Let_def l
    by (simp add: add_watch_def watch_exit_def clear_source_def del: get_jp.simps)
  moreover have "length (filterchain (watch_backend job)) = length (filterchain job)"
    by (simp add: watch_backend_def Let_def add_watch_def watch_exit_def clear_source_def sys_close_def)
  ultimately show ?thesis by (simp add: procs_upd_def)
qed

lemma only_io_watch: "valid_ref r job \<Longrightarrow> job_inv job \<Longrightarrow> job_inv (add_watch i w r job)"
  by (simp add: add_watch_def job_inv_only_io)

lemma job_inv_watch_backend:
  assumes "job_inv job" and "filterchain job \<noteq> []" and "running (backend job)"
  shows "job_inv (watch_backend job)"
proof -
  let ?a = "sys_close (fd_side job 1) (sys_close (fd_back job STDOUT_FILENO) job)"
  let ?b = "?a\<lparr>fd_back := (fd_back ?a)(STDOUT_FILENO := -1), fd_side := (fd_side ?a)(1 := -1)\<rparr>"
  let ?c = "add_watch STDERR_FILENO Message_in Backend
      (add_watch STDOUT_FILENO Message_in Backend (clear_source Backend STDIN_FILENO ?b))"
  have b: "job_inv ?b" using assms(1) by (simp add: job_inv_def sys_close_def)
  then have c: "job_inv ?c" by (intro only_io_watch job_inv_clear_source) simp_all
  have rb: "running (backend ?c)"
    using assms(3) by (simp add: add_watch_def clear_source_def backend_map_jp sys_close_def)
  have d: "job_inv (watch_exit Backend ?c)"
    unfolding watch_exit_def using c rb by (intro job_inv_map_jp) simp_all
  have "filterchain ?c \<noteq> []" using assms(2) by (simp add: add_watch_def clear_source_def sys_close_def)
  then have "valid_ref (last_ref ?c) (watch_exit Backend ?c)" by (simp add: watch_exit_def)
  then show ?thesis unfolding watch_backend_def Let_def using d by (rule only_io_watch)
qed

lemma watch_backend_frame [simp]:
  "jb_state (watch_backend job) = jb_state job"
  "jb_state_reasons (watch_backend job) = jb_state_reasons job"
  "pending_job_state (watch_backend job) = pending_job_state job"
  "buflen (watch_backend job) = buflen job" "bufsent (watch_backend job) = bufsent job"
  "buffer (watch_backend job) = buffer job"
  by (simp_all add: watch_backend_def Let_def add_watch_def watch_exit_def clear_source_def sys_close_def)

lemma start_inv_facts:
  assumes "start_inv s rs job"
  shows "job_inv job" and "\<not> jp_started (backend job)" and "jb_state job = s" and "buflen job = bufsent job"
    and "jb_state_reasons job = rs \<or> jb_state_reasons job = reasons_add ''job-transforming'' rs"
  using assms by (auto simp: start_inv_def setting_up_def)

text \<open>The stage whose result pd_job_impl_start_processing is.\<close>

definition start_stage :: "glib \<Rightarrow> os_env \<Rightarrow> printer option \<Rightarrow> job \<Rightarrow> stage" where
  "start_stage G env printer job =
     (case printer of
        None \<Rightarrow> Inl job
      | Some prn \<Rightarrow>
          (let uri = pd_printer_impl_get_uri prn;
               job1 = job\<lparr>jb_device_uri := uri\<rparr>;
               scheme = Option.bind uri (g_uri_parse_scheme G);
               doc_fd = os_open env (document_filename job1) in
           if doc_fd = -1 then Inl job1
           else pipeline G env prn doc_fd (job1\<lparr>backend := setup_backend scheme (backend job1)\<rparr>)))"

lemma start_processing_stage:
  "filterchain job = [] \<Longrightarrow> pd_job_impl_start_processing G env printer job = stage_result (start_stage G env printer job)"
  by (simp add: pd_job_impl_start_processing_def start_stage_def)

lemma start_stage_inv:
  assumes "job_inv job" and "filterchain job = []" and "fresh_process (backend job)" and "buflen job = bufsent job"
  shows "stage_ok (start_inv (jb_state job) (jb_state_reasons job)) (start_stage G env printer job)"
proof -
  have z: "start_inv (jb_state job) (jb_state_reasons job) (job\<lparr>jb_device_uri := u\<rparr>)" for u
  proof -
    have "\<not> jp_finished (get_jp r (job\<lparr>jb_device_uri := u\<rparr>))" if "valid_ref r job" for r
      using that assms(2,3) by (cases r) (simp_all add: fresh_process_def)
    moreover have "valid_ref r (job\<lparr>jb_device_uri := u\<rparr>) = valid_ref r job" for r by (cases r) simp_all
    moreover have "job_inv (job\<lparr>jb_device_uri := u\<rparr>)" using assms(1) by (simp add: job_inv_def)
    ultimately have "setting_up 0 (jb_state job) (jb_state_reasons job) (job\<lparr>jb_device_uri := u\<rparr>)"
      using assms(2-4) by (simp add: setting_up_def fresh_process_def)
    then show ?thesis by (rule start_inv_I)
  qed
  have "stage_ok (start_inv (jb_state job) (jb_state_reasons job))
      (pipeline G env prn d (job\<lparr>jb_device_uri := u, backend := setup_backend scheme (backend job)\<rparr>))" for prn d u scheme
  proof -
    have "process_ok (setup_backend scheme (backend job))" using assms(3) by (intro fresh_process_ok) simp
    moreover have "\<not> jp_started (setup_backend scheme (backend job))"
      using assms(3) fresh_filters(5) [of scheme "backend job"] by (simp add: fresh_process_def)
    ultimately have "job_inv (job\<lparr>jb_device_uri := u, backend := setup_backend scheme (backend job)\<rparr>)"
      using assms(1,2) by (simp add: job_inv_def)
    from pipeline_start_inv [OF this] assms(2-4) show ?thesis by simp
  qed
  then show ?thesis
    using z z [of "jb_device_uri job"] by (auto simp: start_stage_def Let_def split: option.split)
qed

lemma start_stage_processes:
  assumes "start_stage G env printer job = Inr j" and "filterchain job = []" and "fresh_process (backend job)"
  shows "\<exists>d. filterchain j \<noteq> [] \<and> d = os_open env (document_filename job) \<and> d \<noteq> -1
    \<and> (\<forall>k<length (filterchain j). filter_wired env d (length (filterchain j)) k (get_jp (Filter k) j)
        \<and> filter_up env (Filter k) (get_jp (Filter k) j))
    \<and> backend_wired env (backend j) \<and> backend_ready (backend j)
    \<and> os_pipe env (Pipe_for (last_ref j) 1) \<noteq> None"
  using assms pipeline_processes [of G env "the printer" "os_open env (document_filename job)" _ j]
  by (auto simp: start_stage_def Let_def split: option.splits if_splits)

text \<open>
  The two ways pd_job_impl_start_sending ends for a job that was never started: the job is
  aborted with the backend not started, or everything runs and is watched.
\<close>

definition all_up :: "glib \<Rightarrow> os_env \<Rightarrow> job \<Rightarrow> job \<Rightarrow> bool" where
  "all_up G env job j \<longleftrightarrow>
     jb_state j = jb_state job \<and> pending_job_state j = PD_JOB_STATE_COMPLETED \<and> pump_ready j
     \<and> (\<forall>r. valid_ref r j \<longrightarrow> running (get_jp r j) \<and> jp_process_watch (get_jp r j)
          \<and> jp_pid (get_jp r j) = the (os_spawn env r))
     \<and> backend_wired env (backend j)
     \<and> (\<forall>k<length (filterchain j).
          filter_wired env (os_open env (document_filename job)) (length (filterchain j)) k (get_jp (Filter k) j))"

definition os_ok :: "os_env \<Rightarrow> bool" where
  "os_ok env \<longleftrightarrow> (\<forall>u p. os_pipe env u = Some p \<longrightarrow> 0 \<le> fst p \<and> 0 \<le> snd p)"

lemma wired_io [simp]:
  "backend_wired env (jp\<lparr>jp_io_source := a\<rparr>) = backend_wired env jp"
  "backend_wired env (jp\<lparr>jp_process_watch := b\<rparr>) = backend_wired env jp"
  "backend_wired env (started_process pid jp) = backend_wired env jp"
  "filter_wired env d n k (jp\<lparr>jp_io_source := a\<rparr>) = filter_wired env d n k jp"
  by (simp_all add: backend_wired_def filter_wired_def started_process_def)

lemma backend_started:
  assumes "start_inv s rs k" and "filterchain k \<noteq> []" and "buflen k = bufsent k"
    and "\<forall>i<length (filterchain k). filter_wired env d (length (filterchain k)) i (get_jp (Filter i) k)
        \<and> filter_up env (Filter i) (get_jp (Filter i) k)"
    and "backend_wired env (backend k)" and "backend_ready (backend k)"
    and "pd_job_impl_run_process G env printer ppd Backend (k\<lparr>pending_job_state := PD_JOB_STATE_COMPLETED\<rparr>) = Inr j"
    and "os_ok env" and "os_pipe env (Pipe_for (last_ref k) 1) \<noteq> None"
    and "d = os_open env (document_filename job)" and "s = jb_state job"
  shows "job_inv (watch_backend j) \<and> all_up G env job (watch_backend j) \<and> jb_state_reasons (watch_backend j) = jb_state_reasons k"
proof -
  let ?k = "k\<lparr>pending_job_state := PD_JOB_STATE_COMPLETED\<rparr>"
  let ?pid = "the (os_spawn env Backend)"
  obtain cs where j: "j = map_jp Backend (started_process ?pid) ?k\<lparr>jb_syscalls := cs\<rparr>"
    using assms(7) by (auto simp: pd_job_impl_run_process_def Let_def split: option.splits)
  have k: "job_inv ?k" "jb_state k = s"
    using start_inv_facts(1,2,3) [OF assms(1)] by (simp_all add: job_inv_def)
  have jc: "filterchain j = filterchain k" by (simp add: j filterchain_map_jp)
  have bj: "backend j = started_process ?pid (backend k)" by (simp add: j backend_map_jp)
  have rj: "running (backend j)" using assms(6) by (simp add: bj backend_ready_def started_process_def running_def)
  have vj: "valid_ref r j = valid_ref r k" for r by (rule valid_ref_length) (simp add: jc)
  have fj: "get_jp (Filter i) j = get_jp (Filter i) k" for i by (simp add: jc)
  have "process_ok (backend j)" using rj by (simp add: process_ok_def running_def)
  then have ij: "job_inv j"
    using k assms(2) by (simp add: job_inv_def jc) (simp add: j backend_map_jp)
  have jne: "filterchain j \<noteq> []" using assms(2) jc by simp
  note u = upd_watch_backend [OF jne]
  have L: "last_ref j = last_ref k" by (simp add: last_ref_def jc)
  let ?w = "watch_backend j"
  have lw: "length (filterchain ?w) = length (filterchain k)" using u jc by (simp add: procs_upd_def)
  have vw: "valid_ref r ?w = valid_ref r k" for r by (rule valid_ref_length) (rule lw)
  have Lw: "last_ref ?w = last_ref k" by (simp add: last_ref_def lw)
  have B: "get_jp Backend ?w = (backend j)\<lparr>jp_io_source := (jp_io_source (backend j))(0 := None, 1 := Some Message_in, 2 := Some Message_in), jp_process_watch := True\<rparr>"
    using procs_updD(1) [OF u, of Backend] by simp
  have F: "get_jp (Filter i) ?w = (if Filter i = last_ref k
      then (get_jp (Filter i) k)\<lparr>jp_io_source := (jp_io_source (get_jp (Filter i) k))(1 := Some Data_in)\<rparr>
      else get_jp (Filter i) k)" if "i < length (filterchain k)" for i
    using procs_updD(1) [OF u, of "Filter i", unfolded L fj] that jc by (auto simp del: get_jp.simps)
  let ?n = "length (filterchain k) - 1"
  have last: "last_ref k = Filter ?n" "?n < length (filterchain k)" using assms(2) by (simp_all add: last_ref_def)
  from assms(9) obtain a b where p: "os_pipe env (Pipe_for (Filter ?n) 1) = Some (a, b)" by (auto simp: last)
  with assms(8) have "0 \<le> a" by (auto simp: os_ok_def)
  then have "pipe_rd env (Pipe_for (Filter ?n) 1) \<noteq> -1" using p by (simp add: pipe_rd_def)
  moreover have "filter_wired env d (length (filterchain k)) ?n (get_jp (Filter ?n) k)" "filter_up env (Filter ?n) (get_jp (Filter ?n) k)"
    using assms(4) last(2) by blast+
  ultimately have live: "jp_channel (get_jp (Filter ?n) k) 1 = Chan_live"
    using last(2) by (simp add: filter_wired_def filter_up_def del: get_jp.simps)
  have up: "running (get_jp r ?w) \<and> jp_process_watch (get_jp r ?w) \<and> jp_pid (get_jp r ?w) = the (os_spawn env r)"
    if "valid_ref r k" for r
  proof (cases r)
    case Backend
    have "get_jp r ?w = (backend j)\<lparr>jp_io_source := (jp_io_source (backend j))(0 := None, 1 := Some Message_in, 2 := Some Message_in), jp_process_watch := True\<rparr>"
      using B Backend by simp
    then show ?thesis using rj Backend by (simp add: bj started_process_def)
  next
    case (Filter i)
    with that have i: "i < length (filterchain k)" by simp
    with assms(4) have "filter_up env (Filter i) (get_jp (Filter i) k)" by blast
    with F [OF i] show ?thesis unfolding Filter by (cases "Filter i = last_ref k") (simp_all add: filter_up_def del: get_jp.simps)
  qed
  have io: "src (Filter i) x ?w = (if i = ?n \<and> x = 1 then Some Data_in else if x = 2 then Some Message_in else None)"
    if "i < length (filterchain k)" for i x
    using F [OF that] assms(4) that unfolding last by (auto simp: filter_up_def simp del: get_jp.simps)
  have iob: "src Backend x ?w = (if x = 1 \<or> x = 2 then Some Message_in else None)" for x
    using assms(6) unfolding B by (simp add: bj backend_ready_def started_process_def)
  have "pump_ready ?w"
    unfolding pump_ready_def Lw vw
  proof (intro conjI allI impI)
    show "filterchain ?w \<noteq> []" using lw assms(2) by auto
    show "length (buffer ?w) = 1024" "buflen ?w \<le> 1024" using ij by (simp_all add: job_inv_def)
    show "buflen ?w = bufsent ?w" using assms(3) by (simp add: j)
    show "src (last_ref k) STDOUT_FILENO ?w = Some Data_in" using last io by simp
    show "chan (last_ref k) STDOUT_FILENO ?w = Chan_live" using live F [OF last(2)] last(1) by simp
    show "src Backend STDIN_FILENO ?w = None" unfolding iob by simp
    fix r assume r: "valid_ref r k"
    then show "src r STDIN_FILENO ?w \<noteq> Some Data_out"
      using io iob by (cases r) (simp_all del: get_jp.simps)
    show "src r STDOUT_FILENO ?w \<noteq> Some Data_in" if "r \<noteq> last_ref k"
      using io iob r that last(1) by (cases r) (simp_all del: get_jp.simps)
  qed
  moreover have "backend_wired env (backend ?w)" using B assms(5) by (simp add: bj)
  moreover have "filter_wired env d (length (filterchain k)) i (get_jp (Filter i) ?w)" if "i < length (filterchain k)" for i
  proof -
    have "filter_wired env d (length (filterchain k)) i (get_jp (Filter i) k)" using assms(4) that by blast
    then show ?thesis unfolding F [OF that] by (metis wired_io(4))
  qed
  moreover have "jb_state j = s" "pending_job_state j = PD_JOB_STATE_COMPLETED" "jb_state_reasons j = jb_state_reasons k"
    using k(2) by (simp_all add: j)
  ultimately show ?thesis
    using job_inv_watch_backend [OF ij jne rj] up assms(10,11)
    unfolding all_up_def lw vw by simp
qed

definition startable :: "job \<Rightarrow> bool" where
  "startable job \<longleftrightarrow> job_inv job \<and> filterchain job = [] \<and> fresh_process (backend job) \<and> buflen job = bufsent job
     \<and> jb_state job \<noteq> PD_JOB_STATE_ABORTED
     \<and> ''job-outgoing'' \<notin> set (jb_state_reasons job) \<and> ''job-transforming'' \<notin> set (jb_state_reasons job)"

text \<open>Every call to the system succeeds, and the printer has a driver with its two fields.\<close>

definition granted :: "os_env \<Rightarrow> printer \<Rightarrow> bool" where
  "granted env printer \<longleftrightarrow> (\<forall>u. os_pipe env u \<noteq> None) \<and> os_socketpair env \<noteq> None \<and> (\<forall>r. os_spawn env r \<noteq> None)
     \<and> (\<forall>f. os_open env f \<noteq> -1) \<and> prn_driver printer \<noteq> None
     \<and> prn_final_content_type printer \<noteq> None \<and> prn_final_filter printer \<noteq> None"

fun goes_on :: "stage \<Rightarrow> bool" where
  "goes_on (Inl job) \<longleftrightarrow> False"
| "goes_on (Inr job) \<longleftrightarrow> True"

lemma goes_on_bind: "goes_on s \<Longrightarrow> (\<And>j. goes_on (f j)) \<Longrightarrow> goes_on (stage_bind s f)"
  by (cases s) simp_all

lemma goes_on_all: "(\<And>x j. goes_on (f x j)) \<Longrightarrow> goes_on (stage_all f xs job)"
  by (induction xs arbitrary: job) (auto intro: goes_on_bind)

lemma grantedD:
  assumes "granted env prn"
  shows "\<exists>p0 p1. os_pipe env u = Some (p0, p1)" and "\<exists>pid. os_spawn env r = Some pid"
    and "\<exists>d. prn_driver prn = Some d"
  using assms unfolding granted_def by (metis not_Some_eq surj_pair)+

lemma granted_run: "granted env prn \<Longrightarrow> goes_on (pd_job_impl_run_process G env (Some prn) ppd r job)"
  using grantedD(2) [of env prn r] grantedD(3) [of env prn]
  by (auto simp: pd_job_impl_run_process_def process_argv_def Let_def)

lemma granted_pipeline: "granted env prn \<Longrightarrow> goes_on (pipeline G env prn d job)"
  unfolding pipeline_def
proof (intro goes_on_bind)
  assume g: "granted env prn"
  have p: "goes_on (setup_pipe_for env d x r fd out j)" for x r fd out j
    using grantedD(1) [OF g, of "Pipe_for r fd"] by (auto simp: setup_pipe_for_def pd_job_impl_create_pipe_for_def)
  show "goes_on (setup_chain env prn d job)"
    using g by (auto simp: granted_def setup_chain_def Let_def pd_printer_impl_dup_final_content_type_def)
  show "goes_on (setup_backend_pipes env d j)" for j
    unfolding setup_backend_pipes_def by (rule goes_on_all) (simp add: p split: prod.split)
  show "goes_on (setup_back_channel env j)" for j
    using grantedD(1) [OF g, of Pipe_back] by (auto simp: setup_back_channel_def Let_def)
  show "goes_on (setup_side_channel env j)" for j
    using g by (auto simp: granted_def setup_side_channel_def Let_def split: option.splits)
  show "goes_on (setup_stderr_pipes env d j)" for j
    unfolding setup_stderr_pipes_def by (rule goes_on_all) (rule p)
  have "goes_on (pipe_between env d k j)" for k j
    using grantedD(1) [OF g, of "Pipe_after k"] by (auto simp: pipe_between_def)
  then show "goes_on (setup_filter_pipes env d j)" for j
    unfolding setup_filter_pipes_def by (rule goes_on_all)
  show "goes_on (setup_ends env d j)" for j
    by (simp add: setup_ends_def Let_def p)
  show "goes_on (run_chain G env (Some prn) j)" for j
    unfolding run_chain_def Let_def by (rule goes_on_all) (rule granted_run [OF g])
  show "goes_on (watch_chain j)" for j by (simp add: watch_chain_def Let_def)
qed

lemma granted_start_stage: "granted env prn \<Longrightarrow> goes_on (start_stage G env (Some prn) job)"
  by (simp add: start_stage_def Let_def granted_pipeline) (simp add: granted_def)

lemma start_sending_cases:
  assumes "startable job" and "os_ok env" and e: "j = pd_job_impl_start_sending G env printer job"
  shows "job_inv j \<and> ''job-outgoing'' \<in> set (jb_state_reasons j)
    \<and> (jb_state j = PD_JOB_STATE_ABORTED \<and> \<not> jp_started (backend j) \<or> all_up G env job j)
    \<and> (printer = Some prn \<and> granted env prn \<longrightarrow> all_up G env job j)
    \<and> jb_state_reasons j \<in> {jb_state_reasons job @ [''job-outgoing''],
          reasons_add ''job-transforming'' (jb_state_reasons job @ [''job-outgoing''])}"
proof -
  let ?job1 = "pd_job_impl_add_state_reason job ''job-outgoing''"
  let ?rs = "jb_state_reasons job @ [''job-outgoing'']"
  have J: "job_inv ?job1" "filterchain ?job1 = []" "fresh_process (backend ?job1)" "buflen ?job1 = bufsent ?job1"
    "jb_state_reasons ?job1 = ?rs" "jb_state ?job1 = jb_state job" "document_filename ?job1 = document_filename job"
    using assms(1) job_reasons.reasons_after_add [of job "''job-outgoing''"]
    by (simp_all add: startable_def) (simp_all add: job_prop_defs)
  have rs: "''job-outgoing'' \<in> set (reasons_add ''job-transforming'' ?rs)"
    using assms(1) by (simp add: startable_def)
  note si = start_stage_inv [OF J(1-4), of G env printer, unfolded J(5,6)]
  have sp: "pd_job_impl_start_processing G env printer ?job1 = stage_result (start_stage G env printer ?job1)"
    by (rule start_processing_stage [OF J(2)])
  show ?thesis
  proof (cases "start_stage G env printer ?job1")
    case (Inl k)
    with si have I: "start_inv (jb_state job) ?rs k" by simp
    note f = start_inv_facts [OF I]
    have "j = pd_job_set_state PD_JOB_STATE_ABORTED k"
      using e J(2) sp Inl by (simp add: pd_job_impl_start_sending_def Let_def)
    moreover have "\<not> (printer = Some prn \<and> granted env prn)" using granted_start_stage [of env prn G ?job1] Inl by auto
    ultimately show ?thesis using f rs by (auto simp: pd_job_set_state_def job_inv_def)
  next
    case (Inr k)
    with si have I: "start_inv (jb_state job) ?rs k" by simp
    note f = start_inv_facts [OF I]
    from start_stage_processes [OF Inr J(2,3), unfolded J(7)] obtain d where
      d: "filterchain k \<noteq> []" "d = os_open env (document_filename job)"
        "\<forall>i<length (filterchain k). filter_wired env d (length (filterchain k)) i (get_jp (Filter i) k)
          \<and> filter_up env (Filter i) (get_jp (Filter i) k)"
        "backend_wired env (backend k)" "backend_ready (backend k)" "os_pipe env (Pipe_for (last_ref k) 1) \<noteq> None"
      by blast
    have jk: "j = stage_result (stage_bind (pd_job_impl_run_process G env printer (Option.bind printer prn_driver) Backend
        (k\<lparr>pending_job_state := PD_JOB_STATE_COMPLETED\<rparr>)) (\<lambda>job. Inr (watch_backend job)))" (is "j = stage_result (stage_bind ?run _)")
      using e J(2) sp Inr f(3) assms(1) by (simp add: pd_job_impl_start_sending_def Let_def startable_def)
    show ?thesis
    proof (cases ?run)
      case (Inl l)
      then have "l = k\<lparr>pending_job_state := PD_JOB_STATE_COMPLETED\<rparr>"
        by (auto simp: pd_job_impl_run_process_def Let_def split: option.splits)
      moreover have "\<not> (printer = Some prn \<and> granted env prn)"
        using granted_run [of env prn G "prn_driver prn" Backend "k\<lparr>pending_job_state := PD_JOB_STATE_COMPLETED\<rparr>"] Inl by auto
      ultimately show ?thesis using Inl jk f rs by (auto simp: pd_job_set_state_def job_inv_def)
    next
      case (Inr l)
      from backend_started [OF I d(1) f(4) d(3,4,5) Inr assms(2) d(6,2) refl] Inr jk f(5) rs
      show ?thesis by auto
    qed
  qed
qed

subsection \<open>Properties\<close>

text \<open>C2: Starting a job that was never started either aborts it, with the backend not running, or
  brings up everything: every filter and the backend run under their process ids with a child
  watch each, the standard output of each filter is the pipe that the next one reads, the
  document is the input of the first, the daemon holds the other ends, the pump is ready, and
  the job will be COMPLETED when all processes have exited. When the system grants every call
  and the printer has a driver, everything comes up. In every case the job keeps the
  job-outgoing reason and its invariant.\<close>

theorem start_sending_outcome:
  assumes "startable job" and "os_ok env"
  shows "\<exists>j. pd_job_impl_start_sending G env printer job = j \<and> job_inv j
    \<and> ''job-outgoing'' \<in> set (jb_state_reasons j)
    \<and> (jb_state j = PD_JOB_STATE_ABORTED \<and> \<not> jp_started (backend j) \<or> all_up G env job j)
    \<and> (printer = Some prn \<and> granted env prn \<longrightarrow> all_up G env job j)"
  using start_sending_cases [OF assms refl] by blast

definition sample_env :: os_env where
  "sample_env = \<lparr>os_open = (\<lambda>_. 7), os_pipe = (\<lambda>_. Some (8, 9)), os_socketpair = Some (10, 11),
     os_spawn = (\<lambda>r. Some 100), os_uninit_type = None, os_uninit_filter = None\<rparr>"

definition sample_printer :: printer where
  "sample_printer = (pd_printer_impl_init ''n'' [] [] None)\<lparr>prn_device_uris := [''file:/dev/null''],
     prn_driver := Some ''a.ppd'', prn_final_content_type := Some ''image/png'', prn_final_filter := Some ''-''\<rparr>"

lemma sample_startable: "startable (pd_job_impl_init 1 ''doc'' [] ''/p'')" "os_ok sample_env"
  using job_inv_init by (simp_all add: startable_def os_ok_def sample_env_def) (simp_all add: pd_job_impl_init_def)

theorem start_sending_outcome_witness:
  "all_up glib_doc sample_env (pd_job_impl_init 1 ''doc'' [] ''/p'')
     (pd_job_impl_start_sending glib_doc sample_env (Some sample_printer) (pd_job_impl_init 1 ''doc'' [] ''/p''))"
  using start_sending_outcome [OF sample_startable, of glib_doc "Some sample_printer" sample_printer]
  by (simp add: granted_def sample_env_def) (simp add: sample_printer_def pd_printer_impl_init_def)

end
