(* ===== verification/Pd_Job_Child.thy ===== *)
theory Pd_Job_Child
  imports Pd_Job_Spawn
begin

text \<open>
  src/pd-job-impl.c, part four: what runs in the child process between fork and exec
  (pd_job_impl_process_setup), and the child that writes the output to a file
  (run_file_output). The descriptor table of the child maps a descriptor to an open file.
\<close>

subsection \<open>pd_job_impl_process_setup\<close>

type_synonym fd_table = "int \<Rightarrow> nat option"

text \<open>dup2 fails, and changes nothing, when the old descriptor is not open.\<close>

definition dup2 :: "int \<Rightarrow> int \<Rightarrow> fd_table \<Rightarrow> fd_table" where
  "dup2 old_fd new_fd t = (if t old_fd = None then t else t(new_fd := t old_fd))"

definition close_in :: "int \<Rightarrow> fd_table \<Rightarrow> fd_table" where
  "close_in fd t = t(fd := None)"

definition close_parent_end :: "(nat \<Rightarrow> int) \<Rightarrow> nat \<Rightarrow> fd_table \<Rightarrow> fd_table" where
  "close_parent_end p i t = (if p i \<noteq> -1 then close_in (p i) t else t)"

definition avoid_clash :: "nat \<Rightarrow> (nat \<Rightarrow> int) \<times> fd_table \<Rightarrow> (nat \<Rightarrow> int) \<times> fd_table" where
  "avoid_clash i = (\<lambda>(c, t).
     if c i < int PD_FD_MAX \<and> c i \<noteq> int i
     then (c(i := int (PD_FD_MAX + i)), close_in (c i) (dup2 (c i) (int (PD_FD_MAX + i)) t))
     else (c, t))"

definition set_standard :: "(nat \<Rightarrow> int) \<Rightarrow> nat \<Rightarrow> fd_table \<Rightarrow> fd_table" where
  "set_standard c i t = (if c i \<noteq> -1 \<and> c i \<noteq> int i then close_in (c i) (dup2 (c i) (int i) t) else t)"

definition pd_job_impl_process_setup :: "pd_job_process \<Rightarrow> fd_table \<Rightarrow> fd_table" where
  "pd_job_impl_process_setup jp t0 =
     (let t1 = fold (close_parent_end (jp_parent_fd jp)) [0..<PD_FD_MAX] t0;
          (c, t2) = fold avoid_clash [0..<PD_FD_MAX] (jp_child_fd jp, t1) in
      fold (set_standard c) [0..<PD_FD_MAX] t2)"

subsection \<open>run_file_output\<close>

text \<open>
  The options after the question mark of the URI: segments between ampersands, each a name
  with an optional value; the loop ends at the end of the string, also when that follows an
  ampersand. A segment that cannot be unescaped is skipped.
\<close>

definition G_MAXUINT :: nat where
  "G_MAXUINT = 2 ^ 32 - 1"

definition file_option :: "glib \<Rightarrow> string \<Rightarrow> nat \<Rightarrow> nat" where
  "file_option G segment delay =
     (case g_uri_unescape_segment G segment of
        None \<Rightarrow> delay
      | Some opt \<Rightarrow>
          (let (name, val) = (case strchr opt CHR ''='' of
                 None \<Rightarrow> (opt, ''true'')
               | Some v \<Rightarrow> (take (length opt - length v) opt, tl v)) in
           if name = ''wait''
           then (let d = g_ascii_strtoull G val in if d > G_MAXUINT then G_MAXUINT else d)
           else delay))"

function file_options :: "glib \<Rightarrow> string \<Rightarrow> nat \<Rightarrow> nat" where
  "file_options G option delay =
     (if option = [] then delay
      else (case strchr option CHR ''&'' of
              None \<Rightarrow> file_option G option delay
            | Some next_option \<Rightarrow>
                file_options G (tl next_option)
                  (file_option G (take (length option - length next_option) option) delay)))"
  by auto
termination
proof (relation "measure (\<lambda>(G, s, d). length s)")
  fix option delay next_option
  assume "strchr option CHR ''&'' = Some next_option"
  then have "dropWhile (\<lambda>d. d \<noteq> CHR ''&'') option = next_option" "next_option \<noteq> []"
    by (auto simp: strchr_def split: list.splits)
  then have "length (tl next_option) < length option"
    by (metis Nitpick.size_list_simp(2) length_dropWhile_le lessI order_less_le_trans)
  then show "((G, tl next_option, file_option G (take (length option - length next_option) option) delay), G, option, delay)
      \<in> measure (\<lambda>(G, s, d). length s)" for G by simp
qed simp

declare file_options.simps [simp del]

text \<open>The URI of the file and the delay in seconds.\<close>

definition file_uri_options :: "glib \<Rightarrow> string \<Rightarrow> string \<times> nat" where
  "file_uri_options G uri =
     (case strchr uri CHR ''?'' of
        None \<Rightarrow> (uri, 0)
      | Some options \<Rightarrow> (take (length uri - length options) uri, file_options G (tl options) 0))"

text \<open>The environment is searched for the first entry that begins with DEVICE_URI=.\<close>

definition device_uri_of :: "string list \<Rightarrow> string option" where
  "device_uri_of envp =
     map_option (drop 11) (List.find (\<lambda>e. strncmp_eq e ''DEVICE_URI='' 11) envp)"

text \<open>What the calls of GIO return in the child.\<close>

record file_env =
  fe_open :: "string \<Rightarrow> bool"
  fe_splice :: bool
  fe_close_output :: bool
  fe_close_input :: bool

text \<open>The file written, the seconds slept and the exit status of the child.\<close>

definition run_file_output :: "glib \<Rightarrow> file_env \<Rightarrow> string list \<Rightarrow> string option \<times> nat \<times> nat" where
  "run_file_output G fe envp =
     (case device_uri_of envp of
        None \<Rightarrow> (None, 0, 1)
      | Some full_uri \<Rightarrow>
          (let (uri, delay) = file_uri_options G full_uri in
           if \<not> fe_open fe uri then (None, 0, 1)
           else (Some uri, delay, if fe_splice fe \<and> fe_close_output fe \<and> fe_close_input fe then 0 else 1)))"

subsection \<open>Lemmas on descriptors\<close>

lemma close_parents:
  "fold (close_parent_end p) [0..<m] t =
     (\<lambda>x. if x \<noteq> -1 \<and> (\<exists>i<m. p i = x) then None else t x)"
proof (induction m)
  case (Suc m)
  then show ?case by (auto simp: close_parent_end_def close_in_def fun_eq_iff less_Suc_eq)
qed simp

lemma avoid_nothing:
  assumes "\<forall>i<m. int PD_FD_MAX \<le> c i"
  shows "fold avoid_clash [0..<m] (c, t) = (c, t)"
  using assms by (induction m) (auto simp: avoid_clash_def)

lemma set_standards:
  assumes "\<forall>i<m. int PD_FD_MAX \<le> c i \<and> t (c i) \<noteq> None" and "inj_on c {..<m}" and "m \<le> PD_FD_MAX"
  shows "fold (set_standard c) [0..<m] t =
    (\<lambda>x. if 0 \<le> x \<and> x < int m then t (c (nat x)) else if \<exists>i<m. c i = x then None else t x)"
  using assms
proof (induction m)
  case (Suc m)
  let ?u = "fold (set_standard c) [0..<m] t"
  from Suc have IH: "?u = (\<lambda>x. if 0 \<le> x \<and> x < int m then t (c (nat x)) else if \<exists>i<m. c i = x then None else t x)"
    by (simp add: lessThan_Suc)
  have big: "int PD_FD_MAX \<le> c m" and o: "t (c m) \<noteq> None" using Suc.prems(1) by simp_all
  have other: "c i \<noteq> c m" if "i < m" for i
    using Suc.prems(2) that unfolding inj_on_def by (metis lessThan_iff less_SucI lessI nless_le)
  have um: "?u (c m) = t (c m)" using big other Suc.prems(3) by (auto simp: IH)
  have ne: "c m \<noteq> -1" "c m \<noteq> int m" using big Suc.prems(3) by simp_all
  have "fold (set_standard c) [0..<Suc m] t = (?u(int m := t (c m)))(c m := None)"
    using um o ne by (auto simp: set_standard_def dup2_def close_in_def)
  also have "\<dots> = (\<lambda>x. if 0 \<le> x \<and> x < int (Suc m) then t (c (nat x)) else if \<exists>i<Suc m. c i = x then None else t x)"
  proof
    fix x
    show "((?u(int m := t (c m)))(c m := None)) x
        = (if 0 \<le> x \<and> x < int (Suc m) then t (c (nat x)) else if \<exists>i<Suc m. c i = x then None else t x)"
      using big Suc.prems(3) ne unfolding IH by (auto simp: less_Suc_eq)
  qed
  finally show ?case .
qed (auto simp: fun_eq_iff)

subsection \<open>Lemmas on options\<close>

lemma strchr_Some:
  assumes "strchr s c = Some t"
  shows "s = takeWhile (\<lambda>d. d \<noteq> c) s @ t"
proof -
  from assms have "dropWhile (\<lambda>d. d \<noteq> c) s = t" by (auto simp: strchr_def split: list.splits)
  then show ?thesis by (metis takeWhile_dropWhile_id)
qed

lemma strchr_eq_None: "strchr s c = None \<longleftrightarrow> c \<notin> set s"
  by (induction s) (auto simp: strchr_def)

lemma take_before: "strchr s c = Some t \<Longrightarrow> take (length s - length t) s = takeWhile (\<lambda>d. d \<noteq> c) s"
proof -
  assume "strchr s c = Some t"
  from strchr_Some [OF this] have s: "s = takeWhile (\<lambda>d. d \<noteq> c) s @ t" .
  then have "length s - length t = length (takeWhile (\<lambda>d. d \<noteq> c) s)" by (metis add_diff_cancel_right' length_append)
  then show ?thesis using s by (metis append_eq_conv_conj)
qed

lemma strchr_append [simp]: "c \<notin> set s \<Longrightarrow> strchr (s @ c # t) c = Some (c # t)"
  by (induction s) (auto simp: strchr_def)

lemma strchr_None [simp]: "c \<notin> set s \<Longrightarrow> strchr s c = None"
  by (induction s) (auto simp: strchr_def)

lemma file_option_bound: "delay \<le> G_MAXUINT \<Longrightarrow> file_option G seg delay \<le> G_MAXUINT"
  by (auto simp: file_option_def Let_def split: option.splits)

lemma file_options_bound: "delay \<le> G_MAXUINT \<Longrightarrow> file_options G s delay \<le> G_MAXUINT"
proof (induction G s delay rule: file_options.induct)
  case (1 G s delay)
  then show ?case
    by (subst file_options.simps) (auto simp: file_option_bound split: option.split)
qed

subsection \<open>Properties\<close>


definition plumbed_process :: "(nat \<Rightarrow> int) \<Rightarrow> pd_job_process" where
  "plumbed_process c = pd_job_impl_init_jp\<lparr>jp_child_fd := c\<rparr>"


text \<open>The code that moves a descriptor out of the way of the standard ones can destroy another:
  when the error pipe of a child has descriptor 0 (the daemon was started without standard
  input) it is moved to 7, and if the side channel already has descriptor 7 the child runs
  without a side channel, although the descriptor was open.\<close>

theorem process_setup_clobbers:
  "pd_job_impl_process_setup (plumbed_process ((\<lambda>i. int (10 + i))(2 := 0, 4 := 7)))
     (\<lambda>fd. if fd = 0 \<or> fd = 7 \<or> 10 \<le> fd then Some (nat fd) else None) 4 = None"
  by code_simp

text \<open>C18: The options of a file URI: the delay is at most G_MAXUINT whatever the options are, the
  URI opened is what precedes the question mark, and the option wait sets the delay to its
  number, capped.\<close>

theorem file_uri_options_spec:
  "snd (file_uri_options G uri) \<le> G_MAXUINT
   \<and> fst (file_uri_options G uri) = takeWhile (\<lambda>c. c \<noteq> CHR ''?'') uri
   \<and> (CHR ''?'' \<notin> set u \<and> CHR ''&'' \<notin> set v \<and> g_uri_unescape_segment G (''wait='' @ v) = Some (''wait='' @ v) \<longrightarrow>
       file_uri_options G (u @ ''?wait='' @ v) = (u, min (g_ascii_strtoull G v) G_MAXUINT))"
proof (intro conjI impI)
  show "snd (file_uri_options G uri) \<le> G_MAXUINT"
    by (auto simp: file_uri_options_def intro: file_options_bound split: option.split)
  show "fst (file_uri_options G uri) = takeWhile (\<lambda>c. c \<noteq> CHR ''?'') uri"
  proof (cases "strchr uri CHR ''?''")
    case None
    then have e: "takeWhile (\<lambda>c. c \<noteq> CHR ''?'') uri = uri" by (intro takeWhile_neq_id) (simp add: strchr_eq_None)
    show ?thesis unfolding e using None by (simp add: file_uri_options_def)
  next
    case (Some t)
    with take_before [OF this] show ?thesis by (simp add: file_uri_options_def)
  qed
  assume a: "CHR ''?'' \<notin> set u \<and> CHR ''&'' \<notin> set v \<and> g_uri_unescape_segment G (''wait='' @ v) = Some (''wait='' @ v)"
  have e: "strchr (''wait='' @ v) CHR ''='' = Some (CHR ''='' # v)"
    using strchr_append [of "CHR ''=''" "''wait''" v] by simp
  from a have n: "strchr (''wait='' @ v) CHR ''&'' = None" by (intro strchr_None) simp
  show "file_uri_options G (u @ ''?wait='' @ v) = (u, min (g_ascii_strtoull G v) G_MAXUINT)"
    using a e n strchr_append [of "CHR ''?''" u "''wait='' @ v"]
    by (simp add: file_uri_options_def file_options.simps [of G "''wait='' @ v", simplified] file_option_def Let_def min_def)
qed

theorem file_uri_options_spec_witness:
  "file_uri_options glib_doc ''file:/tmp/out?wait=5'' = (''file:/tmp/out'', 5)"
proof -
  have "g_ascii_strtoull glib_doc ''5'' = 5"
    by (simp add: glib_doc_def doc_strtoull_def is_digit_def is_space_def digits_val_def digit_val_def)
  moreover have "g_uri_unescape_segment glib_doc s = Some s" for s by (simp add: glib_doc_def)
  ultimately have "file_uri_options glib_doc (''file:/tmp/out'' @ ''?wait='' @ ''5'') = (''file:/tmp/out'', min 5 G_MAXUINT)"
    using file_uri_options_spec [of glib_doc "[]" "''file:/tmp/out''" "''5''"] by simp
  then show ?thesis by (simp add: G_MAXUINT_def)
qed

end
