(* ===== verification/Pd_Job_Methods.thy ===== *)
theory Pd_Job_Methods
  imports Pd_Job_Child
begin

text \<open>
  src/pd-job-impl.c, the methods of a job on the bus: AddDocument, Start and Cancel, and the
  function with which the printer sets an attribute. A handler yields the job and the replies it
  sent, in order. PolicyKit and the bus are in the daemon_env and the unix_user_env of the call;
  the descriptors that came with it and the results of GIO are arguments.
\<close>

subsection \<open>pd_job_impl_set_attribute\<close>

definition pd_job_impl_set_attribute :: "glib \<Rightarrow> job \<Rightarrow> string \<Rightarrow> gvariant \<Rightarrow> job" where
  "pd_job_impl_set_attribute G job attr val =
     job\<lparr>jb_attributes := g_variant_dict_insert G (jb_attributes job) attr val\<rparr>"

subsection \<open>Who may call\<close>

text \<open>
  What the three methods begin with: the authorization check, then the comparison of the owner
  of the job with the user behind the call. g_strcmp0 finds NULL and a string different.
\<close>

definition check_caller ::
  "daemon_env \<Rightarrow> unix_user_env \<Rightarrow> string \<Rightarrow> string \<Rightarrow> job \<Rightarrow> bool \<times> reply list" where
  "check_caller d u message action_id job =
     (let (ok, rs) = pd_daemon_check_authorization_sync d message action_id [] in
      if \<not> ok then (False, rs)
      else if originating_user job \<noteq> Some (pd_get_unix_user u)
      then (False, rs @ [Reply_error PD_ERROR_FAILED ''Not job owner''])
      else (True, rs))"

subsection \<open>pd_job_impl_add_document\<close>

text \<open>
  A list of descriptors: its length, and for a handle the duplicated descriptor (or -1) with
  the error pointer of the call (True: set).
\<close>

record fd_list =
  fl_length :: nat
  fl_get :: "int \<Rightarrow> int \<times> bool"

definition note_format :: "attrs \<Rightarrow> job \<Rightarrow> job" where
  "note_format options job =
     (case lookup_string options ''document-format'' of
        None \<Rightarrow> job
      | Some m \<Rightarrow> job\<lparr>document_mimetype := Some m\<rparr>)"

definition pd_job_impl_add_document ::
  "daemon_env \<Rightarrow> unix_user_env \<Rightarrow> fd_list option \<Rightarrow> attrs \<Rightarrow> int \<Rightarrow> job \<Rightarrow> job \<times> reply list" where
  "pd_job_impl_add_document d u fds options handle job =
     (let (ok, rs) = check_caller d u ''Authentication is required to add a job''
            ''org.freedesktop.printerd.job-add'' job in
      if \<not> ok then (job, rs)
      else if document_fd job \<noteq> -1 \<or> document_filename job \<noteq> None
      then (job, rs @ [Reply_error PD_ERROR_FAILED ''No more documents allowed''])
      else
        (let job1 = note_format options job;
             bad = Reply_error PD_ERROR_FAILED ''Bad AddDocumentCall'' in
         case fds of
           None \<Rightarrow> (job1, rs @ [bad])
         | Some l \<Rightarrow>
             if fl_length l \<noteq> 1 then (job1, rs @ [bad])
             else
               (let (fd, err) = fl_get l handle;
                    job2 = job1\<lparr>document_fd := fd\<rparr> in
                if fd < 0 then (job2, rs @ [if err then Reply_gerror else bad])
                else (job2, rs @ [Reply_value Unit_value]))))"

subsection \<open>pd_job_impl_start\<close>

text \<open>
  What GIO returns: the spool file (its descriptor and name), the verdicts on copying the
  document and on closing the two streams, the first 2048 bytes read back, the guess of a
  content type with its uncertainty, and the MIME type of a content type.
\<close>

record spool_env =
  sp_open_tmp :: "(int \<times> string) option"
  sp_splice :: bool
  sp_close_output :: bool
  sp_close_input :: bool
  sp_read :: "byte list option"
  sp_guess :: "string \<Rightarrow> byte list \<Rightarrow> string \<times> bool"
  sp_mime_type :: "string \<Rightarrow> string option"

text \<open>Without a document format the default of the printer is taken.\<close>

definition default_format :: "printer option \<Rightarrow> job \<Rightarrow> job" where
  "default_format printer job =
     (case document_mimetype job of
        Some _ \<Rightarrow> job
      | None \<Rightarrow> (case printer of None \<Rightarrow> job | Some prn \<Rightarrow> note_format (prn_defaults prn) job))"

text \<open>
  Auto-sensing: the spool file is read through a stream that closes its descriptor in the end.
  The boolean is False when reading fails.
\<close>

definition sense_format :: "spool_env \<Rightarrow> int \<Rightarrow> string \<Rightarrow> job \<Rightarrow> job \<times> bool" where
  "sense_format sp spoolfd name_used job =
     (if document_mimetype job = Some ''application/octet-stream''
      then (case sp_read sp of
              None \<Rightarrow> (sys_close spoolfd job, False)
            | Some bytes \<Rightarrow>
                (let (content_type, uncertain) = sp_guess sp name_used bytes;
                     job1 = (if uncertain then job
                             else job\<lparr>document_mimetype := sp_mime_type sp content_type\<rparr>) in
                 (sys_close spoolfd job1, True)))
      else (job, True))"

text \<open>
  The descriptor of the document belongs to the input stream, which closes it on every path.
  The result is None when the assertion fails.
\<close>

definition pd_job_impl_start ::
  "daemon_env \<Rightarrow> unix_user_env \<Rightarrow> spool_env \<Rightarrow> printer option \<Rightarrow> job \<Rightarrow> (job \<times> reply list) option" where
  "pd_job_impl_start d u sp printer job =
     (let (ok, rs) = check_caller d u ''Authentication is required to add a job''
            ''org.freedesktop.printerd.job-add'' job;
          spool_error = Reply_error PD_ERROR_FAILED ''Error spooling file'' in
      if \<not> ok then Some (job, rs)
      else if document_fd job = -1 then Some (job, rs @ [Reply_error PD_ERROR_FAILED ''No document''])
      else if document_filename job \<noteq> None then None
      else case sp_open_tmp sp of
        None \<Rightarrow> Some (job, rs @ [Reply_gerror])
      | Some (spoolfd, name_used) \<Rightarrow>
          (let job1 = sys_close (document_fd job)
                 (job\<lparr>document_filename := Some name_used, document_fd := -1\<rparr>) in
           if \<not> (sp_splice sp \<and> sp_close_output sp \<and> sp_close_input sp) then Some (job1, rs @ [spool_error])
           else
             (let (job2, sensed) = sense_format sp spoolfd name_used (default_format printer job1) in
              if \<not> sensed then Some (job2, rs @ [spool_error])
              else if document_mimetype job2 \<noteq> Some ''application/pdf''
              then Some (pd_job_impl_do_cancel_with_reason PD_JOB_STATE_ABORTED ''job-aborted-by-system'' job2,
                     rs @ [Reply_error PD_ERROR_UNSUPPORTED_DOCUMENT_TYPE ''Unsupported document type''])
              else Some (pd_job_set_state PD_JOB_STATE_PENDING
                       (pd_job_impl_remove_state_reason job2 ''job-incoming''),
                     rs @ [Reply_value Unit_value]))))"

subsection \<open>pd_job_impl_cancel\<close>

definition cancel_by_user :: "job \<Rightarrow> job \<times> reply list" where
  "cancel_by_user job =
     (pd_job_impl_do_cancel_with_reason PD_JOB_STATE_CANCELED ''job-canceled-by-user'' job,
      [Reply_value Unit_value])"

definition pd_job_impl_cancel :: "daemon_env \<Rightarrow> unix_user_env \<Rightarrow> job \<Rightarrow> job \<times> reply list" where
  "pd_job_impl_cancel d u job =
     (let (ok, rs) = check_caller d u ''Authentication is required to cancel a job''
            ''org.freedesktop.printerd.job-cancel'' job in
      if \<not> ok then (job, rs)
      else
        (let (job1, rs1) =
           (if jb_state job \<in> {PD_JOB_STATE_PENDING, PD_JOB_STATE_PENDING_HELD} then cancel_by_user job
            else if jb_state job \<in> {PD_JOB_STATE_PROCESSING, PD_JOB_STATE_PROCESSING_STOPPED} then
              (let (transforming, job1) = pd_job_impl_check_job_transforming job in
               if \<not> transforming \<and> \<not> jp_started (backend job1) then cancel_by_user job1
               else if state_reason_is_set job1 ''processing-to-stop-point''
               then (job1, [Reply_error PD_ERROR_FAILED ''Already canceled''])
               else cancel_by_user job1)
            else (job, [Reply_error PD_ERROR_FAILED ''Cannot cancel completed job''])) in
         (job1, rs @ rs1)))"

subsection \<open>Lemmas\<close>

definition allowed :: "daemon_env \<Rightarrow> unix_user_env \<Rightarrow> string \<Rightarrow> job \<Rightarrow> bool" where
  "allowed d u action_id job \<longleftrightarrow>
     (is_session d \<or> authority d action_id True = Polkit_result True)
     \<and> originating_user job = Some (pd_get_unix_user u)"

lemma check_caller_allowed: "allowed d u a job \<Longrightarrow> check_caller d u msg a job = (True, [])"
  by (auto simp: allowed_def check_caller_def pd_daemon_check_authorization_sync_def)

fun is_error :: "reply \<Rightarrow> bool" where
  "is_error (Reply_value v) = False"
| "is_error (Reply_error c m) = True"
| "is_error Reply_gerror = True"

lemma check_caller_refused:
  "\<not> allowed d u a job \<Longrightarrow> \<exists>r. check_caller d u msg a job = (False, [r]) \<and> is_error r"
  by (auto simp: allowed_def check_caller_def pd_daemon_check_authorization_sync_def
      split: polkit_answer.splits bool.splits)

lemma add_document_allowed:
  assumes "allowed d u ''org.freedesktop.printerd.job-add'' job"
  shows "pd_job_impl_add_document d u fds options h job =
    (if document_fd job \<noteq> -1 \<or> document_filename job \<noteq> None
     then (job, [Reply_error PD_ERROR_FAILED ''No more documents allowed''])
     else (case fds of
        None \<Rightarrow> (note_format options job, [Reply_error PD_ERROR_FAILED ''Bad AddDocumentCall''])
      | Some l \<Rightarrow>
          if fl_length l \<noteq> 1 then (note_format options job, [Reply_error PD_ERROR_FAILED ''Bad AddDocumentCall''])
          else ((note_format options job)\<lparr>document_fd := fst (fl_get l h)\<rparr>,
            [if fst (fl_get l h) < 0
             then if snd (fl_get l h) then Reply_gerror else Reply_error PD_ERROR_FAILED ''Bad AddDocumentCall''
             else Reply_value Unit_value])))"
  by (auto simp: pd_job_impl_add_document_def check_caller_allowed [OF assms] Let_def split: option.splits prod.splits)

lemma add_document_refused:
  assumes "\<not> allowed d u ''org.freedesktop.printerd.job-add'' job"
  shows "\<exists>r. pd_job_impl_add_document d u fds options h job = (job, [r]) \<and> is_error r"
  using check_caller_refused [OF assms, of "''Authentication is required to add a job''"]
  by (auto simp: pd_job_impl_add_document_def)

lemma start_refused:
  assumes "\<not> allowed d u ''org.freedesktop.printerd.job-add'' job"
  shows "\<exists>r. pd_job_impl_start d u sp printer job = Some (job, [r]) \<and> is_error r"
  using check_caller_refused [OF assms, of "''Authentication is required to add a job''"]
  by (auto simp: pd_job_impl_start_def)

lemma cancel_refused:
  assumes "\<not> allowed d u ''org.freedesktop.printerd.job-cancel'' job"
  shows "\<exists>r. pd_job_impl_cancel d u job = (job, [r]) \<and> is_error r"
  using check_caller_refused [OF assms, of "''Authentication is required to cancel a job''"]
  by (auto simp: pd_job_impl_cancel_def)

lemma start_no_document:
  assumes "allowed d u ''org.freedesktop.printerd.job-add'' job" and "document_fd job = -1"
  shows "pd_job_impl_start d u sp printer job = Some (job, [Reply_error PD_ERROR_FAILED ''No document''])"
  using assms(2) by (simp add: pd_job_impl_start_def check_caller_allowed [OF assms(1)])

text \<open>The two frames of spooling: what it leaves alone.\<close>

lemma note_format_frame [frame, simp]:
  "jb_state (note_format a job) = jb_state job"
  "jb_state_reasons (note_format a job) = jb_state_reasons job"
  "jb_attributes (note_format a job) = jb_attributes job"
  "jb_syscalls (note_format a job) = jb_syscalls job"
  "document_fd (note_format a job) = document_fd job"
  "document_filename (note_format a job) = document_filename job"
  "job_inv (note_format a job) = job_inv job"
  by (simp_all add: note_format_def job_inv_def split: option.splits)

lemma default_format_frame [frame, simp]:
  "jb_state (default_format p job) = jb_state job"
  "jb_state_reasons (default_format p job) = jb_state_reasons job"
  "jb_attributes (default_format p job) = jb_attributes job"
  "jb_syscalls (default_format p job) = jb_syscalls job"
  "document_fd (default_format p job) = document_fd job"
  "document_filename (default_format p job) = document_filename job"
  "job_inv (default_format p job) = job_inv job"
  by (simp_all add: default_format_def split: option.splits)

lemma sys_close_frame [frame, simp]:
  "jb_state (sys_close fd job) = jb_state job"
  "jb_state_reasons (sys_close fd job) = jb_state_reasons job"
  "jb_attributes (sys_close fd job) = jb_attributes job"
  "jb_syscalls (sys_close fd job) = jb_syscalls job @ [Sys_close fd]"
  "document_fd (sys_close fd job) = document_fd job"
  "document_filename (sys_close fd job) = document_filename job"
  "document_mimetype (sys_close fd job) = document_mimetype job"
  "job_inv (sys_close fd job) = job_inv job"
  by (simp_all add: sys_close_def job_inv_def)

lemma job_inv_mimetype [simp]: "job_inv (job\<lparr>document_mimetype := m\<rparr>) = job_inv job"
  by (simp add: job_inv_def)

lemma sense_format_frame [frame, simp]:
  "jb_state (fst (sense_format sp fd n job)) = jb_state job"
  "jb_state_reasons (fst (sense_format sp fd n job)) = jb_state_reasons job"
  "jb_attributes (fst (sense_format sp fd n job)) = jb_attributes job"
  "document_fd (fst (sense_format sp fd n job)) = document_fd job"
  "document_filename (fst (sense_format sp fd n job)) = document_filename job"
  "jb_syscalls (fst (sense_format sp fd n job)) = jb_syscalls job
     @ (if document_mimetype job = Some ''application/octet-stream'' then [Sys_close fd] else [])"
  "job_inv (fst (sense_format sp fd n job)) = job_inv job"
  by (simp_all add: sense_format_def Let_def split: option.splits prod.splits)

text \<open>The rest of the job, which spooling does not touch at all.\<close>

definition unspooled :: "job \<Rightarrow> job" where
  "unspooled job = job\<lparr>document_fd := 0, document_filename := None, document_mimetype := None, jb_syscalls := []\<rparr>"

lemma unspooled_spooling [simp]:
  "unspooled (note_format a job) = unspooled job" "unspooled (default_format p job) = unspooled job"
  "unspooled (sys_close fd job) = unspooled job" "unspooled (fst (sense_format sp fd n job)) = unspooled job"
  "unspooled (job\<lparr>document_filename := f, document_fd := x\<rparr>) = unspooled job"
  by (simp_all add: unspooled_def note_format_def default_format_def sys_close_def sense_format_def Let_def
      split: option.split prod.split)

lemma unspooled_fields:
  assumes "unspooled a = unspooled b"
  shows "filterchain a = filterchain b" "backend a = backend b" "buflen a = buflen b" "bufsent a = bufsent b"
    "jb_id a = jb_id b" "jb_printer a = jb_printer b" "jb_attributes a = jb_attributes b"
    "jb_watched_engine a = jb_watched_engine b" "jb_watched_printer a = jb_watched_printer b"
    "jb_watched_reasons a = jb_watched_reasons b"
  using arg_cong [OF assms, of filterchain] arg_cong [OF assms, of backend] arg_cong [OF assms, of buflen]
    arg_cong [OF assms, of bufsent] arg_cong [OF assms, of jb_id] arg_cong [OF assms, of jb_printer]
    arg_cong [OF assms, of jb_attributes] arg_cong [OF assms, of jb_watched_engine]
    arg_cong [OF assms, of jb_watched_printer] arg_cong [OF assms, of jb_watched_reasons]
  by (simp_all add: unspooled_def)

text \<open>The document type asked for, and the one that the check for PDF sees.\<close>

definition requested_type :: "printer option \<Rightarrow> job \<Rightarrow> string option" where
  "requested_type printer job =
     (case document_mimetype job of
        Some m \<Rightarrow> Some m
      | None \<Rightarrow> Option.bind printer (\<lambda>p. lookup_string (prn_defaults p) ''document-format''))"

definition final_type :: "spool_env \<Rightarrow> string \<Rightarrow> string option \<Rightarrow> string option" where
  "final_type sp spool_name requested =
     (if requested = Some ''application/octet-stream''
      then Option.bind (sp_read sp) (\<lambda>bytes.
        if snd (sp_guess sp spool_name bytes) then requested
        else sp_mime_type sp (fst (sp_guess sp spool_name bytes)))
      else requested)"

lemma default_format_type [simp]: "document_mimetype (default_format p job) = requested_type p job"
  by (auto simp: default_format_def requested_type_def note_format_def split: option.splits)

lemma requested_type_cong [simp]:
  "requested_type p (sys_close fd job) = requested_type p job"
  "requested_type p (job\<lparr>document_filename := f, document_fd := d\<rparr>) = requested_type p job"
  by (simp_all add: requested_type_def)

lemma sense_format_type:
  "sense_format sp fd n job = (job', ok) \<Longrightarrow>
     (ok \<longleftrightarrow> \<not> (document_mimetype job = Some ''application/octet-stream'' \<and> sp_read sp = None))
     \<and> (ok \<longrightarrow> document_mimetype job' = final_type sp n (document_mimetype job))"
  by (auto simp: sense_format_def final_type_def Let_def split: option.splits prod.splits if_splits)

definition spooled :: "spool_env \<Rightarrow> string option \<Rightarrow> bool" where
  "spooled sp requested \<longleftrightarrow> sp_splice sp \<and> sp_close_output sp \<and> sp_close_input sp
     \<and> \<not> (requested = Some ''application/octet-stream'' \<and> sp_read sp = None)"

text \<open>Start for an allowed caller and a job with a document, in one equation.\<close>

definition start_result :: "spool_env \<Rightarrow> string option \<Rightarrow> string \<Rightarrow> job \<Rightarrow> job \<times> reply list" where
  "start_result sp requested spool_name job2 =
     (if \<not> spooled sp requested
      then (job2, [Reply_error PD_ERROR_FAILED ''Error spooling file''])
      else if final_type sp spool_name requested \<noteq> Some ''application/pdf''
      then (pd_job_impl_do_cancel_with_reason PD_JOB_STATE_ABORTED ''job-aborted-by-system'' job2,
            [Reply_error PD_ERROR_UNSUPPORTED_DOCUMENT_TYPE ''Unsupported document type''])
      else (pd_job_set_state PD_JOB_STATE_PENDING (pd_job_impl_remove_state_reason job2 ''job-incoming''),
            [Reply_value Unit_value]))"

lemma start_result_one_reply: "\<exists>r. snd (start_result sp requested spool_name job2) = [r]"
  by (simp add: start_result_def)

lemma start_allowed:
  assumes "allowed d u ''org.freedesktop.printerd.job-add'' job" and "job_inv job"
    and "document_fd job \<noteq> -1" and "sp_open_tmp sp = Some (spoolfd, spool_name)"
  obtains job2 where
    "pd_job_impl_start d u sp printer job = Some (start_result sp (requested_type printer job) spool_name job2)"
    and "spooled sp (requested_type printer job) \<Longrightarrow>
           document_mimetype job2 = final_type sp spool_name (requested_type printer job)"
    and "jb_state job2 = jb_state job" and "jb_state_reasons job2 = jb_state_reasons job"
    and "document_fd job2 = -1" and "document_filename job2 = Some spool_name" and "job_inv job2"
    and "unspooled job2 = unspooled job"
    and "jb_syscalls job2 = jb_syscalls job @ Sys_close (document_fd job) #
          (if sp_splice sp \<and> sp_close_output sp \<and> sp_close_input sp
              \<and> requested_type printer job = Some ''application/octet-stream'' then [Sys_close spoolfd] else [])"
proof -
  let ?j1 = "sys_close (document_fd job) (job\<lparr>document_filename := Some spool_name, document_fd := -1\<rparr>)"
  let ?io = "sp_splice sp \<and> sp_close_output sp \<and> sp_close_input sp"
  obtain j2 ok where sf: "sense_format sp spoolfd spool_name (default_format printer ?j1) = (j2, ok)" by fastforce
  note ty = sense_format_type [OF sf, simplified]
  note fr = sense_format_frame [of sp spoolfd spool_name "default_format printer ?j1", unfolded sf, simplified]
  note un = unspooled_spooling(4) [of sp spoolfd spool_name "default_format printer ?j1", unfolded sf, simplified]
  from assms(2,3) have nf: "document_filename job = None" by (simp add: job_inv_def)
  from assms(2) have "job_inv (job\<lparr>document_filename := Some spool_name, document_fd := -1\<rparr>)"
    by (simp add: job_inv_def)
  then have inv1: "job_inv ?j1" by simp
  show ?thesis
  proof (cases ?io)
    case True
    show ?thesis
    proof (rule that [of j2])
      show "pd_job_impl_start d u sp printer job = Some (start_result sp (requested_type printer job) spool_name j2)"
        using True assms(3,4) nf ty
        by (simp add: pd_job_impl_start_def check_caller_allowed [OF assms(1)] sf spooled_def start_result_def Let_def)
    qed (use fr un ty inv1 True in \<open>auto simp: spooled_def\<close>)
  next
    case False
    show ?thesis
    proof (rule that [of ?j1])
      show "pd_job_impl_start d u sp printer job = Some (start_result sp (requested_type printer job) spool_name ?j1)"
        using False assms(3,4) nf
        by (auto simp: pd_job_impl_start_def check_caller_allowed [OF assms(1)] spooled_def start_result_def Let_def)
    qed (use inv1 False in \<open>auto simp: spooled_def\<close>)
  qed
qed

lemma start_no_spool:
  assumes "allowed d u ''org.freedesktop.printerd.job-add'' job" and "job_inv job"
    and "document_fd job \<noteq> -1" and "sp_open_tmp sp = None"
  shows "pd_job_impl_start d u sp printer job = Some (job, [Reply_gerror])"
  using assms(2-4) by (simp add: pd_job_impl_start_def check_caller_allowed [OF assms(1)] job_inv_def)

text \<open>The four ways Start can go.\<close>

lemma start_cases:
  assumes "job_inv job"
  obtains (refused) r where "\<not> allowed d u ''org.freedesktop.printerd.job-add'' job"
      and "pd_job_impl_start d u sp printer job = Some (job, [r])" and "is_error r"
  | (no_document) "document_fd job = -1"
      and "pd_job_impl_start d u sp printer job = Some (job, [Reply_error PD_ERROR_FAILED ''No document''])"
  | (no_spool) "pd_job_impl_start d u sp printer job = Some (job, [Reply_gerror])"
  | (started) spoolfd spool_name where "allowed d u ''org.freedesktop.printerd.job-add'' job"
      and "document_fd job \<noteq> -1" and "sp_open_tmp sp = Some (spoolfd, spool_name)"
proof (cases "allowed d u ''org.freedesktop.printerd.job-add'' job")
  case False
  then show ?thesis using start_refused [OF False, of sp printer] refused by blast
next
  case True
  show ?thesis
  proof (cases "document_fd job = -1")
    case no: True
    then show ?thesis using start_no_document [OF True no] no_document by blast
  next
    case False
    then show ?thesis
      using start_no_spool [OF True assms False] no_spool started True by (cases "sp_open_tmp sp") auto
  qed
qed

lemma cancel_cases:
  obtains (now) "pd_job_impl_do_cancel_with_reason s r job = pd_job_set_state s (pd_job_impl_add_state_reason job r)"
  | (at_once) "pd_job_impl_do_cancel_with_reason s r job =
      pd_job_set_state s (snd (pd_job_impl_check_job_transforming (pd_job_impl_add_state_reason job r)))"
  | (again) "pd_job_impl_do_cancel_with_reason s r job =
      snd (pd_job_impl_check_job_transforming (pd_job_impl_add_state_reason job r))"
  | (killing) j where "pd_job_impl_do_cancel_with_reason s r job = j\<lparr>jb_syscalls := jb_syscalls job @ kills job\<rparr>"
      and "j = stop_backend_input (pd_job_impl_add_state_reason
        (snd (pd_job_impl_check_job_transforming (pd_job_impl_add_state_reason job r))\<lparr>pending_job_state := s\<rparr>)
          ''processing-to-stop-point'')" and "can_cancel_processing job"
  | (ended) "pd_job_impl_do_cancel_with_reason s r job = pd_job_impl_add_state_reason job r"
proof -
  let ?j = "pd_job_impl_add_state_reason job r"
  obtain t j1 where c: "pd_job_impl_check_job_transforming ?j = (t, j1)" by fastforce
  then have j1: "j1 = snd (pd_job_impl_check_job_transforming ?j)" by simp
  have t: "t = list_ex running (filterchain job)" using check_transforming_frame(9) [of ?j] c by simp
  show ?thesis
  proof (cases "jb_state job \<in> {PD_JOB_STATE_PROCESSING, PD_JOB_STATE_PROCESSING_STOPPED}")
    case False
    then show ?thesis
      using now ended by (cases "jb_state job \<in> {PD_JOB_STATE_PENDING, PD_JOB_STATE_PENDING_HELD}")
        (simp_all add: pd_job_impl_do_cancel_with_reason_def)
  next
    case True
    then have p: "jb_state job \<notin> {PD_JOB_STATE_PENDING, PD_JOB_STATE_PENDING_HELD}" by auto
    show ?thesis
    proof (cases "can_cancel_processing job
        \<and> ''processing-to-stop-point'' \<notin> set (jb_state_reasons (pd_job_impl_add_state_reason job r))")
      case yes: True
      then have y: "can_cancel_processing job"
        "''processing-to-stop-point'' \<notin> set (jb_state_reasons (pd_job_impl_add_state_reason job r))" by blast+
      show ?thesis by (rule killing [OF _ refl y(1)]) (simp add: cancel_processing_step [OF y] Let_def)
    next
      case no: False
      then have "pd_job_impl_do_cancel_with_reason s r job =
          (if \<not> t \<and> \<not> jp_started (backend job) then pd_job_set_state s j1 else j1)"
      proof -
        have q: "jb_state ?j \<notin> {PD_JOB_STATE_PENDING, PD_JOB_STATE_PENDING_HELD}"
          "jb_state ?j \<in> {PD_JOB_STATE_PROCESSING, PD_JOB_STATE_PROCESSING_STOPPED}"
          using p True by simp_all
        from no True have "t \<or> jp_started (backend job) \<Longrightarrow> state_reason_is_set j1 ''processing-to-stop-point''"
          by (simp add: t j1 state_reason_is_set_iff) blast
        moreover have "backend j1 = backend job" by (simp add: j1)
        ultimately show ?thesis
          unfolding pd_job_impl_do_cancel_with_reason_def Let_def c split_conv if_not_P [OF q(1)] if_P [OF q(2)]
          by auto
      qed
      then show ?thesis using at_once again unfolding j1 by (auto split: if_splits)
    qed
  qed
qed

lemma check_transforming_document [simp]:
  "document_filename (snd (pd_job_impl_check_job_transforming job)) = document_filename job"
  "document_fd (snd (pd_job_impl_check_job_transforming job)) = document_fd job"
  by (simp_all add: pd_job_impl_check_job_transforming_def job_prop_defs)

lemma reasons_document [simp]:
  "document_filename (pd_job_impl_add_state_reason job x) = document_filename job"
  "document_fd (pd_job_impl_add_state_reason job x) = document_fd job"
  "document_filename (pd_job_impl_remove_state_reason job x) = document_filename job"
  "document_fd (pd_job_impl_remove_state_reason job x) = document_fd job"
  "document_filename (pd_job_set_state s job) = document_filename job"
  "document_fd (pd_job_set_state s job) = document_fd job"
  "document_mimetype (pd_job_impl_remove_state_reason job x) = document_mimetype job"
  "document_mimetype (pd_job_set_state s job) = document_mimetype job"
  "jb_state_reasons (pd_job_set_state s job) = jb_state_reasons job"
  by (simp_all add: job_prop_defs)

lemma stop_input_document [simp]:
  "document_filename (stop_backend_input job) = document_filename job"
  "document_fd (stop_backend_input job) = document_fd job"
  by (simp_all add: stop_backend_input_def)

lemma cancel_document [simp]:
  "document_filename (pd_job_impl_do_cancel_with_reason s r job) = document_filename job"
  "document_fd (pd_job_impl_do_cancel_with_reason s r job) = document_fd job"
  by (cases rule: cancel_cases [of s r job]; simp)+

lemma cancel_closes_nothing:
  "Sys_close fd \<in> set (jb_syscalls (pd_job_impl_do_cancel_with_reason s r job)) \<longleftrightarrow> Sys_close fd \<in> set (jb_syscalls job)"
  by (cases rule: cancel_cases [of s r job]) (auto simp: kills_def)

lemma cancel_state:
  "jb_state (pd_job_impl_do_cancel_with_reason s r job) \<in> {jb_state job, s}"
  by (cases rule: cancel_cases [of s r job]) auto

lemma job_inv_start:
  assumes "job_inv job" and "pd_job_impl_start d u sp printer job = Some (job', rs)"
  shows "job_inv job'"
  using assms(1)
proof (cases rule: start_cases [where d = d and u = u and sp = sp and printer = printer])
  case (started spoolfd spool_name)
  obtain job2 where "pd_job_impl_start d u sp printer job
      = Some (start_result sp (requested_type printer job) spool_name job2)" and "job_inv job2"
    by (rule start_allowed [OF started(1) assms(1) started(2,3)])
  with assms(2) show ?thesis by (auto simp: start_result_def job_inv_cancel split: if_splits)
qed (use assms in auto)

lemma job_inv_add_document:
  "job_inv job \<Longrightarrow> job_inv (fst (pd_job_impl_add_document d u fds options h job))"
proof (cases "allowed d u ''org.freedesktop.printerd.job-add'' job")
  case True
  assume i: "job_inv job"
  have "job_inv (j\<lparr>document_fd := x\<rparr>)" if "job_inv j" "document_filename j = None" for j x
    using that by (simp add: job_inv_def)
  with i show ?thesis by (auto simp: add_document_allowed [OF True] split: option.splits)
next
  case False
  assume "job_inv job"
  with add_document_refused [OF False, of fds options h] show ?thesis by auto
qed

lemma cancel_allowed:
  assumes "allowed d u ''org.freedesktop.printerd.job-cancel'' job"
  shows "pd_job_impl_cancel d u job =
    (if jb_state job \<in> {PD_JOB_STATE_PENDING, PD_JOB_STATE_PENDING_HELD} then cancel_by_user job
     else if jb_state job \<in> {PD_JOB_STATE_PROCESSING, PD_JOB_STATE_PROCESSING_STOPPED} then
       (if can_cancel_processing job \<and> ''processing-to-stop-point'' \<in> set (jb_state_reasons job)
        then (snd (pd_job_impl_check_job_transforming job), [Reply_error PD_ERROR_FAILED ''Already canceled''])
        else cancel_by_user (snd (pd_job_impl_check_job_transforming job)))
     else (job, [Reply_error PD_ERROR_FAILED ''Cannot cancel completed job'']))"
proof -
  obtain t j where tj: "pd_job_impl_check_job_transforming job = (t, j)" by fastforce
  with check_transforming_frame(9,4) [of job] check_transforming_reasons [of "''processing-to-stop-point''" job]
  have "t = list_ex running (filterchain job)" "backend j = backend job"
    "state_reason_is_set j ''processing-to-stop-point'' \<longleftrightarrow> ''processing-to-stop-point'' \<in> set (jb_state_reasons job)"
    by (simp_all add: state_reason_is_set_iff)
  then show ?thesis
    by (simp add: pd_job_impl_cancel_def check_caller_allowed [OF assms] tj split_beta)
qed

lemma job_inv_cancel_method:
  assumes "job_inv job" shows "job_inv (fst (pd_job_impl_cancel d u job))"
proof (cases "allowed d u ''org.freedesktop.printerd.job-cancel'' job")
  case True
  have "job_inv (fst (cancel_by_user j))" if "job_inv j" for j
    using that by (simp add: cancel_by_user_def job_inv_cancel)
  with assms show ?thesis by (simp add: cancel_allowed [OF True])
next
  case False
  with cancel_refused [OF False] assms show ?thesis by auto
qed

lemma job_inv_set_attribute [simp]: "job_inv (pd_job_impl_set_attribute G job k v) = job_inv job"
  by (simp add: pd_job_impl_set_attribute_def job_inv_def)

subsection \<open>Properties\<close>

text \<open>C24: The three methods of a job answer exactly once, and only an authorized caller who owns
  the job gets anything else than an error or changes the job at all.\<close>

theorem job_methods_guarded:
  assumes "job_inv job"
  shows "(\<exists>job' r. pd_job_impl_add_document d u fds options h job = (job', [r])
      \<and> (job' \<noteq> job \<or> \<not> is_error r \<longrightarrow> allowed d u ''org.freedesktop.printerd.job-add'' job))
    \<and> (\<exists>job' r. pd_job_impl_start d u sp printer job = Some (job', [r])
      \<and> (job' \<noteq> job \<or> \<not> is_error r \<longrightarrow> allowed d u ''org.freedesktop.printerd.job-add'' job))
    \<and> (\<exists>job' r. pd_job_impl_cancel d u job = (job', [r])
      \<and> (job' \<noteq> job \<or> \<not> is_error r \<longrightarrow> allowed d u ''org.freedesktop.printerd.job-cancel'' job))"
proof (intro conjI)
  show "\<exists>job' r. pd_job_impl_add_document d u fds options h job = (job', [r])
      \<and> (job' \<noteq> job \<or> \<not> is_error r \<longrightarrow> allowed d u ''org.freedesktop.printerd.job-add'' job)"
    using add_document_refused [of d u job fds options h] add_document_allowed [of d u job fds options h]
    by (cases "allowed d u ''org.freedesktop.printerd.job-add'' job") (auto split: option.splits)
  show "\<exists>job' r. pd_job_impl_start d u sp printer job = Some (job', [r])
      \<and> (job' \<noteq> job \<or> \<not> is_error r \<longrightarrow> allowed d u ''org.freedesktop.printerd.job-add'' job)"
    using assms
  proof (cases rule: start_cases [where d = d and u = u and sp = sp and printer = printer])
    case (started spoolfd spool_name)
    obtain job2 where "pd_job_impl_start d u sp printer job
        = Some (start_result sp (requested_type printer job) spool_name job2)"
      by (rule start_allowed [OF started(1) assms started(2,3)])
    moreover obtain job' r where "start_result sp (requested_type printer job) spool_name job2 = (job', [r])"
      using start_result_one_reply by (metis prod.collapse)
    ultimately show ?thesis using started(1) by simp
  qed auto
  show "\<exists>job' r. pd_job_impl_cancel d u job = (job', [r])
      \<and> (job' \<noteq> job \<or> \<not> is_error r \<longrightarrow> allowed d u ''org.freedesktop.printerd.job-cancel'' job)"
    using cancel_refused [of d u job] cancel_allowed [of d u job]
    by (cases "allowed d u ''org.freedesktop.printerd.job-cancel'' job") (auto simp: cancel_by_user_def)
qed

text \<open>The session bus and a caller called lp; a job of lp.\<close>

definition lp_daemon :: daemon_env where
  "lp_daemon = \<lparr>is_session = True, authority = (\<lambda>a i. Polkit_error)\<rparr>"

definition lp_user :: "string \<Rightarrow> unix_user_env" where
  "lp_user who = \<lparr>uu_proxy = True, uu_reply = Some [GV_uint32 4], uu_getpwuid = (\<lambda>n. Some who)\<rparr>"

definition lp_job :: job where
  "lp_job = (pd_job_impl_init 1 ''n'' [(''job-originating-user-name'', GV_string ''lp'')] ''/p'')"

lemma lp_simps [simp]:
  "pd_get_unix_user (lp_user who) = who" "is_session lp_daemon"
  "originating_user lp_job = Some ''lp''" "job_inv lp_job" "document_fd lp_job = -1"
  "document_filename lp_job = None" "document_mimetype lp_job = None" "jb_state lp_job = PD_JOB_STATE_PENDING_HELD"
  "jb_state_reasons lp_job = [''job-incoming'']" "jb_syscalls lp_job = []" "filterchain lp_job = []"
  "jp_started (backend lp_job) = False"
  "allowed lp_daemon (lp_user who) a lp_job \<longleftrightarrow> who = ''lp''"
  by (auto simp: pd_get_unix_user_def lp_user_def lp_daemon_def originating_user_def allowed_def job_inv_init lp_job_def)
    (simp_all add: pd_job_impl_init_def pd_job_impl_init_jp_def variant_string_def)

definition lp_spool :: spool_env where
  "lp_spool = \<lparr>sp_open_tmp = Some (9, ''/tmp/spool''), sp_splice = True, sp_close_output = True,
     sp_close_input = True, sp_read = Some [], sp_guess = (\<lambda>f bs. (''pdf'', False)),
     sp_mime_type = (\<lambda>t. Some (''application/'' @ t))\<rparr>"

theorem job_methods_guarded_witness:
  "fst (pd_job_impl_cancel lp_daemon (lp_user ''root'') lp_job) = lp_job
    \<and> length (snd (pd_job_impl_cancel lp_daemon (lp_user ''root'') lp_job)) = 1"
  using job_methods_guarded [of lp_job lp_daemon "lp_user ''root''" None "[]" 0 lp_spool None] by auto


definition lp_canceled :: job where
  "lp_canceled = lp_job\<lparr>jb_state := PD_JOB_STATE_CANCELED, document_fd := 7\<rparr>"

lemma lp_canceled_simps [simp]:
  "allowed lp_daemon (lp_user ''lp'') a lp_canceled" "job_inv lp_canceled" "document_fd lp_canceled = 7"
  "jb_state lp_canceled = PD_JOB_STATE_CANCELED" "jb_syscalls lp_canceled = []"
  "requested_type (Some (pd_printer_impl_init n1 n2 n3 n4)) lp_canceled = Some ''application/octet-stream''"
proof -
  have "originating_user lp_canceled = originating_user lp_job" by (simp add: lp_canceled_def originating_user_def)
  then show "allowed lp_daemon (lp_user ''lp'') a lp_canceled" by (simp add: allowed_def)
  have "document_filename lp_job = None" by simp
  then show "job_inv lp_canceled" using lp_simps(4) unfolding lp_canceled_def job_inv_def by simp
qed (simp_all add: lp_canceled_def requested_type_def pd_printer_impl_init_def)

lemma lp_spool_simps [simp]:
  "sp_open_tmp lp_spool = Some (9, ''/tmp/spool'')" "spooled lp_spool r" "sp_splice lp_spool"
  "sp_close_output lp_spool" "sp_close_input lp_spool"
  "final_type lp_spool f (Some ''application/octet-stream'') = Some ''application/pdf''"
  by (simp_all add: lp_spool_def spooled_def final_type_def)


text \<open>Start closes the document but leaks the descriptor of the spool file, unless the type is
  sensed: only then is there a stream that closes it.\<close>

theorem start_leaks_spool_descriptor:
  assumes "allowed d u ''org.freedesktop.printerd.job-add'' job" and "job_inv job"
    and "document_fd job \<noteq> -1" and "sp_open_tmp sp = Some (spoolfd, spool_name)"
    and "spoolfd \<noteq> document_fd job" and "Sys_close spoolfd \<notin> set (jb_syscalls job)"
    and "pd_job_impl_start d u sp printer job = Some (job', rs)"
  shows "Sys_close (document_fd job) \<in> set (jb_syscalls job')
    \<and> (Sys_close spoolfd \<in> set (jb_syscalls job') \<longleftrightarrow>
        sp_splice sp \<and> sp_close_output sp \<and> sp_close_input sp
        \<and> requested_type printer job = Some ''application/octet-stream'')"
proof -
  obtain job2 where st: "pd_job_impl_start d u sp printer job
        = Some (start_result sp (requested_type printer job) spool_name job2)"
      and sys: "jb_syscalls job2 = jb_syscalls job @ Sys_close (document_fd job) #
          (if sp_splice sp \<and> sp_close_output sp \<and> sp_close_input sp
              \<and> requested_type printer job = Some ''application/octet-stream'' then [Sys_close spoolfd] else [])"
    by (rule start_allowed [OF assms(1-4), where printer = printer]) blast
  have "Sys_close fd \<in> set (jb_syscalls job') \<longleftrightarrow> Sys_close fd \<in> set (jb_syscalls job2)" for fd
    using st assms(7) by (auto simp: start_result_def cancel_closes_nothing split: if_splits)
  with sys assms(5,6) show ?thesis by simp
qed

theorem start_leaks_spool_descriptor_witness:
  "\<exists>job'. pd_job_impl_start lp_daemon (lp_user ''lp'') lp_spool None
      (lp_canceled\<lparr>document_mimetype := Some ''application/pdf''\<rparr>) = Some (job', [Reply_value Unit_value])
    \<and> Sys_close 9 \<notin> set (jb_syscalls job')"
proof -
  let ?job = "lp_canceled\<lparr>document_mimetype := Some ''application/pdf''\<rparr>"
  have "originating_user ?job = originating_user lp_canceled" by (simp add: originating_user_def)
  then have al: "allowed lp_daemon (lp_user ''lp'') a ?job" for a
    using lp_canceled_simps(1) by (simp add: allowed_def)
  have inv: "job_inv ?job" by simp
  have r: "requested_type None ?job = Some ''application/pdf''" by (simp add: requested_type_def)
  obtain job2 where "pd_job_impl_start lp_daemon (lp_user ''lp'') lp_spool None ?job
        = Some (start_result lp_spool (requested_type None ?job) ''/tmp/spool'' job2)"
    by (rule start_allowed [OF al inv, where spoolfd = 9 and sp = lp_spool]) simp_all
  moreover have "final_type lp_spool f (Some ''application/pdf'') = Some ''application/pdf''" for f
    by (simp add: final_type_def)
  ultimately obtain job' where s: "pd_job_impl_start lp_daemon (lp_user ''lp'') lp_spool None ?job
      = Some (job', [Reply_value Unit_value])"
    by (simp add: start_result_def r)
  from start_leaks_spool_descriptor [OF al inv _ _ _ _ s, of 9 "''/tmp/spool''"] s r show ?thesis by simp
qed


definition lp_fds :: fd_list where
  "lp_fds = \<lparr>fl_length = 1, fl_get = (\<lambda>h. (7, False))\<rparr>"


text \<open>C26: Cancel for the owner of a job: a waiting job, or one that is processing without any
  process yet, is CANCELED at once; one that has processes keeps its state, and those that run
  are killed, unless it was cancelled before, which is an error and kills nothing; in any other
  state there is an error and nothing changes.\<close>

theorem cancel_method_outcome:
  assumes "allowed d u ''org.freedesktop.printerd.job-cancel'' job"
    and "''job-canceled-by-user'' \<notin> set (jb_state_reasons job)"
  shows "\<exists>job' r. pd_job_impl_cancel d u job = (job', [r])
    \<and> (if jb_state job \<in> {PD_JOB_STATE_PENDING, PD_JOB_STATE_PENDING_HELD} \<or>
          jb_state job \<in> {PD_JOB_STATE_PROCESSING, PD_JOB_STATE_PROCESSING_STOPPED} \<and> \<not> can_cancel_processing job
       then r = Reply_value Unit_value \<and> jb_state job' = PD_JOB_STATE_CANCELED \<and> jb_syscalls job' = jb_syscalls job
       else if jb_state job \<in> {PD_JOB_STATE_PROCESSING, PD_JOB_STATE_PROCESSING_STOPPED} then
         jb_state job' = jb_state job \<and>
         (if ''processing-to-stop-point'' \<in> set (jb_state_reasons job)
          then r = Reply_error PD_ERROR_FAILED ''Already canceled'' \<and> jb_syscalls job' = jb_syscalls job
          else r = Reply_value Unit_value \<and> jb_syscalls job' = jb_syscalls job @ kills job
            \<and> pending_job_state job' = PD_JOB_STATE_CANCELED
            \<and> ''processing-to-stop-point'' \<in> set (jb_state_reasons job'))
       else r = Reply_error PD_ERROR_FAILED ''Cannot cancel completed job'' \<and> job' = job)"
proof -
  let ?j1 = "snd (pd_job_impl_check_job_transforming job)"
  let ?c = "\<lambda>j. pd_job_impl_do_cancel_with_reason PD_JOB_STATE_CANCELED ''job-canceled-by-user'' j"
  have idle: "jb_state (?c ?j1) = PD_JOB_STATE_CANCELED \<and> jb_syscalls (?c ?j1) = jb_syscalls job"
    if "jb_state job \<in> {PD_JOB_STATE_PROCESSING, PD_JOB_STATE_PROCESSING_STOPPED}" "\<not> can_cancel_processing job"
  proof -
    let ?j2 = "pd_job_impl_add_state_reason ?j1 ''job-canceled-by-user''"
    obtain t j where c: "pd_job_impl_check_job_transforming ?j2 = (t, j)" by fastforce
    with check_transforming_frame(4,7,9) [of ?j2] that
    have "\<not> t" "backend j = backend job" "jb_syscalls j = jb_syscalls job" by auto
    then show ?thesis using that by (auto simp: pd_job_impl_do_cancel_with_reason_def c)
  qed
  have kill: "jb_state (?c ?j1) = jb_state job \<and> jb_syscalls (?c ?j1) = jb_syscalls job @ kills job
      \<and> pending_job_state (?c ?j1) = PD_JOB_STATE_CANCELED \<and> ''processing-to-stop-point'' \<in> set (jb_state_reasons (?c ?j1))"
    if "can_cancel_processing job" "''processing-to-stop-point'' \<notin> set (jb_state_reasons job)"
  proof -
    have "can_cancel_processing ?j1" using that(1) by simp
    moreover have "''processing-to-stop-point''
        \<notin> set (jb_state_reasons (pd_job_impl_add_state_reason ?j1 ''job-canceled-by-user''))"
      using that(2) assms(2) by (simp add: job_reasons.add_keeps_others)
    moreover have "kills ?j1 = kills job" by (simp add: kills_def)
    ultimately show ?thesis
      using cancel_processing_frame [of ?j1 "''job-canceled-by-user''" PD_JOB_STATE_CANCELED] by simp
  qed
  have wait: "jb_state (?c job) = PD_JOB_STATE_CANCELED \<and> jb_syscalls (?c job) = jb_syscalls job"
    if "jb_state job \<in> {PD_JOB_STATE_PENDING, PD_JOB_STATE_PENDING_HELD}"
    using that by (simp add: pd_job_impl_do_cancel_with_reason_def)
  consider (w) "jb_state job \<in> {PD_JOB_STATE_PENDING, PD_JOB_STATE_PENDING_HELD}"
    | (p) "jb_state job \<in> {PD_JOB_STATE_PROCESSING, PD_JOB_STATE_PROCESSING_STOPPED}"
      "jb_state job \<notin> {PD_JOB_STATE_PENDING, PD_JOB_STATE_PENDING_HELD}"
    | (n) "jb_state job \<notin> {PD_JOB_STATE_PROCESSING, PD_JOB_STATE_PROCESSING_STOPPED}"
      "jb_state job \<notin> {PD_JOB_STATE_PENDING, PD_JOB_STATE_PENDING_HELD}" by auto
  then show ?thesis
  proof cases
    case w
    then show ?thesis using wait by (auto simp: cancel_allowed [OF assms(1)] cancel_by_user_def)
  next
    case p
    show ?thesis
      using idle [OF p(1)] kill p(1) unfolding cancel_allowed [OF assms(1)] if_not_P [OF p(2)] if_P [OF p(1)]
      by (cases "can_cancel_processing job"; cases "''processing-to-stop-point'' \<in> set (jb_state_reasons job)")
        (use p(2) in \<open>simp_all add: cancel_by_user_def\<close>)
  next
    case n
    then show ?thesis by (simp add: cancel_allowed [OF assms(1)])
  qed
qed

theorem cancel_method_outcome_witness:
  "snd (pd_job_impl_cancel lp_daemon (lp_user ''lp'') lp_job) = [Reply_value Unit_value]
    \<and> jb_state (fst (pd_job_impl_cancel lp_daemon (lp_user ''lp'') lp_job)) = PD_JOB_STATE_CANCELED"
  using cancel_method_outcome [of lp_daemon "lp_user ''lp''" lp_job] by auto

text \<open>After set_attribute a lookup of the attribute gives the new value, and every other
  attribute is as before.\<close>

theorem set_attribute_roundtrip:
  assumes "glib_contract G" and "distinct (map fst (jb_attributes job))"
  shows "get_attribute_value (jb_attributes (pd_job_impl_set_attribute G job attr val)) key =
    (if key = attr then Some val else get_attribute_value (jb_attributes job) key)"
proof -
  have "get_attribute_value kvs k = map_of kvs k" for kvs k
    by (induction kvs) auto
  then show ?thesis
    by (simp add: pd_job_impl_set_attribute_def glib_contract.dict_insert [OF assms])
qed

theorem set_attribute_roundtrip_witness:
  "get_attribute_value (jb_attributes (pd_job_impl_set_attribute glib_doc lp_job ''job-originating-user-name''
     (GV_string ''root''))) ''job-originating-user-name'' = Some (GV_string ''root'')"
  using set_attribute_roundtrip [OF glib_doc_contract, of lp_job "''job-originating-user-name''" "GV_string ''root''"
      "''job-originating-user-name''"]
  by (simp add: lp_job_def pd_job_impl_init_def)

end
