(* ===== verification/Pd_Job_Frame.thy ===== *)
theory Pd_Job_Frame
  imports Pd_Job_Methods
begin

text \<open>
  What no operation on a job changes: its number, the path of its printer, whether the engine
  watches its reasons and, once it has one, its spool file; and the invariant job_ok that every operation keeps, the start of the job
  included: a job that is waiting to be processed, or has no spool file yet, was never started.
\<close>

subsection \<open>The key of a job\<close>

definition jkey :: "job \<Rightarrow> guint \<times> string \<times> string option \<times> bool" where
  "jkey job = (jb_id job, jb_printer job, document_filename job, jb_watched_reasons job)"

lemma jkey_map_jp [simp]: "jkey (map_jp r f job) = jkey job"
  by (cases r) (simp_all add: jkey_def map_jp.simps)

lemma jkey_reasons [simp]:
  "jkey (pd_job_set_state s job) = jkey job" "jkey (pd_job_impl_add_state_reason job x) = jkey job"
  "jkey (pd_job_impl_remove_state_reason job x) = jkey job"
  by (simp_all add: jkey_def job_prop_defs)

lemma jkey_upd [simp]:
  "jkey (job\<lparr>jb_syscalls := a\<rparr>) = jkey job" "jkey (job\<lparr>pending_job_state := s\<rparr>) = jkey job"
  "jkey (job\<lparr>backend := b\<rparr>) = jkey job" "jkey (job\<lparr>filterchain := c\<rparr>) = jkey job"
  "jkey (job\<lparr>fd_back := d\<rparr>) = jkey job" "jkey (job\<lparr>fd_side := e\<rparr>) = jkey job"
  "jkey (job\<lparr>jb_device_uri := u\<rparr>) = jkey job" "jkey (job\<lparr>bufsent := n\<rparr>) = jkey job"
  "jkey (job\<lparr>buflen := n\<rparr>) = jkey job" "jkey (job\<lparr>buffer := bs\<rparr>) = jkey job"
  "jkey (job\<lparr>jb_watched_impl := w\<rparr>) = jkey job" "jkey (job\<lparr>jb_watched_engine := w\<rparr>) = jkey job"
  "jkey (job\<lparr>jb_watched_printer := w\<rparr>) = jkey job"
  "jkey (job\<lparr>jb_notify_state := w\<rparr>) = jkey job" "jkey (job\<lparr>jb_notify_reasons := w\<rparr>) = jkey job"
  "jkey (job\<lparr>jb_attributes := at\<rparr>) = jkey job"
  by (simp_all add: jkey_def)

lemma jkey_small [simp]:
  "jkey (snd (pd_job_impl_check_job_transforming job)) = jkey job"
  "jkey (stop_backend_input job) = jkey job" "jkey (sys_close fd job) = jkey job"
  "jkey (set_child_fd r i fd job) = jkey job" "jkey (add_watch i w r job) = jkey job"
  "jkey (watch_exit r job) = jkey job" "jkey (clear_source r i job) = jkey job"
  "jkey (set_channel r i c job) = jkey job" "jkey (pd_job_impl_job_state_notify job) = jkey job"
  by (simp_all add: pd_job_impl_check_job_transforming_def stop_backend_input_def sys_close_def set_child_fd_def
      add_watch_def watch_exit_def clear_source_def set_channel_def pd_job_impl_job_state_notify_def)

lemma jkey_cancel [simp]: "jkey (pd_job_impl_do_cancel_with_reason s r job) = jkey job"
  by (cases rule: cancel_cases [of s r job]) simp_all

lemma jkey_process_watch [simp]: "jkey (pd_job_impl_process_watch_cb r st job) = jkey job"
  by (simp add: pd_job_impl_process_watch_cb_def Let_def)

lemma jkey_watch_channel: "watch_channel r fd w job = Some j \<Longrightarrow> jkey j = jkey job"
  by (auto simp: watch_channel_def split: channel.splits)

lemma jkey_data_in: "data_io_cb_in this outcome job = Some (j, keep) \<Longrightarrow> jkey j = jkey job"
  by (auto simp: data_io_cb_in_def Let_def dest!: jkey_watch_channel split: read_outcome.splits if_splits)

lemma jkey_data_sent: "data_sent this next n job = Some (j, keep) \<Longrightarrow> jkey j = jkey job"
  by (auto simp: data_sent_def Let_def dest!: jkey_watch_channel split: if_splits)

lemma jkey_data_out: "data_io_cb_out this outcome job = Some (j, keep) \<Longrightarrow> jkey j = jkey job"
  by (auto simp: data_io_cb_out_def dest!: jkey_data_sent split: write_outcome.splits option.splits if_splits)

lemma jkey_message: "message_io_cb G this fd ls st job = (j, rs, keep) \<Longrightarrow> jkey j = jkey job"
  by (auto simp: message_io_cb_def Let_def split: line_end.splits)

subsection \<open>Starting keeps the key\<close>

abbreviation keeps_key :: "job \<Rightarrow> stage \<Rightarrow> bool" where
  "keeps_key job s \<equiv> stage_ok (\<lambda>j. jkey j = jkey job) s"

lemma keeps_key_all: "(\<And>x j. keeps_key j (f x j)) \<Longrightarrow> keeps_key job (stage_all f xs job)"
  by (rule stage_ok_all) (auto, metis)

lemma keeps_key_bind: "keeps_key job s \<Longrightarrow> (\<And>j. keeps_key j (f j)) \<Longrightarrow> keeps_key job (stage_bind s f)"
  by (cases s) (auto, metis)

lemma keeps_key_setup_pipe: "keeps_key job (setup_pipe_for env d jp r fd out job)"
  by (auto simp: setup_pipe_for_def pd_job_impl_create_pipe_for_def fail_setup_def split: option.splits)

lemma keeps_key_fail: "keeps_key job (fail_setup r fd job)"
  by (auto simp: fail_setup_def split: option.splits)

lemma keeps_key_run: "keeps_key job (pd_job_impl_run_process G env printer ppd r job)"
  by (auto simp: pd_job_impl_run_process_def Let_def split: option.splits)

lemma fold_key: "(\<And>x j. jkey (f x j) = jkey j) \<Longrightarrow> jkey (fold f xs job) = jkey job"
  by (induction xs arbitrary: job) simp_all

lemma keeps_key_pipeline: "keeps_key job (pipeline G env printer d job)"
  unfolding pipeline_def
proof (intro keeps_key_bind)
  show "keeps_key j (setup_chain env printer d j)" for j
    by (auto simp: setup_chain_def fail_setup_def Let_def split: option.splits)
  show "keeps_key j (setup_backend_pipes env d j)" for j
    unfolding setup_backend_pipes_def by (rule keeps_key_all) (auto simp: keeps_key_setup_pipe split: prod.split)
  show "keeps_key j (setup_back_channel env j)" for j
    by (auto simp: setup_back_channel_def Let_def fold_key split: option.splits)
  show "keeps_key j (setup_side_channel env j)" for j
    by (auto simp: setup_side_channel_def Let_def fold_key split: option.splits)
  show "keeps_key j (setup_stderr_pipes env d j)" for j
    unfolding setup_stderr_pipes_def by (rule keeps_key_all) (rule keeps_key_setup_pipe)
  show "keeps_key j (setup_filter_pipes env d j)" for j
    unfolding setup_filter_pipes_def by (rule keeps_key_all) (auto simp: pipe_between_def fail_setup_def split: option.splits)
  show "keeps_key j (setup_ends env d j)" for j
    using keeps_key_setup_pipe [of "set_child_fd (Filter 0) STDIN_FILENO d j" env d _ _ STDOUT_FILENO True]
    by (simp add: setup_ends_def Let_def)
  show "keeps_key j (run_chain G env (Some printer) j)" for j
    unfolding run_chain_def Let_def
    using keeps_key_all [of "pd_job_impl_run_process G env (Some printer) (Option.bind (Some printer) prn_driver)"
        "pd_job_impl_add_state_reason (j\<lparr>pending_job_state := PD_JOB_STATE_PROCESSING\<rparr>) ''job-transforming''"] keeps_key_run
    by simp
  show "keeps_key j (watch_chain j)" for j
    by (simp add: watch_chain_def Let_def fold_key)
qed

lemma jkey_stage_result: "keeps_key job s \<Longrightarrow> jkey (stage_result s) = jkey job"
  by (cases s) simp_all

lemma jkey_start_processing [simp]: "jkey (pd_job_impl_start_processing G env printer job) = jkey job"
proof (cases "filterchain job = []")
  case True
  have "keeps_key job (start_stage G env printer job)"
    using keeps_key_pipeline [of "job\<lparr>jb_device_uri := u, backend := b\<rparr>" G env prn d for u b prn d]
    by (auto simp: start_stage_def Let_def split: option.split)
  then show ?thesis by (simp add: start_processing_stage [OF True] jkey_stage_result)
qed (simp add: pd_job_impl_start_processing_def)

lemma jkey_start_sending [simp]: "jkey (pd_job_impl_start_sending G env printer job) = jkey job"
proof -
  have "jkey (watch_backend j) = jkey j" for j by (simp add: watch_backend_def Let_def)
  then have w: "keeps_key j (Inr (watch_backend j))" for j by simp
  have "keeps_key j (stage_bind (pd_job_impl_run_process G env printer ppd Backend (j\<lparr>pending_job_state := s\<rparr>))
      (\<lambda>job. Inr (watch_backend job)))" for j ppd s
    using keeps_key_bind [OF keeps_key_run w, of "j\<lparr>pending_job_state := s\<rparr>"] by simp
  from jkey_stage_result [OF this] show ?thesis by (simp add: pd_job_impl_start_sending_def Let_def)
qed

subsection \<open>The invariant of a job in the daemon\<close>

definition never_started :: "job \<Rightarrow> bool" where
  "never_started job \<longleftrightarrow> filterchain job = [] \<and> fresh_process (backend job) \<and> buflen job = bufsent job
     \<and> ''job-outgoing'' \<notin> set (jb_state_reasons job) \<and> ''job-transforming'' \<notin> set (jb_state_reasons job)"

definition job_ok :: "job \<Rightarrow> bool" where
  "job_ok job \<longleftrightarrow> job_inv job \<and> (document_filename job = None \<or> jb_state job = PD_JOB_STATE_PENDING \<longrightarrow> never_started job)
     \<and> (jb_state job = PD_JOB_STATE_PENDING \<longrightarrow> document_filename job \<noteq> None)"

lemma job_ok_init: "job_ok (pd_job_impl_init n name attrs path)"
  by (simp add: job_ok_def job_inv_init) (simp add: never_started_def pd_job_impl_init_def)

text \<open>A change of fields that job_ok does not look at.\<close>

lemma job_ok_upd [simp]:
  "job_ok (job\<lparr>jb_watched_impl := w\<rparr>) = job_ok job" "job_ok (job\<lparr>jb_watched_engine := w\<rparr>) = job_ok job"
  "job_ok (job\<lparr>jb_watched_printer := w\<rparr>) = job_ok job" "job_ok (job\<lparr>jb_watched_reasons := w\<rparr>) = job_ok job"
  "job_ok (job\<lparr>jb_notify_state := w\<rparr>) = job_ok job" "job_ok (job\<lparr>jb_notify_reasons := w\<rparr>) = job_ok job"
  "job_ok (job\<lparr>jb_attributes := a\<rparr>) = job_ok job"
  by (simp_all add: job_ok_def job_inv_def never_started_def)

lemma never_started_reasons [simp]:
  "never_started (pd_job_set_state s job) = never_started job"
  "never_started job \<Longrightarrow> never_started (pd_job_impl_remove_state_reason job x)"
  "never_started job \<Longrightarrow> x \<noteq> ''job-outgoing'' \<Longrightarrow> x \<noteq> ''job-transforming'' \<Longrightarrow>
     never_started (pd_job_impl_add_state_reason job x)"
proof -
  show "never_started (pd_job_set_state s job) = never_started job"
    by (simp add: never_started_def pd_job_set_state_def)
  have b: "buflen (pd_job_impl_remove_state_reason job x) = buflen job" "bufsent (pd_job_impl_remove_state_reason job x) = bufsent job"
    "buflen (pd_job_impl_add_state_reason job x) = buflen job" "bufsent (pd_job_impl_add_state_reason job x) = bufsent job"
    by (simp_all add: job_prop_defs)
  show "never_started job \<Longrightarrow> never_started (pd_job_impl_remove_state_reason job x)"
    by (auto simp: never_started_def b job_reasons.reasons_after_remove reasons_remove_def)
  assume n: "never_started job" "x \<noteq> ''job-outgoing''" "x \<noteq> ''job-transforming''"
  have "r \<in> set (jb_state_reasons (pd_job_impl_add_state_reason job x)) \<Longrightarrow> r \<in> set (jb_state_reasons job) \<or> r = x" for r
    unfolding job_reasons.reasons_after_add by (auto simp: reasons_add_def dest: set_takeWhileD split: if_splits)
  with n show "never_started (pd_job_impl_add_state_reason job x)" by (auto simp: never_started_def b)
qed

lemma never_started_check [simp]:
  "never_started job \<Longrightarrow> never_started (snd (pd_job_impl_check_job_transforming job))"
  by (simp add: pd_job_impl_check_job_transforming_def)

lemma never_started_idle: "never_started job \<Longrightarrow> \<not> can_cancel_processing job"
  by (simp add: never_started_def fresh_process_def)

lemma job_ok_set_state:
  assumes "job_ok job" and "s \<noteq> PD_JOB_STATE_PENDING" shows "job_ok (pd_job_set_state s job)"
proof -
  have "document_filename (pd_job_set_state s job) = document_filename job" by simp
  with assms show ?thesis by (simp add: job_ok_def)
qed

lemma job_ok_remove_reason [simp]: "job_ok job \<Longrightarrow> job_ok (pd_job_impl_remove_state_reason job x)"
  by (simp add: job_ok_def)

lemma job_ok_add_reason:
  "job_ok job \<Longrightarrow> x \<noteq> ''job-outgoing'' \<Longrightarrow> x \<noteq> ''job-transforming'' \<Longrightarrow> job_ok (pd_job_impl_add_state_reason job x)"
  by (simp add: job_ok_def)

lemma job_ok_check [simp]: "job_ok job \<Longrightarrow> job_ok (snd (pd_job_impl_check_job_transforming job))"
  by (simp add: job_ok_def)

lemma job_ok_cancel:
  assumes "job_ok job" and "job_terminal s" and "r \<noteq> ''job-outgoing''" and "r \<noteq> ''job-transforming''"
  shows "job_ok (pd_job_impl_do_cancel_with_reason s r job)"
proof -
  have np: "s \<noteq> PD_JOB_STATE_PENDING" using assms(2) by auto
  have i: "job_inv (pd_job_impl_do_cancel_with_reason s r job)"
    using assms(1,2) job_inv_cancel by (simp add: job_ok_def)
  show ?thesis
  proof (cases rule: cancel_cases [of s r job])
    case (killing j)
    then have "\<not> never_started job" using never_started_idle by blast
    with assms(1) have n: "document_filename job \<noteq> None" "jb_state job \<noteq> PD_JOB_STATE_PENDING" by (auto simp: job_ok_def)
    have "jb_state (pd_job_impl_do_cancel_with_reason s r job) \<noteq> PD_JOB_STATE_PENDING"
      using cancel_state [of s r job] n(2) np by auto
    moreover from n(1) obtain f where "document_filename job = Some f" by blast
    ultimately show ?thesis using i by (simp add: job_ok_def)
  qed (use assms np in \<open>simp_all add: job_ok_set_state job_ok_add_reason\<close>)
qed

text \<open>Once something runs or is watched, only the invariant of the job is left to keep.\<close>

lemma job_ok_started:
  assumes "job_ok job" and "\<not> never_started job" and "job_inv j" and "jkey j = jkey job"
    and "jb_state j = jb_state job \<or> jb_state j \<noteq> PD_JOB_STATE_PENDING"
  shows "job_ok j"
proof -
  from assms(1,2) have "document_filename job \<noteq> None" "jb_state job \<noteq> PD_JOB_STATE_PENDING" by (auto simp: job_ok_def)
  with assms(3-5) show ?thesis by (auto simp: job_ok_def jkey_def)
qed

lemma job_ok_add_document:
  "job_ok job \<Longrightarrow> job_ok (fst (pd_job_impl_add_document d u fds options h job))"
proof (cases "allowed d u ''org.freedesktop.printerd.job-add'' job")
  case True
  assume ok: "job_ok job"
  have n: "job_ok (note_format options job)"
    using ok by (auto simp: job_ok_def note_format_def never_started_def split: option.splits)
  have "job_ok (j\<lparr>document_fd := x\<rparr>)" if "job_ok j" "document_filename j = None" for j x
    using that by (simp add: job_ok_def job_inv_def never_started_def fresh_process_def)
  with ok n show ?thesis by (auto simp: add_document_allowed [OF True] split: option.splits)
next
  case False
  assume "job_ok job"
  with add_document_refused [OF False, of fds options h] show ?thesis by auto
qed

lemma job_ok_cancel_method: "job_ok job \<Longrightarrow> job_ok (fst (pd_job_impl_cancel d u job))"
proof (cases "allowed d u ''org.freedesktop.printerd.job-cancel'' job")
  case True
  assume "job_ok job"
  moreover have "job_ok (fst (cancel_by_user j))" if "job_ok j" for j
    using that by (simp add: cancel_by_user_def job_ok_cancel)
  ultimately show ?thesis by (simp add: cancel_allowed [OF True])
next
  case False
  assume "job_ok job"
  with cancel_refused [OF False] show ?thesis by auto
qed

lemma job_ok_set_attribute [simp]: "job_ok (pd_job_impl_set_attribute G job k v) = job_ok job"
  by (simp add: pd_job_impl_set_attribute_def)

lemma job_ok_state_notify [simp]: "job_ok job \<Longrightarrow> job_ok (pd_job_impl_job_state_notify job)"
  by (simp add: pd_job_impl_job_state_notify_def)

lemma never_started_cong:
  assumes "unspooled a = unspooled b" and "jb_state_reasons a = jb_state_reasons b"
  shows "never_started a = never_started b"
  using unspooled_fields [OF assms(1)] assms(2) by (simp add: never_started_def)

lemma start_method_effect:
  assumes "job_ok job" and "pd_job_impl_start d u sp printer job = Some (job', rs)"
  shows "job_ok job' \<and> jb_id job' = jb_id job \<and> jb_printer job' = jb_printer job \<and> jb_watched_reasons job' = jb_watched_reasons job"
proof -
  from assms(1) have i: "job_inv job" by (simp add: job_ok_def)
  then show ?thesis
  proof (cases rule: start_cases [where d = d and u = u and sp = sp and printer = printer])
    case (started spoolfd spool_name)
    obtain job2 where j2: "pd_job_impl_start d u sp printer job
          = Some (start_result sp (requested_type printer job) spool_name job2)"
        "jb_state job2 = jb_state job" "jb_state_reasons job2 = jb_state_reasons job"
        "document_filename job2 = Some spool_name" "job_inv job2" "unspooled job2 = unspooled job"
      by (rule start_allowed [OF started(1) i started(2,3), where printer = printer]) blast
    from started(2) i have "document_filename job = None" by (auto simp: job_inv_def)
    with assms(1) have "never_started job" by (simp add: job_ok_def)
    with never_started_cong [OF j2(6,3)] have n2: "never_started job2" by simp
    have ok2: "job_ok job2" using n2 j2(4,5) by (simp add: job_ok_def)
    have "job_ok (pd_job_set_state PD_JOB_STATE_PENDING (pd_job_impl_remove_state_reason job2 ''job-incoming''))"
      using n2 j2(4,5) by (simp add: job_ok_def)
    moreover have "job_ok (pd_job_impl_do_cancel_with_reason PD_JOB_STATE_ABORTED ''job-aborted-by-system'' job2)"
      by (rule job_ok_cancel [OF ok2]) simp_all
    ultimately have "job_ok (fst (start_result sp r spool_name job2))" for r using ok2 by (simp add: start_result_def)
    moreover have "jkey (fst (start_result sp r spool_name job2)) = jkey job2" for r by (simp add: start_result_def)
    moreover have "job' = fst (start_result sp (requested_type printer job) spool_name job2)"
      using assms(2) j2(1) by (metis fst_conv option.inject)
    ultimately show ?thesis using unspooled_fields(5,6,10) [OF j2(6)] by (simp add: jkey_def)
  qed (use assms in auto)
qed

lemma document_effect:
  "jb_id (fst (pd_job_impl_add_document d u fds options h job)) = jb_id job"
  "jb_printer (fst (pd_job_impl_add_document d u fds options h job)) = jb_printer job"
  "jb_watched_reasons (fst (pd_job_impl_add_document d u fds options h job)) = jb_watched_reasons job"
  by (auto simp: pd_job_impl_add_document_def Let_def note_format_def split: option.split prod.split)

lemma cancel_method_effect:
  "jkey (fst (pd_job_impl_cancel d u job)) = jkey job"
proof (cases "allowed d u ''org.freedesktop.printerd.job-cancel'' job")
  case True
  then show ?thesis by (simp add: cancel_allowed cancel_by_user_def)
next
  case False
  with cancel_refused [OF False] show ?thesis by auto
qed

text \<open>Starting a job that the engine has just moved from pending to processing.\<close>

lemma job_ok_start_sending:
  assumes "job_ok job" and "jb_state job = PD_JOB_STATE_PENDING" and "os_ok env"
  shows "job_ok (pd_job_impl_start_sending G env printer (pd_job_set_state PD_JOB_STATE_PROCESSING job))"
proof -
  let ?j = "pd_job_set_state PD_JOB_STATE_PROCESSING job"
  let ?r = "pd_job_impl_start_sending G env printer ?j"
  have s: "startable ?j"
    using assms(1,2) by (simp add: startable_def job_ok_def never_started_def) (simp add: pd_job_set_state_def)
  from start_sending_cases [OF s assms(3) refl, of G printer]
  have inv: "job_inv ?r" and st: "jb_state ?r = PD_JOB_STATE_ABORTED \<or> jb_state ?r = jb_state ?j"
    by (auto simp: all_up_def)
  have "document_filename job \<noteq> None" using assms(1,2) by (simp add: job_ok_def)
  then have "document_filename ?r \<noteq> None" using jkey_start_sending [of G env printer ?j] by (simp add: jkey_def)
  with inv st show ?thesis by (auto simp: job_ok_def)
qed

text \<open>The callbacks run for processes that were started: their watch was installed then.\<close>

lemma never_started_unwatched:
  assumes "never_started job" and "valid_ref r job"
  shows "\<not> jp_process_watch (get_jp r job)" and "jp_io_source (get_jp r job) i = None"
  using assms by (cases r; simp add: never_started_def fresh_process_def)+

lemma process_watch_not_pending:
  assumes "job_inv job" and "valid_ref r job" and "jp_started (get_jp r job)"
  shows "jb_state (pd_job_impl_process_watch_cb r st job) = jb_state job
    \<or> jb_state (pd_job_impl_process_watch_cb r st job) \<noteq> PD_JOB_STATE_PENDING"
proof -
  have "job_inv (map_jp r exit_process job)" using assms by (intro job_inv_map_jp) simp_all
  then have "jp_started (backend (map_jp r exit_process job)) \<Longrightarrow> job_terminal (pending_job_state (map_jp r exit_process job))"
    by (simp add: job_inv_def)
  moreover have "\<not> job_terminal PD_JOB_STATE_PENDING" by simp
  moreover have "jb_state (map_jp r exit_process job) = jb_state job" by (cases r) (simp_all add: map_jp.simps)
  ultimately show ?thesis unfolding process_watch_unfold Let_def by auto
qed

lemma job_ok_process_watch:
  assumes "job_ok job" and "valid_ref r job" and "jp_process_watch (get_jp r job)"
  shows "job_ok (pd_job_impl_process_watch_cb r st job)"
proof -
  from assms(1) have i: "job_inv job" by (simp add: job_ok_def)
  from job_inv_process_ok [OF i assms(2)] assms(3) have s: "jp_started (get_jp r job)"
    by (simp add: process_ok_def running_def)
  have "\<not> never_started job" using never_started_unwatched(1) [OF _ assms(2)] assms(3) by blast
  from job_ok_started [OF assms(1) this job_inv_process_watch [OF i assms(2) s] jkey_process_watch process_watch_not_pending [OF i assms(2) s]]
  show ?thesis .
qed

lemma watch_channel_state: "watch_channel r fd w job = Some j \<Longrightarrow> jb_state j = jb_state job"
  by (cases r) (auto simp: watch_channel_def map_jp.simps split: channel.splits)

lemma state_map_jp [simp]: "jb_state (map_jp r f job) = jb_state job"
  by (cases r) (simp_all add: map_jp.simps)

lemma state_sources [simp]:
  "jb_state (clear_source r i job) = jb_state job" "jb_state (set_channel r i c job) = jb_state job"
  by (simp_all add: clear_source_def set_channel_def)

lemma data_in_state:
  "data_io_cb_in this outcome job = Some (j, keep) \<Longrightarrow> jb_state j \<in> {jb_state job, PD_JOB_STATE_ABORTED}"
  using cancel_state [of PD_JOB_STATE_ABORTED "''job-aborted-by-system''" job]
  by (auto simp: data_io_cb_in_def Let_def dest!: watch_channel_state split: read_outcome.splits if_splits)

lemma data_sent_state: "data_sent this next n job = Some (j, keep) \<Longrightarrow> jb_state j = jb_state job"
  by (auto simp: data_sent_def Let_def dest!: watch_channel_state split: if_splits)

lemma data_out_state:
  assumes "data_io_cb_out this outcome job = Some (j, keep)"
  shows "jb_state j \<in> {jb_state job, PD_JOB_STATE_ABORTED}"
  using assms cancel_state [of PD_JOB_STATE_ABORTED "''job-aborted-by-system''" job]
    cancel_state [of PD_JOB_STATE_ABORTED "''job-canceled-by-system''" job]
  by (cases outcome) (auto simp: data_io_cb_out_def dest!: data_sent_state split: option.splits if_splits)

lemma job_ok_data_in:
  assumes "data_io_cb_in this outcome job = Some (j, keep)" and "job_ok job" and "valid_ref this job"
    and "jp_io_source (get_jp this job) i \<noteq> None" and "\<And>bs. outcome = Read_normal bs \<Longrightarrow> length bs \<le> 1024"
  shows "job_ok j"
proof -
  have n: "\<not> never_started job" using never_started_unwatched(2) [OF _ assms(3)] assms(4) by auto
  have i: "job_inv j" using job_inv_data_in [OF assms(1) _ assms(3,5)] assms(2) by (simp add: job_ok_def)
  show ?thesis using job_ok_started [OF assms(2) n i jkey_data_in [OF assms(1)]] data_in_state [OF assms(1)] by auto
qed

lemma job_ok_data_out:
  assumes "data_io_cb_out this outcome job = Some (j, keep)" and "job_ok job" and "valid_ref this job"
    and "jp_io_source (get_jp this job) i \<noteq> None" and "write_ok outcome job"
  shows "job_ok j"
proof -
  have n: "\<not> never_started job" using never_started_unwatched(2) [OF _ assms(3)] assms(4) by auto
  have i: "job_inv j" using job_inv_data_out [OF assms(1) _ assms(3,5)] assms(2) by (simp add: job_ok_def)
  show ?thesis using job_ok_started [OF assms(2) n i jkey_data_out [OF assms(1)]] data_out_state [OF assms(1)] by auto
qed

lemma job_ok_message:
  assumes "message_io_cb G this fd ls st job = (j, rs, keep)" and "job_ok job" and "valid_ref this job"
    and "jp_io_source (get_jp this job) fd \<noteq> None"
  shows "job_ok j"
proof -
  have n: "\<not> never_started job" using never_started_unwatched(2) [OF _ assms(3)] assms(4) by auto
  have i: "job_inv j" using job_inv_message [OF assms(1) _ assms(3)] assms(2) by (simp add: job_ok_def)
  have "jb_state j \<in> {jb_state job, PD_JOB_STATE_CANCELED}"
    using assms(1) by (auto simp: message_io_cb_def Let_def split: line_end.splits)
  then show ?thesis using job_ok_started [OF assms(2) n i jkey_message [OF assms(1)]] by auto
qed

end
