(* ===== verification/Pd_Engine.thy ===== *)
theory Pd_Engine
  imports Hash_Table Pd_Job_Frame
begin

text \<open>
  src/pd-engine.c: the registry of devices, printers and jobs, and the handlers that move jobs
  from the queue of a printer to processing.

  The state of the daemon is a world: the counter and the two hash tables of the engine, what is
  exported on the bus at which object path, and the objects by address. A printer or job that is
  finalized leaves the world; w_released collects the system calls its finalizer made. A device
  that nothing refers to any more is kept in w_devices, where nobody can see it. Operations that
  can touch freed memory or dereference NULL are options: None is undefined behaviour.
\<close>

subsection \<open>The world\<close>

datatype exported = Obj_manager | Obj_printer nat | Obj_job nat | Obj_device nat

record world =
  w_next_job_id :: guint
  w_id_to_printer :: "nat table"
  w_path_to_device :: "nat table"
  w_exported :: "string \<Rightarrow> exported option"
  w_printers :: "nat \<Rightarrow> printer option"
  w_jobs :: "nat \<Rightarrow> job option"
  w_devices :: "nat \<Rightarrow> device option"
  w_next :: nat
  w_released :: "syscall list"

definition upd_printer :: "nat \<Rightarrow> (printer \<Rightarrow> printer) \<Rightarrow> world \<Rightarrow> world" where
  "upd_printer p f w = w\<lparr>w_printers := (w_printers w)(p := map_option f (w_printers w p))\<rparr>"

definition upd_job :: "nat \<Rightarrow> (job \<Rightarrow> job) \<Rightarrow> world \<Rightarrow> world" where
  "upd_job j f w = w\<lparr>w_jobs := (w_jobs w)(j := map_option f (w_jobs w j))\<rparr>"

text \<open>
  Exporting replaces what is at the path; an object skeleton cannot be made for a string that is
  no object path.
\<close>

definition export :: "string \<Rightarrow> exported \<Rightarrow> world \<Rightarrow> world" where
  "export path obj w = (if object_path path then w\<lparr>w_exported := (w_exported w)(path \<mapsto> obj)\<rparr> else w)"

definition unexport :: "string \<Rightarrow> world \<Rightarrow> world" where
  "unexport path w = w\<lparr>w_exported := (w_exported w)(path := None)\<rparr>"

text \<open>pd_daemon_find_object followed by pd_object_get_printer.\<close>

definition printer_at :: "world \<Rightarrow> string \<Rightarrow> nat option" where
  "printer_at w path = (case w_exported w path of Some (Obj_printer p) \<Rightarrow> Some p | _ \<Rightarrow> None)"

subsection \<open>Devices\<close>

text \<open>What udev says about a device.\<close>

record udev =
  ud_sysfs_path :: string
  ud_ieee1284_id :: "string option"
  ud_class :: int
  ud_subclass :: int

text \<open>
  g_ascii_strcasecmp returns 0 for a NULL argument (a failed precondition), so a device without
  a manufacturer passes the first test.
\<close>

definition device_mfg :: "glib \<Rightarrow> string option \<Rightarrow> string" where
  "device_mfg G mfg =
     (case mfg of
        None \<Rightarrow> ''HP''
      | Some m \<Rightarrow>
          if g_ascii_strcasecmp G m ''hewlett-packard'' = 0 then ''HP''
          else if g_ascii_strcasecmp G m ''lexmark international'' = 0 then ''Lexmark''
          else m)"

definition escaped :: "glib \<Rightarrow> bool \<Rightarrow> string option \<Rightarrow> string" where
  "escaped G allow_utf8 s = (case s of None \<Rightarrow> [] | Some t \<Rightarrow> g_uri_escaped G t allow_utf8)"

definition device_uri :: "glib \<Rightarrow> (string \<Rightarrow> string option) \<Rightarrow> string" where
  "device_uri G ht =
     ''usb://'' @ escaped G True (Some (device_mfg G (ht ''mfg''))) @ ''/'' @ escaped G True (ht ''mdl'')
     @ (case ht ''sn'' of None \<Rightarrow> [] | Some sn \<Rightarrow> ''?serial='' @ escaped G False (Some sn))"

definition device_description :: "glib \<Rightarrow> (string \<Rightarrow> string option) \<Rightarrow> string" where
  "device_description G ht = device_mfg G (ht ''mfg'') @ '' '' @ fmt_s (ht ''mdl'') @ '' (USB)''"

definition pd_engine_device_add :: "glib \<Rightarrow> udev \<Rightarrow> world \<Rightarrow> nat option \<times> world" where
  "pd_engine_device_add G u w =
     (case pd_parse_ieee1284_id G (ud_ieee1284_id u) of
        None \<Rightarrow> (None, w)
      | Some ht \<Rightarrow>
          (let a = w_next w;
               device0 = \<lparr>dev_ieee1284_id = ud_ieee1284_id u, dev_uri = device_uri G ht,
                          dev_description = device_description G ht, dev_id = None\<rparr>;
               (i, device) = pd_device_impl_get_id G device0 in
           (Some a, export (device_path_of (fmt_s i)) (Obj_device a)
              (w\<lparr>w_next := Suc a, w_devices := (w_devices w)(a \<mapsto> device)\<rparr>))))"

definition pd_engine_device_remove :: "glib \<Rightarrow> nat \<Rightarrow> world \<Rightarrow> world" where
  "pd_engine_device_remove G a w =
     (case w_devices w a of
        None \<Rightarrow> w
      | Some device \<Rightarrow>
          (let (i, device') = pd_device_impl_get_id G device in
           unexport (device_path_of (fmt_s i)) (w\<lparr>w_devices := (w_devices w)(a \<mapsto> device')\<rparr>)))"

definition pd_engine_handle_uevent :: "glib \<Rightarrow> string \<Rightarrow> udev \<Rightarrow> world \<Rightarrow> world" where
  "pd_engine_handle_uevent G action u w =
     (if action = ''remove'' then
        (case map_of (w_path_to_device w) (ud_sysfs_path u) of
           None \<Rightarrow> w
         | Some a \<Rightarrow>
             (let w1 = pd_engine_device_remove G a w in
              w1\<lparr>w_path_to_device := AList.delete (ud_sysfs_path u) (w_path_to_device w1)\<rparr>))
      else if action = ''add'' then
        (if ud_class u \<noteq> 7 \<or> ud_subclass u \<noteq> 1 then w
         else
           (case pd_engine_device_add G u w of
              (None, w1) \<Rightarrow> w1
            | (Some a, w1) \<Rightarrow>
                w1\<lparr>w_path_to_device := AList.update (ud_sysfs_path u) a (w_path_to_device w1)\<rparr>))
      else w)"

text \<open>pd_engine_init and pd_engine_start, with the devices that udev lists.\<close>

definition empty_world :: world where
  "empty_world =
     \<lparr>w_next_job_id = 1, w_id_to_printer = [], w_path_to_device = [], w_exported = (\<lambda>_. None),
      w_printers = (\<lambda>_. None), w_jobs = (\<lambda>_. None), w_devices = (\<lambda>_. None), w_next = 0, w_released = []\<rparr>"

definition pd_engine_start :: "glib \<Rightarrow> udev list \<Rightarrow> world" where
  "pd_engine_start G us =
     fold (pd_engine_handle_uevent G ''add'') us (export manager_path Obj_manager empty_world)"

text \<open>The order in which a hash table lists its entries is the argument ord.\<close>

definition pd_engine_dup_printer_ids :: "(string list \<Rightarrow> string list) \<Rightarrow> world \<Rightarrow> string list" where
  "pd_engine_dup_printer_ids ord w = ord (map fst (w_id_to_printer w))"

definition pd_engine_get_devices :: "(nat list \<Rightarrow> nat list) \<Rightarrow> world \<Rightarrow> nat list" where
  "pd_engine_get_devices ord w = ord (map snd (w_path_to_device w))"

subsection \<open>Printers\<close>

text \<open>
  The identifier under which a printer is entered: its own, or with the first of the collision_suffixes
  _2 to _999 that is free. None: they are all taken.
\<close>

definition collision_suffixes :: "nat list" where
  "collision_suffixes = [2..<1000]"

definition choose_id :: "nat table \<Rightarrow> string \<Rightarrow> string option" where
  "choose_id t i =
     (if map_of t i \<noteq> None
      then map_option (\<lambda>n. i @ ''_'' @ fmt_u n)
        (List.find (\<lambda>n. map_of t (i @ ''_'' @ fmt_u n) = None) collision_suffixes)
      else Some i)"

text \<open>
  pd_engine_add_printer. An error is a message of the domain PD_ERROR_FAILED. When every
  identifier is taken the code leaves with the string of the last attempt, which it has already
  freed, and frees it again: None.
\<close>

definition pd_engine_add_printer ::
  "glib \<Rightarrow> ppd_open \<Rightarrow> attrs option \<Rightarrow> string \<Rightarrow> string \<Rightarrow> string \<Rightarrow> string option \<Rightarrow> world
    \<Rightarrow> ((string + nat) \<times> world) option" where
  "pd_engine_add_printer G ppd_open options name description location ieee1284_id w =
     (let printer0 = pd_printer_impl_init name description location ieee1284_id;
          driver = Option.bind options (\<lambda>opts. lookup_string opts ''driver-name'');
          (ok, printer1) = (if driver = None then (True, printer0)
                            else pd_printer_impl_set_driver G ppd_open driver printer0) in
      if \<not> ok then Some (Inl ''Error setting driver'', w)
      else
        (let (i, printer2) = pd_printer_impl_get_id G printer1 in
         case choose_id (w_id_to_printer w) i of
           None \<Rightarrow> None
         | Some objid \<Rightarrow>
             (let a = w_next w;
                  printer3 = (if map_of (w_id_to_printer w) i \<noteq> None
                              then pd_printer_impl_set_id objid printer2 else printer2) in
              Some (Inr a, export (printer_path_of objid) (Obj_printer a)
                (w\<lparr>w_next := Suc a,
                   w_printers := (w_printers w)(a \<mapsto> printer3\<lparr>prn_watched := True\<rparr>),
                   w_id_to_printer := AList.update objid a (w_id_to_printer w)\<rparr>)))))"

text \<open>The part of the path after the last slash is looked up.\<close>

definition pd_engine_get_printer_by_path :: "glib \<Rightarrow> string \<Rightarrow> world \<Rightarrow> nat option" where
  "pd_engine_get_printer_by_path G path w =
     (case g_strrstr G path ''/'' of
        None \<Rightarrow> None
      | Some s \<Rightarrow> map_of (w_id_to_printer w) (tl s))"

subsection \<open>Jobs\<close>

definition pd_engine_add_job :: "string \<Rightarrow> string \<Rightarrow> attrs \<Rightarrow> world \<Rightarrow> nat \<times> world" where
  "pd_engine_add_job printer_path name attributes w =
     (let a = w_next w;
          job_id = w_next_job_id w;
          job = (pd_job_impl_init job_id name attributes printer_path)\<lparr>jb_watched_engine := True\<rparr> in
      (a, export (job_path_of job_id) (Obj_job a)
            (w\<lparr>w_next := Suc a, w_next_job_id := job_id + 1, w_jobs := (w_jobs w)(a \<mapsto> job)\<rparr>)))"

definition pd_engine_remove_job :: "string \<Rightarrow> world \<Rightarrow> (bool \<times> world) option" where
  "pd_engine_remove_job job_path w =
     (case w_exported w job_path of
        None \<Rightarrow> Some (False, w)
      | Some (Obj_job j) \<Rightarrow> Some (True, upd_job j (jb_watched_engine_update (\<lambda>_. False)) (unexport job_path w))
      | Some _ \<Rightarrow> None)"

text \<open>
  pd_printer_impl_remove_job and the release of the last reference: the object of the job leaves
  the bus, the handlers are disconnected, and the job is finalized.
\<close>

definition pd_printer_impl_remove_job :: "nat \<Rightarrow> world \<Rightarrow> world option" where
  "pd_printer_impl_remove_job j w =
     (case w_jobs w j of
        None \<Rightarrow> None
      | Some job \<Rightarrow> map_option snd (pd_engine_remove_job (job_path_of (jb_id job))
          (upd_job j (jb_watched_printer_update (\<lambda>_. False)) w)))"

definition release_job :: "nat \<Rightarrow> world \<Rightarrow> world option" where
  "release_job j w =
     (case w_jobs w j of
        None \<Rightarrow> None
      | Some job \<Rightarrow> (case pd_job_impl_finalize job of
          None \<Rightarrow> None
        | Some (calls, spool_file) \<Rightarrow>
            Some (w\<lparr>w_jobs := (w_jobs w)(j := None), w_released := w_released w @ calls\<rparr>)))"

fun each_job :: "(nat \<Rightarrow> world \<Rightarrow> world option) \<Rightarrow> nat list \<Rightarrow> world \<Rightarrow> world option" where
  "each_job f [] w = Some w"
| "each_job f (j # js) w = Option.bind (f j w) (each_job f js)"

definition pd_printer_impl_finalize :: "nat \<Rightarrow> world \<Rightarrow> world option" where
  "pd_printer_impl_finalize p w =
     (case w_printers w p of
        None \<Rightarrow> None
      | Some printer \<Rightarrow>
          map_option (\<lambda>w1. w1\<lparr>w_printers := (w_printers w1)(p := None)\<rparr>)
            (Option.bind (each_job pd_printer_impl_remove_job (prn_jobs printer) w)
              (each_job release_job (prn_jobs printer))))"

text \<open>
  pd_engine_remove_printer: an object of another kind has no printer, and its identifier is
  asked for through a NULL pointer. The table, the bus and this function hold the references
  to the printer, so it is finalized in the end.
\<close>

definition pd_engine_remove_printer :: "glib \<Rightarrow> string \<Rightarrow> world \<Rightarrow> (bool \<times> world) option" where
  "pd_engine_remove_printer G printer_path w =
     (case w_exported w printer_path of
        None \<Rightarrow> Some (False, w)
      | Some (Obj_printer p) \<Rightarrow>
          (case w_printers w p of
             None \<Rightarrow> None
           | Some printer \<Rightarrow>
               (let (i, printer1) = pd_printer_impl_get_id G printer;
                    w1 = unexport printer_path w;
                    w2 = w1\<lparr>w_id_to_printer := AList.delete i (w_id_to_printer w1)\<rparr> in
                map_option (Pair True)
                  (pd_printer_impl_finalize p (upd_printer p (\<lambda>_. printer1\<lparr>prn_watched := False\<rparr>) w2))))
      | Some _ \<Rightarrow> None)"

subsection \<open>Moving jobs\<close>

definition pd_engine_start_job :: "glib \<Rightarrow> os_env \<Rightarrow> nat \<Rightarrow> nat \<Rightarrow> world \<Rightarrow> world" where
  "pd_engine_start_job G env p j w =
     (let w1 = upd_job j (pd_job_set_state PD_JOB_STATE_PROCESSING)
                 (upd_printer p (pd_printer_set_state PD_PRINTER_STATE_PROCESSING) w) in
      case w_printers w1 p of
        None \<Rightarrow> w1
      | Some printer \<Rightarrow>
          if prn_job_outgoing printer then w1
          else
            (let w2 = upd_printer p (prn_job_outgoing_update (\<lambda>_. True)) w1;
                 w3 = upd_job j (jb_watched_reasons_update (\<lambda>_. True)) w2 in
             upd_job j (\<lambda>job. pd_job_impl_start_sending G env
               (Option.bind (pd_engine_get_printer_by_path G (jb_printer job) w3) (w_printers w3)) job) w3))"

definition pd_engine_job_state_notify :: "glib \<Rightarrow> os_env \<Rightarrow> nat \<Rightarrow> world \<Rightarrow> world" where
  "pd_engine_job_state_notify G env j w =
     (case w_jobs w j of
        None \<Rightarrow> w
      | Some job \<Rightarrow>
          (case printer_at w (jb_printer job) of
             None \<Rightarrow> w
           | Some p \<Rightarrow>
               (case jb_state job of
                  PD_JOB_STATE_PENDING \<Rightarrow>
                    (if map_option prn_state (w_printers w p) = Some PD_PRINTER_STATE_IDLE
                     then pd_engine_start_job G env p j (upd_job j (jb_watched_engine_update (\<lambda>_. False)) w)
                     else w)
                | PD_JOB_STATE_PENDING_HELD \<Rightarrow> w
                | _ \<Rightarrow> upd_job j (jb_watched_engine_update (\<lambda>_. False)) w)))"

definition pd_engine_job_state_reasons_notify :: "nat \<Rightarrow> world \<Rightarrow> world" where
  "pd_engine_job_state_reasons_notify j w =
     (case w_jobs w j of
        None \<Rightarrow> w
      | Some job \<Rightarrow>
          if list_ex (\<lambda>r. r = ''job-outgoing'') (jb_state_reasons job) then w
          else
            (case printer_at w (jb_printer job) of
               None \<Rightarrow> w
             | Some p \<Rightarrow>
                 upd_job j (jb_watched_reasons_update (\<lambda>_. False))
                   (upd_printer p (prn_job_outgoing_update (\<lambda>_. False)) w)))"

definition job_state_of :: "world \<Rightarrow> nat \<Rightarrow> job_state" where
  "job_state_of w j = (case w_jobs w j of Some job \<Rightarrow> jb_state job | None \<Rightarrow> Job_state_zero)"

definition pd_engine_printer_state_notify :: "glib \<Rightarrow> os_env \<Rightarrow> nat \<Rightarrow> world \<Rightarrow> world" where
  "pd_engine_printer_state_notify G env p w =
     (case w_printers w p of
        None \<Rightarrow> w
      | Some printer \<Rightarrow>
          if prn_state printer \<noteq> PD_PRINTER_STATE_IDLE then w
          else
            (case pd_printer_impl_get_next_job (job_state_of w) printer of
               None \<Rightarrow> w
             | Some j \<Rightarrow> pd_engine_start_job G env p j w))"

end
