(* ===== verification/Pd_Manager.thy ===== *)
theory Pd_Manager
  imports Pd_Engine
begin

text \<open>
  The methods on the bus that reach the engine: those of the manager (src/pd-manager-impl.c),
  CreatePrinter of a device (src/pd-device-impl.c), and CreateJob of a printer with the handlers
  it connects to the job (src/pd-printer-impl.c). A method yields the world and the replies it
  sent; None is undefined behaviour, as in Pd_Engine.
\<close>

subsection \<open>The manager\<close>

definition pd_manager_impl_get_printers :: "(string list \<Rightarrow> string list) \<Rightarrow> world \<Rightarrow> reply list" where
  "pd_manager_impl_get_printers ord w =
     [Reply_value (Paths_value (map printer_path_of (pd_engine_dup_printer_ids ord w)))]"

definition device_path_at :: "glib \<Rightarrow> world \<Rightarrow> nat \<Rightarrow> string" where
  "device_path_at G w a =
     device_path_of (fmt_s (Option.bind (w_devices w a) (\<lambda>d. fst (pd_device_impl_get_id G d))))"

definition pd_manager_impl_get_devices :: "glib \<Rightarrow> (nat list \<Rightarrow> nat list) \<Rightarrow> world \<Rightarrow> reply list" where
  "pd_manager_impl_get_devices G ord w =
     [Reply_value (Paths_value (map (device_path_at G w) (pd_engine_get_devices ord w)))]"

text \<open>What CreatePrinter of the manager and of a device do with the new printer.\<close>

definition finish_printer :: "glib \<Rightarrow> string list \<Rightarrow> attrs \<Rightarrow> nat \<Rightarrow> world \<Rightarrow> world \<times> reply list" where
  "finish_printer G device_uris defaults p w =
     (let w1 = upd_printer p (\<lambda>prn. snd (pd_printer_impl_get_id G
                 (pd_printer_impl_do_update_defaults defaults (prn\<lparr>prn_device_uris := device_uris\<rparr>)))) w in
      (w1, [Reply_value (Path_value (printer_path_of
              (fmt_s (Option.bind (w_printers w1 p) prn_id))))]))"

definition pd_manager_impl_complete_create_printer ::
  "glib \<Rightarrow> ppd_open \<Rightarrow> attrs \<Rightarrow> string \<Rightarrow> string \<Rightarrow> string \<Rightarrow> string list \<Rightarrow> attrs \<Rightarrow> world
    \<Rightarrow> (world \<times> reply list) option" where
  "pd_manager_impl_complete_create_printer G ppd_open options name description location device_uris defaults w =
     (case pd_engine_add_printer G ppd_open (Some options) name description location None w of
        None \<Rightarrow> None
      | Some (Inl message, w1) \<Rightarrow> Some (w1, [Reply_error PD_ERROR_FAILED message])
      | Some (Inr p, w1) \<Rightarrow> Some (finish_printer G device_uris defaults p w1))"

definition pd_manager_impl_create_printer ::
  "glib \<Rightarrow> ppd_open \<Rightarrow> daemon_env \<Rightarrow> attrs \<Rightarrow> string \<Rightarrow> string \<Rightarrow> string \<Rightarrow> string list \<Rightarrow> attrs \<Rightarrow> world
    \<Rightarrow> (world \<times> reply list) option" where
  "pd_manager_impl_create_printer G ppd_open d options name description location device_uris defaults w =
     (let (ok, rs) = pd_daemon_check_authorization_sync d ''Authentication is required to add a printer''
            ''org.freedesktop.printerd.all-edit'' [''org.freedesktop.printerd.printer-add''] in
      if \<not> ok then Some (w, rs)
      else map_option (\<lambda>(w1, rs1). (w1, rs @ rs1))
        (pd_manager_impl_complete_create_printer G ppd_open options name description location device_uris defaults w))"

text \<open>DeletePrinter makes no authorization check.\<close>

definition pd_manager_impl_delete_printer :: "glib \<Rightarrow> string \<Rightarrow> world \<Rightarrow> (world \<times> reply list) option" where
  "pd_manager_impl_delete_printer G printer_path w =
     map_option (\<lambda>(removed, w1).
         (w1, [if removed then Reply_value Unit_value else Reply_error PD_ERROR_FAILED ''Not found'']))
       (pd_engine_remove_printer G printer_path w)"

subsection \<open>CreatePrinter of a device\<close>

text \<open>The call passes no options, so add_printer has no error to report: Inl is a NULL printer.\<close>

definition pd_device_impl_complete_create_printer ::
  "glib \<Rightarrow> ppd_open \<Rightarrow> device \<Rightarrow> string \<Rightarrow> string \<Rightarrow> string \<Rightarrow> attrs \<Rightarrow> world \<Rightarrow> (world \<times> reply list) option" where
  "pd_device_impl_complete_create_printer G ppd_open device name description location defaults w =
     (case pd_engine_add_printer G ppd_open None name description location (dev_ieee1284_id device) w of
        None \<Rightarrow> None
      | Some (Inl message, w1) \<Rightarrow> None
      | Some (Inr p, w1) \<Rightarrow> Some (finish_printer G [dev_uri device] defaults p w1))"

definition pd_device_impl_create_printer ::
  "glib \<Rightarrow> ppd_open \<Rightarrow> daemon_env \<Rightarrow> device \<Rightarrow> string \<Rightarrow> string \<Rightarrow> string \<Rightarrow> attrs \<Rightarrow> world
    \<Rightarrow> (world \<times> reply list) option" where
  "pd_device_impl_create_printer G ppd_open d device name description location defaults w =
     (let (ok, rs) = pd_daemon_check_authorization_sync d ''Authentication is required to add a printer''
            ''org.freedesktop.printerd.all-edit'' [''org.freedesktop.printerd.printer-add''] in
      if \<not> ok then Some (w, rs)
      else map_option (\<lambda>(w1, rs1). (w1, rs @ rs1))
        (pd_device_impl_complete_create_printer G ppd_open device name description location defaults w))"

subsection \<open>CreateJob\<close>

definition pd_printer_impl_complete_create_job ::
  "glib \<Rightarrow> unix_user_env \<Rightarrow> nat \<Rightarrow> string \<Rightarrow> attrs \<Rightarrow> world \<Rightarrow> (world \<times> reply list) option" where
  "pd_printer_impl_complete_create_job G u p name attributes w =
     (case w_printers w p of
        None \<Rightarrow> None
      | Some printer \<Rightarrow>
          (case unsupported_attributes (prn_supported printer) attributes of
             None \<Rightarrow> None
           | Some unsupported \<Rightarrow>
               (let (j, w1) = pd_engine_add_job (printer_path_of (fmt_s (prn_id printer))) name
                      (update_attributes (prn_defaults printer) attributes) w;
                    w2 = upd_printer p (\<lambda>prn. prn\<lparr>prn_jobs := prn_jobs prn @ [j]\<rparr>) w1;
                    w3 = upd_job j (jb_watched_printer_update (\<lambda>_. True)) w2;
                    w4 = upd_job j (\<lambda>job. pd_job_impl_set_attribute G job ''job-originating-user-name''
                           (GV_string (pd_get_unix_user u))) w3 in
                Some (w4, [Reply_value (Job_value (job_path_of (w_next_job_id w)) unsupported)]))))"

definition pd_printer_impl_create_job ::
  "glib \<Rightarrow> daemon_env \<Rightarrow> unix_user_env \<Rightarrow> nat \<Rightarrow> string \<Rightarrow> attrs \<Rightarrow> world \<Rightarrow> (world \<times> reply list) option" where
  "pd_printer_impl_create_job G d u p name attributes w =
     (let (ok, rs) = pd_daemon_check_authorization_sync d ''Authentication is required to add a job''
            ''org.freedesktop.printerd.job-add'' [] in
      if \<not> ok then Some (w, rs)
      else map_option (\<lambda>(w1, rs1). (w1, rs @ rs1)) (pd_printer_impl_complete_create_job G u p name attributes w))"

subsection \<open>The handlers of a printer for its jobs\<close>

definition pd_printer_impl_job_state_notify :: "nat \<Rightarrow> world \<Rightarrow> world" where
  "pd_printer_impl_job_state_notify j w =
     (case w_jobs w j of
        None \<Rightarrow> w
      | Some job \<Rightarrow>
          (case printer_at w (jb_printer job) of
             None \<Rightarrow> w
           | Some p \<Rightarrow>
               if jb_state job \<in> {PD_JOB_STATE_CANCELED, PD_JOB_STATE_ABORTED, PD_JOB_STATE_COMPLETED}
               then upd_printer p (\<lambda>prn.
                 if prn_state prn = PD_PRINTER_STATE_PROCESSING
                 then pd_printer_set_state PD_PRINTER_STATE_IDLE prn else prn) w
               else w))"

definition pd_printer_impl_job_add_state_reason :: "string \<Rightarrow> nat \<Rightarrow> world \<Rightarrow> world" where
  "pd_printer_impl_job_add_state_reason reason p w = upd_printer p (\<lambda>prn. pd_printer_impl_add_state_reason prn reason) w"

definition pd_printer_impl_job_remove_state_reason :: "string \<Rightarrow> nat \<Rightarrow> world \<Rightarrow> world" where
  "pd_printer_impl_job_remove_state_reason reason p w = upd_printer p (\<lambda>prn. pd_printer_impl_remove_state_reason prn reason) w"

end
