(* ===== verification/Pd_Registry.thy ===== *)
theory Pd_Registry
  imports Pd_Manager
begin

text \<open>
  The invariant of the registries of the engine, what the operations on them do, and that each
  of them keeps the invariant: the table of printers and the printers that live correspond one
  to one, every job belongs to the queue of exactly one printer, and the bus shows exactly the
  objects of the registries, under paths that tell their kind.
\<close>

subsection \<open>The invariant\<close>

text \<open>What the invariant sees of printers and jobs.\<close>

definition printer_id :: "world \<Rightarrow> nat \<Rightarrow> string option" where
  "printer_id w p = Option.bind (w_printers w p) prn_id"

definition queue :: "world \<Rightarrow> nat \<Rightarrow> nat list" where
  "queue w p = (case w_printers w p of None \<Rightarrow> [] | Some prn \<Rightarrow> prn_jobs prn)"

definition job_key :: "world \<Rightarrow> nat \<Rightarrow> (guint \<times> string) option" where
  "job_key w j = map_option (\<lambda>job. (jb_id job, jb_printer job)) (w_jobs w j)"

definition printers_ok :: "world \<Rightarrow> bool" where
  "printers_ok w \<longleftrightarrow> table_ok (w_id_to_printer w)
     \<and> (\<forall>i p. map_of (w_id_to_printer w) i = Some p \<longrightarrow> printer_id w p = Some i)
     \<and> (\<forall>p. w_printers w p \<noteq> None \<longrightarrow>
          (\<exists>i. printer_id w p = Some i \<and> set i \<subseteq> set path_chars \<and> map_of (w_id_to_printer w) i = Some p))"

definition queues_ok :: "world \<Rightarrow> bool" where
  "queues_ok w \<longleftrightarrow>
     (\<forall>p. distinct (queue w p) \<and>
        (\<forall>j\<in>set (queue w p). \<exists>n. job_key w j = Some (n, printer_path_of (the (printer_id w p)))))
     \<and> (\<forall>j. job_key w j \<noteq> None \<longrightarrow> (\<exists>p. j \<in> set (queue w p)))"

definition on_bus :: "world \<Rightarrow> string \<Rightarrow> exported \<Rightarrow> bool" where
  "on_bus w path obj \<longleftrightarrow>
     (case obj of
        Obj_manager \<Rightarrow> path = manager_path
      | Obj_printer p \<Rightarrow> \<exists>i. path = printer_path_of i \<and> i \<noteq> [] \<and> map_of (w_id_to_printer w) i = Some p
      | Obj_job j \<Rightarrow> \<exists>n q. job_key w j = Some (n, q) \<and> path = job_path_of n
      | Obj_device a \<Rightarrow> \<exists>dev i. w_devices w a = Some dev \<and> dev_id dev = Some i \<and> path = device_path_of i)"

definition bus_ok :: "world \<Rightarrow> bool" where
  "bus_ok w \<longleftrightarrow> (\<forall>path obj. w_exported w path = Some obj \<longrightarrow> on_bus w path obj)
     \<and> (\<forall>i p. map_of (w_id_to_printer w) i = Some p \<and> i \<noteq> [] \<longrightarrow> w_exported w (printer_path_of i) = Some (Obj_printer p))
     \<and> w_exported w manager_path = Some Obj_manager"

definition devices_ok :: "world \<Rightarrow> bool" where
  "devices_ok w \<longleftrightarrow> table_ok (w_path_to_device w)
     \<and> (\<forall>s a. map_of (w_path_to_device w) s = Some a \<longrightarrow>
          (\<exists>dev i. w_devices w a = Some dev \<and> dev_id dev = Some i \<and> set i \<subseteq> set path_chars))"

definition fresh_ok :: "world \<Rightarrow> bool" where
  "fresh_ok w \<longleftrightarrow> (\<forall>a\<ge>w_next w. w_printers w a = None \<and> w_jobs w a = None \<and> w_devices w a = None)"

definition reg_inv :: "world \<Rightarrow> bool" where
  "reg_inv w \<longleftrightarrow> printers_ok w \<and> queues_ok w \<and> bus_ok w \<and> devices_ok w \<and> fresh_ok w"

lemmas reg_defs = printers_ok_def queues_ok_def bus_ok_def devices_ok_def fresh_ok_def

subsection \<open>Frames\<close>

lemma upd_frame [frame, simp]:
  "w_id_to_printer (upd_printer p f w) = w_id_to_printer w" "w_id_to_printer (upd_job j g w) = w_id_to_printer w"
  "w_path_to_device (upd_printer p f w) = w_path_to_device w" "w_path_to_device (upd_job j g w) = w_path_to_device w"
  "w_exported (upd_printer p f w) = w_exported w" "w_exported (upd_job j g w) = w_exported w"
  "w_jobs (upd_printer p f w) = w_jobs w" "w_printers (upd_job j g w) = w_printers w"
  "w_devices (upd_printer p f w) = w_devices w" "w_devices (upd_job j g w) = w_devices w"
  "w_next (upd_printer p f w) = w_next w" "w_next (upd_job j g w) = w_next w"
  "w_next_job_id (upd_printer p f w) = w_next_job_id w" "w_next_job_id (upd_job j g w) = w_next_job_id w"
  "w_released (upd_printer p f w) = w_released w" "w_released (upd_job j g w) = w_released w"
  by (simp_all add: upd_printer_def upd_job_def)

lemma upd_lookup [simp]:
  "w_printers (upd_printer p f w) q = (if q = p then map_option f (w_printers w p) else w_printers w q)"
  "w_jobs (upd_job j g w) k = (if k = j then map_option g (w_jobs w j) else w_jobs w k)"
  by (simp_all add: upd_printer_def upd_job_def)

lemma export_frame [frame, simp]:
  "w_id_to_printer (export path obj w) = w_id_to_printer w" "w_path_to_device (export path obj w) = w_path_to_device w"
  "w_printers (export path obj w) = w_printers w" "w_jobs (export path obj w) = w_jobs w"
  "w_devices (export path obj w) = w_devices w" "w_next (export path obj w) = w_next w"
  "w_next_job_id (export path obj w) = w_next_job_id w" "w_released (export path obj w) = w_released w"
  "w_id_to_printer (unexport path w) = w_id_to_printer w" "w_path_to_device (unexport path w) = w_path_to_device w"
  "w_printers (unexport path w) = w_printers w" "w_jobs (unexport path w) = w_jobs w"
  "w_devices (unexport path w) = w_devices w" "w_next (unexport path w) = w_next w"
  "w_next_job_id (unexport path w) = w_next_job_id w" "w_released (unexport path w) = w_released w"
  by (simp_all add: export_def unexport_def)

lemma export_lookup [simp]:
  "w_exported (export path obj w) q = (if object_path path \<and> q = path then Some obj else w_exported w q)"
  "w_exported (unexport path w) q = (if q = path then None else w_exported w q)"
  by (simp_all add: export_def unexport_def)

text \<open>Changes that leave identifiers and queues alone keep the invariant.\<close>

lemma view_upd [simp]:
  "(\<And>prn. w_printers w p = Some prn \<Longrightarrow> prn_id (f prn) = prn_id prn) \<Longrightarrow> printer_id (upd_printer p f w) = printer_id w"
  "(\<And>prn. w_printers w p = Some prn \<Longrightarrow> prn_jobs (f prn) = prn_jobs prn) \<Longrightarrow> queue (upd_printer p f w) = queue w"
  "job_key (upd_printer p f w) = job_key w"
  "printer_id (upd_job j g w) = printer_id w" "queue (upd_job j g w) = queue w"
  "(\<And>job. w_jobs w j = Some job \<Longrightarrow> jb_id (g job) = jb_id job \<and> jb_printer (g job) = jb_printer job)
    \<Longrightarrow> job_key (upd_job j g w) = job_key w"
  by (cases "w_printers w p"; cases "w_jobs w j"; auto simp: printer_id_def queue_def job_key_def fun_eq_iff)+

lemma view_export [simp]:
  "printer_id (export path obj w) = printer_id w" "queue (export path obj w) = queue w"
  "job_key (export path obj w) = job_key w" "printer_id (unexport path w) = printer_id w"
  "queue (unexport path w) = queue w" "job_key (unexport path w) = job_key w"
  by (simp_all add: printer_id_def queue_def job_key_def fun_eq_iff)

lemma on_bus_cong:
  "job_key w' = job_key w \<Longrightarrow> w_devices w' = w_devices w \<Longrightarrow> w_id_to_printer w' = w_id_to_printer w \<Longrightarrow> on_bus w' = on_bus w"
  by (simp add: on_bus_def fun_eq_iff split: exported.split)

lemma reg_inv_cong:
  assumes "printer_id w' = printer_id w" "queue w' = queue w" "job_key w' = job_key w"
    and "w_id_to_printer w' = w_id_to_printer w" "w_path_to_device w' = w_path_to_device w"
    and "w_exported w' = w_exported w" "w_devices w' = w_devices w" "w_next w' = w_next w"
    and "\<And>p. (w_printers w' p = None) = (w_printers w p = None)"
    and "\<And>j. (w_jobs w' j = None) = (w_jobs w j = None)"
  shows "reg_inv w' = reg_inv w"
  using on_bus_cong [OF assms(3,7,4)] assms by (simp add: reg_inv_def reg_defs)

lemma reg_inv_upd_printer:
  assumes "reg_inv w" and "\<And>prn. w_printers w p = Some prn \<Longrightarrow> prn_id (f prn) = prn_id prn \<and> prn_jobs (f prn) = prn_jobs prn"
  shows "reg_inv (upd_printer p f w)"
proof -
  have "reg_inv (upd_printer p f w) = reg_inv w" by (rule reg_inv_cong) (simp_all add: assms(2))
  with assms(1) show ?thesis by simp
qed

lemma reg_inv_upd_job:
  assumes "reg_inv w" and "\<And>job. w_jobs w j = Some job \<Longrightarrow> jb_id (f job) = jb_id job \<and> jb_printer (f job) = jb_printer job"
  shows "reg_inv (upd_job j f w)"
proof -
  have "reg_inv (upd_job j f w) = reg_inv w" by (rule reg_inv_cong) (simp_all add: assms(2))
  with assms(1) show ?thesis by simp
qed

subsection \<open>Adding a printer\<close>

lemma suffixes_facts:
  "n \<in> set collision_suffixes \<longleftrightarrow> 2 \<le> n \<and> n < 1000" "distinct collision_suffixes" "length collision_suffixes = 998"
  unfolding collision_suffixes_def by (simp_all only: set_upt atLeastLessThan_iff distinct_upt length_upt)

lemma choose_id_free:
  assumes "choose_id t i = Some objid"
  shows "map_of t objid = None \<and> (objid = i \<and> map_of t i = None
    \<or> map_of t i \<noteq> None \<and> (\<exists>n. 2 \<le> n \<and> n < 1000 \<and> objid = i @ ''_'' @ fmt_u n))"
proof (cases "map_of t i = None")
  case False
  then obtain n where n: "List.find (\<lambda>n. map_of t (i @ ''_'' @ fmt_u n) = None) collision_suffixes = Some n"
    "objid = i @ ''_'' @ fmt_u n" using assms by (auto simp: choose_id_def)
  then have "n \<in> set collision_suffixes" "map_of t objid = None" by (auto simp: find_Some_iff)
  with n(2) False show ?thesis using suffixes_facts(1) by blast
qed (use assms in \<open>simp add: choose_id_def\<close>)

lemma choose_id_None:
  "choose_id t i = None \<longleftrightarrow> map_of t i \<noteq> None \<and> (\<forall>n. 2 \<le> n \<and> n < 1000 \<longrightarrow> map_of t (i @ ''_'' @ fmt_u n) \<noteq> None)"
proof -
  have "List.find P collision_suffixes = None \<longleftrightarrow> (\<forall>n. 2 \<le> n \<and> n < 1000 \<longrightarrow> \<not> P n)" for P
    unfolding find_None_iff suffixes_facts(1) by blast
  then show ?thesis unfolding choose_id_def by simp
qed

text \<open>There is a free identifier while fewer than 999 printers are registered.\<close>

lemma choose_id_total:
  assumes "table_ok t" and "length t < 999" shows "choose_id t i \<noteq> None"
proof
  let ?ks = "i # map (\<lambda>n. i @ ''_'' @ fmt_u n) collision_suffixes"
  assume "choose_id t i = None"
  then have "map_of t k \<noteq> None" if "k \<in> set ?ks" for k
    using that suffixes_facts(1) unfolding choose_id_None by auto
  moreover have "distinct ?ks" by (auto simp: distinct_map inj_on_def suffixes_facts(2))
  moreover have "length (map fst t) < length ?ks" using assms(2) by (simp add: suffixes_facts(3))
  ultimately show False using ht.free_candidate [OF assms(1), of ?ks] by blast
qed

lemma id_chars_path_chars: "id_chars = path_chars"
  by (simp add: id_chars_def path_chars_def)

lemma printer_get_id:
  assumes "glib_contract G" and "prn_id prn = None" and "pd_printer_impl_get_id G prn = (i, prn')"
  shows "set i \<subseteq> set path_chars \<and> i = doc_strcanon (prn_name prn) path_chars CHR ''_'' \<and> prn' = prn\<lparr>prn_id := Some i\<rparr>"
proof -
  have "CHR ''_'' \<in> set path_chars" by (simp add: path_chars_def)
  from set_strcanon [OF this] show ?thesis
    using assms(2,3) by (simp add: pd_printer_impl_get_id_def glib_contract.strcanon [OF assms(1)] id_chars_path_chars Let_def) blast
qed

lemma set_driver_frame:
  assumes "pd_printer_impl_set_driver G ppd_open driver prn = (ok, prn')"
  shows "prn_id prn' = prn_id prn \<and> prn_jobs prn' = prn_jobs prn \<and> prn_name prn' = prn_name prn
    \<and> prn_state prn' = prn_state prn \<and> prn_job_outgoing prn' = prn_job_outgoing prn"
  using assms by (auto simp: pd_printer_impl_set_driver_def Let_def split: option.splits)

text \<open>The world after a printer was entered under an identifier.\<close>

definition entered :: "string \<Rightarrow> printer \<Rightarrow> world \<Rightarrow> world" where
  "entered objid prn w = export (printer_path_of objid) (Obj_printer (w_next w))
     (w\<lparr>w_next := Suc (w_next w), w_printers := (w_printers w)(w_next w \<mapsto> prn),
        w_id_to_printer := AList.update objid (w_next w) (w_id_to_printer w)\<rparr>)"

lemma add_printer_entered:
  assumes "glib_contract G"
    and "pd_engine_add_printer G ppd_open options name description location ieee1284_id w = Some (Inr a, w')"
  obtains objid prn where "w' = entered objid prn w" and "a = w_next w"
    and "choose_id (w_id_to_printer w) (doc_strcanon name path_chars CHR ''_'') = Some objid"
    and "set objid \<subseteq> set path_chars" and "prn_id prn = Some objid" and "prn_jobs prn = []"
    and "prn_state prn = PD_PRINTER_STATE_IDLE" and "\<not> prn_job_outgoing prn" and "prn_watched prn" and "prn_name prn = name"
proof -
  let ?p0 = "pd_printer_impl_init name description location ieee1284_id"
  let ?driver = "Option.bind options (\<lambda>opts. lookup_string opts ''driver-name'')"
  obtain ok p1 where p1: "(if ?driver = None then (True, ?p0) else pd_printer_impl_set_driver G ppd_open ?driver ?p0) = (ok, p1)"
    by fastforce
  then have f1: "prn_id p1 = None" "prn_jobs p1 = []" "prn_name p1 = name" "prn_state p1 = PD_PRINTER_STATE_IDLE"
    "\<not> prn_job_outgoing p1"
    using set_driver_frame [of G ppd_open ?driver ?p0] by (auto simp: pd_printer_impl_init_def split: if_splits)
  obtain i p2 where p2: "pd_printer_impl_get_id G p1 = (i, p2)" by fastforce
  note gi = printer_get_id [OF assms(1) f1(1) p2]
  from assms(2) have ok "choose_id (w_id_to_printer w) i \<noteq> None"
    by (auto simp: pd_engine_add_printer_def p1 p2 Let_def split: if_splits option.splits)
  then obtain objid where objid: "choose_id (w_id_to_printer w) i = Some objid" by blast
  let ?p3 = "(if map_of (w_id_to_printer w) i \<noteq> None then pd_printer_impl_set_id objid p2 else p2)\<lparr>prn_watched := True\<rparr>"
  note free = choose_id_free [OF objid]
  show ?thesis
  proof (rule that [of objid ?p3])
    show "w' = entered objid ?p3 w" "a = w_next w"
      using assms(2) \<open>ok\<close> by (auto simp: pd_engine_add_printer_def p1 p2 objid entered_def Let_def)
    show "choose_id (w_id_to_printer w) (doc_strcanon name path_chars CHR ''_'') = Some objid"
      using gi objid f1(3) by simp
    have "set (fmt_u n) \<subseteq> set path_chars" for n using fmt_u_path_chars by blast
    moreover have "CHR ''_'' \<in> set path_chars" by (simp add: path_chars_def)
    moreover have "set i \<subseteq> set path_chars" using gi by blast
    ultimately show "set objid \<subseteq> set path_chars" using free by (elim conjE disjE exE) simp_all
    show "prn_id ?p3 = Some objid" using free gi by (auto simp: pd_printer_impl_set_id_def)
  qed (use gi f1 in \<open>auto simp: pd_printer_impl_set_id_def\<close>)
qed

lemma entered_views:
  assumes "fresh_ok w" and "prn_id prn = Some objid" and "prn_jobs prn = []"
  shows "printer_id (entered objid prn w) = (printer_id w)(w_next w \<mapsto> objid)"
    and "queue (entered objid prn w) = queue w" and "job_key (entered objid prn w) = job_key w"
    and "w_printers (entered objid prn w) = (w_printers w)(w_next w \<mapsto> prn)"
    and "w_id_to_printer (entered objid prn w) = AList.update objid (w_next w) (w_id_to_printer w)"
    and "w_jobs (entered objid prn w) = w_jobs w" and "w_devices (entered objid prn w) = w_devices w"
    and "w_path_to_device (entered objid prn w) = w_path_to_device w" and "w_next (entered objid prn w) = Suc (w_next w)"
  using assms by (auto simp: entered_def printer_id_def queue_def job_key_def fun_eq_iff fresh_ok_def)

lemma entered_exported:
  assumes "set objid \<subseteq> set path_chars"
  shows "w_exported (entered objid prn w) path =
    (if objid \<noteq> [] \<and> path = printer_path_of objid then Some (Obj_printer (w_next w)) else w_exported w path)"
proof -
  have "CHR ''/'' \<notin> set objid" using assms path_chars_no_slash by blast
  with assms show ?thesis by (auto simp: entered_def object_path_of(1))
qed

lemma reg_inv_entered:
  assumes inv: "reg_inv w" and new: "map_of (w_id_to_printer w) objid = None" and cs: "set objid \<subseteq> set path_chars"
    and prn: "prn_id prn = Some objid" "prn_jobs prn = []"
  shows "reg_inv (entered objid prn w)"
proof -
  from inv have P: "printers_ok w" and Q: "queues_ok w" and B: "bus_ok w" and D: "devices_ok w" and F: "fresh_ok w"
    by (simp_all add: reg_inv_def)
  note v = entered_views [OF F prn] entered_exported [OF cs]
  have nx: "map_of (w_id_to_printer w) i \<noteq> Some (w_next w)" for i
  proof
    assume "map_of (w_id_to_printer w) i = Some (w_next w)"
    with P have "printer_id w (w_next w) = Some i" by (simp add: printers_ok_def)
    then show False using F by (simp add: printer_id_def fresh_ok_def)
  qed
  have nq: "queue w (w_next w) = []" using F by (simp add: queue_def fresh_ok_def)
  have tab: "map_of (AList.update objid (w_next w) (w_id_to_printer w)) = (map_of (w_id_to_printer w))(objid \<mapsto> w_next w)"
    by (simp add: AList.update_conv')
  have "printers_ok (entered objid prn w)"
    unfolding printers_ok_def v tab
  proof (intro conjI allI impI)
    fix p assume "((w_printers w)(w_next w \<mapsto> prn)) p \<noteq> None"
    show "\<exists>i. ((printer_id w)(w_next w \<mapsto> objid)) p = Some i \<and> set i \<subseteq> set path_chars
        \<and> ((map_of (w_id_to_printer w))(objid \<mapsto> w_next w)) i = Some p"
    proof (cases "p = w_next w")
      case False
      with \<open>((w_printers w)(w_next w \<mapsto> prn)) p \<noteq> None\<close> P obtain i where
        i: "printer_id w p = Some i" "set i \<subseteq> set path_chars" "map_of (w_id_to_printer w) i = Some p"
        unfolding printers_ok_def by (metis fun_upd_other)
      with new have "i \<noteq> objid" by auto
      with i False show ?thesis by simp
    qed (use cs in simp)
  next
    fix i p assume "((map_of (w_id_to_printer w))(objid \<mapsto> w_next w)) i = Some p"
    then show "((printer_id w)(w_next w \<mapsto> objid)) p = Some i"
      using P nx [of i] unfolding printers_ok_def by (auto split: if_splits)
  qed (use P in \<open>simp add: printers_ok_def AList.distinct_update\<close>)
  moreover have "queues_ok (entered objid prn w)"
    unfolding queues_ok_def v
  proof (intro conjI allI ballI impI)
    fix p j assume "j \<in> set (queue w p)"
    moreover from this nq have "p \<noteq> w_next w" by auto
    ultimately show "\<exists>n. job_key w j = Some (n, printer_path_of (the (((printer_id w)(w_next w \<mapsto> objid)) p)))"
      using Q by (simp add: queues_ok_def)
  next
    show "distinct (queue w p)" for p using Q by (simp add: queues_ok_def)
    show "\<exists>p. j \<in> set (queue w p)" if "job_key w j \<noteq> None" for j using Q that unfolding queues_ok_def by blast
  qed
  moreover have "bus_ok (entered objid prn w)"
  proof -
    have "on_bus (entered objid prn w) path obj" if "on_bus w path obj" for path obj
    proof (cases obj)
      case (Obj_printer p)
      with that obtain i where i: "path = printer_path_of i" "i \<noteq> []" "map_of (w_id_to_printer w) i = Some p"
        by (auto simp: on_bus_def)
      with new have "i \<noteq> objid" by auto
      with i Obj_printer show ?thesis unfolding on_bus_def v tab by simp
    qed (use that in \<open>simp_all add: on_bus_def v\<close>)
    moreover have "on_bus (entered objid prn w) (printer_path_of objid) (Obj_printer (w_next w))" if "objid \<noteq> []"
      using that by (simp add: on_bus_def v tab)
    moreover have "w_exported w path = Some obj \<Longrightarrow> on_bus w path obj" for path obj
      using B by (simp add: bus_ok_def)
    ultimately have "on_bus (entered objid prn w) path obj" if "w_exported (entered objid prn w) path = Some obj" for path obj
      using that unfolding v by (metis (mono_tags) option.inject)
    moreover have "w_exported (entered objid prn w) (printer_path_of i) = Some (Obj_printer p)"
      if "((map_of (w_id_to_printer w))(objid \<mapsto> w_next w)) i = Some p" "i \<noteq> []" for i p
      using that B unfolding bus_ok_def v by (cases "i = objid") simp_all
    moreover have "w_exported (entered objid prn w) manager_path = Some Obj_manager"
      using B unfolding bus_ok_def v by simp
    ultimately show ?thesis unfolding bus_ok_def v(5) tab by blast
  qed
  moreover have "devices_ok (entered objid prn w)" using D by (simp add: devices_ok_def v)
  moreover have "fresh_ok (entered objid prn w)" using F by (simp add: fresh_ok_def v)
  ultimately show ?thesis by (simp add: reg_inv_def)
qed

lemma add_printer_error:
  "pd_engine_add_printer G ppd_open options name description location ieee1284_id w = Some (Inl m, w') \<Longrightarrow> w' = w"
  by (auto simp: pd_engine_add_printer_def Let_def split: if_splits option.splits prod.splits)

lemma reg_inv_add_printer:
  assumes "glib_contract G" and "reg_inv w"
    and "pd_engine_add_printer G ppd_open options name description location ieee1284_id w = Some (r, w')"
  shows "reg_inv w'"
proof (cases r)
  case (Inl m)
  with assms(2,3) add_printer_error show ?thesis by blast
next
  case (Inr a)
  obtain objid prn where "w' = entered objid prn w"
    "choose_id (w_id_to_printer w) (doc_strcanon name path_chars CHR ''_'') = Some objid"
    "set objid \<subseteq> set path_chars" "prn_id prn = Some objid" "prn_jobs prn = []"
    by (rule add_printer_entered [OF assms(1) assms(3) [unfolded Inr]])
  with reg_inv_entered [OF assms(2)] choose_id_free show ?thesis by blast
qed

subsection \<open>Removing a printer\<close>

text \<open>A job up to the connections of its handlers.\<close>

definition same_job :: "job \<Rightarrow> job \<Rightarrow> bool" where
  "same_job a b \<longleftrightarrow> (\<exists>x y. b = a\<lparr>jb_watched_engine := x, jb_watched_printer := y\<rparr>)"

lemma same_job_simps:
  "same_job a b \<Longrightarrow> jb_id b = jb_id a" "same_job a b \<Longrightarrow> jb_printer b = jb_printer a"
  "same_job a b \<Longrightarrow> pd_job_impl_finalize b = pd_job_impl_finalize a"
  by (auto simp: same_job_def pd_job_impl_finalize_def split: option.split)

lemma same_job_refl [simp]: "same_job a a"
proof -
  have "a = a\<lparr>jb_watched_engine := jb_watched_engine a, jb_watched_printer := jb_watched_printer a\<rparr>" by simp
  then show ?thesis unfolding same_job_def by blast
qed

lemma same_job_trans [trans]:
  assumes "same_job a b" and "same_job b c" shows "same_job a c"
proof -
  from assms obtain x y x' y' where "b = a\<lparr>jb_watched_engine := x, jb_watched_printer := y\<rparr>"
    "c = b\<lparr>jb_watched_engine := x', jb_watched_printer := y'\<rparr>" by (auto simp: same_job_def)
  then have "c = a\<lparr>jb_watched_engine := x', jb_watched_printer := y'\<rparr>" by simp
  then show ?thesis unfolding same_job_def by blast
qed

lemma same_job_unwatch_both: "same_job a (a\<lparr>jb_watched_printer := y, jb_watched_engine := x\<rparr>)"
  unfolding same_job_def by (intro exI [of _ x] exI [of _ y]) simp

lemma same_job_unwatch: "same_job a (a\<lparr>jb_watched_engine := x\<rparr>)" "same_job a (a\<lparr>jb_watched_printer := x\<rparr>)"
proof -
  have "a\<lparr>jb_watched_engine := x\<rparr> = a\<lparr>jb_watched_engine := x, jb_watched_printer := jb_watched_printer a\<rparr>"
    "a\<lparr>jb_watched_printer := x\<rparr> = a\<lparr>jb_watched_engine := jb_watched_engine a, jb_watched_printer := x\<rparr>" by simp_all
  then show "same_job a (a\<lparr>jb_watched_engine := x\<rparr>)" "same_job a (a\<lparr>jb_watched_printer := x\<rparr>)"
    unfolding same_job_def by blast+
qed

definition job_paths :: "nat list \<Rightarrow> world \<Rightarrow> string set" where
  "job_paths js w = {path. \<exists>j\<in>set js. \<exists>n q. job_key w j = Some (n, q) \<and> path = job_path_of n}"

lemma job_paths_Cons: "job_paths (j # js) w = job_paths [j] w \<union> job_paths js w"
  by (auto simp: job_paths_def)

text \<open>What taking the jobs js off the bus changes.\<close>

definition off_bus :: "nat list \<Rightarrow> world \<Rightarrow> world \<Rightarrow> bool" where
  "off_bus js w w' \<longleftrightarrow>
     w_id_to_printer w' = w_id_to_printer w \<and> w_path_to_device w' = w_path_to_device w
     \<and> w_printers w' = w_printers w \<and> w_devices w' = w_devices w \<and> w_next w' = w_next w
     \<and> w_next_job_id w' = w_next_job_id w \<and> w_released w' = w_released w
     \<and> (\<forall>j. rel_option same_job (w_jobs w j) (w_jobs w' j))
     \<and> (\<forall>path. w_exported w' path = (if path \<in> job_paths js w then None else w_exported w path))"

lemma off_bus_job_key:
  assumes "off_bus js w w'" shows "job_key w' = job_key w"
proof
  fix j
  from assms have "rel_option same_job (w_jobs w j) (w_jobs w' j)" by (simp add: off_bus_def)
  then show "job_key w' j = job_key w j"
    by (cases "w_jobs w j"; cases "w_jobs w' j") (auto simp: job_key_def same_job_simps)
qed

lemma rel_same_refl [simp]: "rel_option same_job a a"
  by (cases a) simp_all

lemma rel_same_trans: "rel_option same_job a b \<Longrightarrow> rel_option same_job b c \<Longrightarrow> rel_option same_job a c"
  by (cases a; cases b; cases c) (auto intro: same_job_trans)

lemma off_bus_Nil [simp]: "off_bus [] w w"
  by (simp add: off_bus_def job_paths_def)

lemma off_bus_trans:
  assumes "off_bus [j] w1 w2" and "off_bus js w2 w3" shows "off_bus (j # js) w1 w3"
proof -
  have k: "job_key w2 = job_key w1" by (rule off_bus_job_key [OF assms(1)])
  have "rel_option same_job (w_jobs w1 i) (w_jobs w3 i)" for i
    using assms rel_same_trans [of "w_jobs w1 i" "w_jobs w2 i" "w_jobs w3 i"] by (simp add: off_bus_def)
  moreover have "job_paths i w2 = job_paths i w1" for i by (simp add: job_paths_def k)
  ultimately show ?thesis using assms by (simp add: off_bus_def job_paths_Cons [of j js])
qed

text \<open>On a consistent bus every job path shows a job, so taking a live job off the bus succeeds.\<close>

lemma remove_one_job:
  assumes "\<forall>path obj. w_exported w path = Some obj \<longrightarrow> on_bus w path obj" and "w_jobs w j = Some job"
  shows "\<exists>w'. pd_printer_impl_remove_job j w = Some w' \<and> off_bus [j] w w'"
proof -
  let ?path = "job_path_of (jb_id job)"
  let ?w1 = "upd_job j (jb_watched_printer_update (\<lambda>_. False)) w"
  have key: "job_paths [j] w = {?path}" using assms(2) by (auto simp: job_paths_def job_key_def)
  have "rel_option same_job (w_jobs w i) (w_jobs ?w1 i)" for i
    using assms(2) by (simp add: same_job_unwatch)
  then have w1: "rel_option same_job (w_jobs w i) (w_jobs (upd_job k (jb_watched_engine_update (\<lambda>_. False)) (unexport ?path ?w1)) i)" for i k
    using rel_same_trans [of "w_jobs w i" "w_jobs ?w1 i"]
    by (cases "w_jobs ?w1 i") (auto simp: same_job_unwatch same_job_unwatch_both)
  show ?thesis
  proof (cases "w_exported w ?path")
    case None
    then show ?thesis
      using assms(2) key \<open>\<And>i. rel_option same_job (w_jobs w i) (w_jobs ?w1 i)\<close>
      by (auto simp: pd_printer_impl_remove_job_def pd_engine_remove_job_def off_bus_def)
  next
    case (Some obj)
    with assms(1) have "on_bus w ?path obj" by blast
    then obtain k where "obj = Obj_job k" by (cases obj) (auto simp: on_bus_def)
    with Some show ?thesis
      using assms(2) key w1 by (auto simp: pd_printer_impl_remove_job_def pd_engine_remove_job_def off_bus_def)
  qed
qed

lemma remove_jobs:
  assumes "\<forall>path obj. w_exported w path = Some obj \<longrightarrow> on_bus w path obj" and "\<forall>j\<in>set js. w_jobs w j \<noteq> None"
  shows "\<exists>w'. each_job pd_printer_impl_remove_job js w = Some w' \<and> off_bus js w w'"
  using assms
proof (induction js arbitrary: w)
  case (Cons j js)
  then obtain job where "w_jobs w j = Some job" by auto
  with Cons.prems remove_one_job obtain w1 where w1: "pd_printer_impl_remove_job j w = Some w1" "off_bus [j] w w1" by blast
  have "on_bus w1 = on_bus w"
    using w1(2) off_bus_job_key [OF w1(2)] by (intro on_bus_cong) (simp_all add: off_bus_def)
  moreover have "w_exported w1 path = Some obj \<Longrightarrow> w_exported w path = Some obj" for path obj
    using w1(2) by (auto simp: off_bus_def split: if_splits)
  ultimately have "\<forall>path obj. w_exported w1 path = Some obj \<longrightarrow> on_bus w1 path obj" using Cons.prems(1) by simp
  moreover have "\<forall>i\<in>set js. w_jobs w1 i \<noteq> None"
  proof
    fix i assume "i \<in> set js"
    then have "w_jobs w i \<noteq> None" using Cons.prems(2) by simp
    then show "w_jobs w1 i \<noteq> None" using w1(2) unfolding off_bus_def by (metis option.rel_sel)
  qed
  ultimately obtain w2 where "each_job pd_printer_impl_remove_job js w1 = Some w2" "off_bus js w1 w2"
    using Cons.IH by blast
  with w1 off_bus_trans show ?case by auto
qed simp

text \<open>Finalizing the jobs js: the calls of their finalizers, in order.\<close>

fun release_calls :: "nat list \<Rightarrow> world \<Rightarrow> syscall list option" where
  "release_calls [] w = Some []"
| "release_calls (j # js) w =
     (case Option.bind (w_jobs w j) pd_job_impl_finalize of
        None \<Rightarrow> None
      | Some (calls, spool_file) \<Rightarrow> map_option (\<lambda>cs. calls @ cs) (release_calls js w))"

lemma release_calls_cong:
  "(\<And>j. j \<in> set js \<Longrightarrow> Option.bind (w_jobs w j) pd_job_impl_finalize = Option.bind (w_jobs w' j) pd_job_impl_finalize) \<Longrightarrow>
     release_calls js w = release_calls js w'"
  by (induction js) (auto split: option.splits)

lemma release_jobs:
  assumes "distinct js"
  shows "each_job release_job js w =
    (case release_calls js w of
       None \<Rightarrow> None
     | Some calls \<Rightarrow> Some (w\<lparr>w_jobs := w_jobs w |` (- set js),
                             w_released := w_released w @ calls\<rparr>))"
  using assms
proof (induction js arbitrary: w)
  case (Cons j js)
  show ?case
  proof (cases "Option.bind (w_jobs w j) pd_job_impl_finalize")
    case None
    then show ?thesis by (cases "w_jobs w j") (simp_all add: release_job_def)
  next
    case (Some r)
    then obtain job calls spool where j: "w_jobs w j = Some job" "pd_job_impl_finalize job = Some (calls, spool)"
      by (cases "w_jobs w j"; cases r) auto
    let ?w1 = "w\<lparr>w_jobs := (w_jobs w)(j := None), w_released := w_released w @ calls\<rparr>"
    have "release_calls js ?w1 = release_calls js w"
      using Cons.prems by (intro release_calls_cong) auto
    moreover have "((w_jobs w)(j := None)) |` (- set js) = w_jobs w |` (- set (j # js))"
      by (auto simp: restrict_map_def)
    ultimately show ?thesis
      using Cons.IH [of ?w1] Cons.prems j by (simp add: release_job_def split: option.split)
  qed
qed (simp add: restrict_map_def)

text \<open>What removing the printer p, registered as i, changes.\<close>

definition gone :: "string \<Rightarrow> nat \<Rightarrow> syscall list \<Rightarrow> world \<Rightarrow> world \<Rightarrow> bool" where
  "gone i p calls w w' \<longleftrightarrow>
     w_id_to_printer w' = AList.delete i (w_id_to_printer w) \<and> w_path_to_device w' = w_path_to_device w
     \<and> w_printers w' = (w_printers w)(p := None) \<and> w_devices w' = w_devices w \<and> w_next w' = w_next w
     \<and> w_next_job_id w' = w_next_job_id w \<and> w_released w' = w_released w @ calls
     \<and> (\<forall>j. if j \<in> set (queue w p) then w_jobs w' j = None else rel_option same_job (w_jobs w j) (w_jobs w' j))
     \<and> (\<forall>path. w_exported w' path =
          (if path = printer_path_of i \<or> path \<in> job_paths (queue w p) w then None else w_exported w path))"

lemma off_bus_finalize:
  assumes "off_bus js w w'"
  shows "Option.bind (w_jobs w' j) pd_job_impl_finalize = Option.bind (w_jobs w j) pd_job_impl_finalize"
proof -
  from assms have "rel_option same_job (w_jobs w j) (w_jobs w' j)" by (simp add: off_bus_def)
  then show ?thesis by (cases "w_jobs w j"; cases "w_jobs w' j") (auto simp: same_job_simps)
qed

lemma registered_printer:
  assumes "reg_inv w" and "w_exported w path = Some (Obj_printer p)"
  obtains i prn where "path = printer_path_of i" and "i \<noteq> []" and "map_of (w_id_to_printer w) i = Some p"
    and "w_printers w p = Some prn" and "prn_id prn = Some i"
proof -
  from assms have "on_bus w path (Obj_printer p)" by (simp add: reg_inv_def bus_ok_def)
  then obtain i where i: "path = printer_path_of i" "i \<noteq> []" "map_of (w_id_to_printer w) i = Some p"
    by (auto simp: on_bus_def)
  with assms(1) have "printer_id w p = Some i" by (simp add: reg_inv_def printers_ok_def)
  then obtain prn where "w_printers w p = Some prn" "prn_id prn = Some i"
    by (auto simp: printer_id_def bind_eq_Some_conv)
  with i show ?thesis using that by blast
qed

lemma remove_printer_cases:
  assumes inv: "reg_inv w" and ex: "w_exported w path = Some (Obj_printer p)"
    and i: "path = printer_path_of i" "i \<noteq> []" "map_of (w_id_to_printer w) i = Some p"
    and prn: "w_printers w p = Some prn" "prn_id prn = Some i"
  shows "case release_calls (queue w p) w of
      None \<Rightarrow> pd_engine_remove_printer G path w = None
    | Some calls \<Rightarrow> \<exists>w'. pd_engine_remove_printer G path w = Some (True, w') \<and> gone i p calls w w'"
proof -
  let ?js = "queue w p"
  let ?prn = "prn\<lparr>prn_watched := False\<rparr>"
  let ?w1 = "unexport path w"
  let ?w2 = "upd_printer p (\<lambda>_. ?prn) (?w1\<lparr>w_id_to_printer := AList.delete i (w_id_to_printer ?w1)\<rparr>)"
  from inv have B: "bus_ok w" and Q: "queues_ok w" by (simp_all add: reg_inv_def)
  have js: "prn_jobs prn = ?js" using prn by (simp add: queue_def)
  have d: "distinct ?js" using Q by (simp add: queues_ok_def)
  have live: "w_jobs w j \<noteq> None" if "j \<in> set ?js" for j
  proof -
    from Q that have "\<exists>n. job_key w j = Some (n, printer_path_of (the (printer_id w p)))" by (simp add: queues_ok_def)
    then show ?thesis by (auto simp: job_key_def)
  qed
  have key2: "job_key ?w2 = job_key w" by (simp add: job_key_def fun_eq_iff)
  have "\<forall>path obj. w_exported ?w2 path = Some obj \<longrightarrow> on_bus ?w2 path obj"
  proof (intro allI impI)
    fix path2 obj assume e: "w_exported ?w2 path2 = Some obj"
    then have ne: "path2 \<noteq> path" and "w_exported w path2 = Some obj" by (auto split: if_splits)
    then have o: "on_bus w path2 obj" using B by (simp add: bus_ok_def)
    show "on_bus ?w2 path2 obj"
    proof (cases obj)
      case (Obj_printer q)
      with o ne i(1) show ?thesis by (auto simp: on_bus_def AList.delete_conv')
    qed (use o key2 in \<open>simp_all add: on_bus_def\<close>)
  qed
  moreover have "\<forall>j\<in>set ?js. w_jobs ?w2 j \<noteq> None" using live by simp
  ultimately obtain w3 where w3: "each_job pd_printer_impl_remove_job ?js ?w2 = Some w3" "off_bus ?js ?w2 w3"
    using remove_jobs by blast
  have rc: "release_calls ?js w3 = release_calls ?js w"
    using off_bus_finalize [OF w3(2)] by (intro release_calls_cong) simp
  have jp: "job_paths ?js ?w2 = job_paths ?js w" unfolding job_paths_def key2 ..
  have step: "pd_engine_remove_printer G path w = map_option (Pair True) (pd_printer_impl_finalize p ?w2)"
    using ex prn by (simp add: pd_engine_remove_printer_def pd_printer_impl_get_id_def Let_def)
  have fin: "pd_printer_impl_finalize p ?w2 = map_option (\<lambda>w1. w1\<lparr>w_printers := (w_printers w1)(p := None)\<rparr>)
      (each_job release_job ?js w3)"
    using prn js w3(1) by (simp add: pd_printer_impl_finalize_def)
  show ?thesis
  proof (cases "release_calls ?js w")
    case None
    then show ?thesis unfolding step fin release_jobs [OF d] rc by simp
  next
    case (Some calls)
    let ?w4 = "w3\<lparr>w_jobs := w_jobs w3 |` (- set ?js), w_released := w_released w3 @ calls\<rparr>"
    let ?w5 = "?w4\<lparr>w_printers := (w_printers ?w4)(p := None)\<rparr>"
    have "pd_engine_remove_printer G path w = Some (True, ?w5)"
      unfolding step fin release_jobs [OF d] rc Some by simp
    moreover have "gone i p calls w ?w5"
      using w3(2) i(1) unfolding gone_def off_bus_def jp by (auto simp: fun_eq_iff)
    ultimately show ?thesis using Some by simp
  qed
qed

lemma gone_job_key: "gone i p calls w w' \<Longrightarrow> job_key w' = (\<lambda>j. if j \<in> set (queue w p) then None else job_key w j)"
proof
  fix j assume g: "gone i p calls w w'"
  show "job_key w' j = (if j \<in> set (queue w p) then None else job_key w j)"
  proof (cases "j \<in> set (queue w p)")
    case True
    with g have "w_jobs w' j = None" unfolding gone_def by metis
    with True show ?thesis by (simp add: job_key_def)
  next
    case False
    with g have "rel_option same_job (w_jobs w j) (w_jobs w' j)" unfolding gone_def by metis
    with False show ?thesis by (cases "w_jobs w j"; cases "w_jobs w' j") (auto simp: job_key_def same_job_simps)
  qed
qed

text \<open>The queues of two printers have no job in common.\<close>

lemma queues_disjoint:
  assumes "printers_ok w" and "queues_ok w" and "j \<in> set (queue w p)" and "j \<in> set (queue w q)"
  shows "p = q"
proof -
  have live: "w_printers w r \<noteq> None" if "j \<in> set (queue w r)" for r using that by (cases "w_printers w r") (auto simp: queue_def)
  from assms(2-4) have "printer_path_of (the (printer_id w p)) = printer_path_of (the (printer_id w q))"
    unfolding queues_ok_def by (metis option.inject prod.inject)
  then have e: "the (printer_id w p) = the (printer_id w q)" by simp
  obtain a b where "printer_id w p = Some a" "map_of (w_id_to_printer w) a = Some p"
    "printer_id w q = Some b" "map_of (w_id_to_printer w) b = Some q"
    using assms(1) live [OF assms(3)] live [OF assms(4)] unfolding printers_ok_def by blast
  with e show ?thesis by simp
qed

lemma reg_inv_gone:
  assumes inv: "reg_inv w" and i: "map_of (w_id_to_printer w) i = Some p" and g: "gone i p calls w w'"
  shows "reg_inv w'"
proof -
  from inv have P: "printers_ok w" and Q: "queues_ok w" and B: "bus_ok w" and D: "devices_ok w" and F: "fresh_ok w"
    by (simp_all add: reg_inv_def)
  from g have v: "w_id_to_printer w' = AList.delete i (w_id_to_printer w)" "w_path_to_device w' = w_path_to_device w"
      "w_printers w' = (w_printers w)(p := None)" "w_devices w' = w_devices w" "w_next w' = w_next w"
    by (simp_all add: gone_def)
  have ex: "w_exported w' path = (if path = printer_path_of i \<or> path \<in> job_paths (queue w p) w then None else w_exported w path)" for path
    using g unfolding gone_def by blast
  have id': "printer_id w' = (printer_id w)(p := None)" by (simp add: printer_id_def v(3) fun_eq_iff)
  have qu': "queue w' q = (if q = p then [] else queue w q)" for q by (simp add: queue_def v(3))
  note key' = gone_job_key [OF g]
  have tab: "map_of (w_id_to_printer w') = (map_of (w_id_to_printer w))(i := None)"
    by (simp add: v(1) AList.delete_conv')
  have idp: "printer_id w p = Some i" using P i by (simp add: printers_ok_def)
  have only: "map_of (w_id_to_printer w) k = Some p \<Longrightarrow> k = i" for k
    using P i unfolding printers_ok_def by (metis option.inject)
  have "printers_ok w'"
    unfolding printers_ok_def tab
  proof (intro conjI allI impI)
    show "table_ok (w_id_to_printer w')" using P by (simp add: v(1) printers_ok_def AList.distinct_delete)
  next
    fix k q assume "((map_of (w_id_to_printer w))(i := None)) k = Some q"
    then have "k \<noteq> i" "map_of (w_id_to_printer w) k = Some q" by (auto split: if_splits)
    with P only show "printer_id w' q = Some k" unfolding id' printers_ok_def by (cases "q = p") auto
  next
    fix q assume "w_printers w' q \<noteq> None"
    then have q: "q \<noteq> p" "w_printers w q \<noteq> None" by (auto simp: v(3) split: if_splits)
    with P obtain k where k: "printer_id w q = Some k" "set k \<subseteq> set path_chars" "map_of (w_id_to_printer w) k = Some q"
      unfolding printers_ok_def by blast
    with i q(1) have "k \<noteq> i" by auto
    with k q(1) show "\<exists>k. printer_id w' q = Some k \<and> set k \<subseteq> set path_chars \<and> ((map_of (w_id_to_printer w))(i := None)) k = Some q"
      by (simp add: id')
  qed
  moreover have "queues_ok w'"
    unfolding queues_ok_def qu' key' id'
  proof (intro conjI allI ballI impI)
    fix q show "distinct (if q = p then [] else queue w q)" using Q by (simp add: queues_ok_def)
  next
    fix q j assume "j \<in> set (if q = p then [] else queue w q)"
    then have q: "q \<noteq> p" "j \<in> set (queue w q)" by (auto split: if_splits)
    with queues_disjoint [OF P Q] have "j \<notin> set (queue w p)" by blast
    with q Q show "\<exists>n. (if j \<in> set (queue w p) then None else job_key w j)
        = Some (n, printer_path_of (the (((printer_id w)(p := None)) q)))" by (simp add: queues_ok_def)
  next
    fix j assume "(if j \<in> set (queue w p) then None else job_key w j) \<noteq> None"
    then have j: "j \<notin> set (queue w p)" "job_key w j \<noteq> None" by (auto split: if_splits)
    with Q obtain q where "j \<in> set (queue w q)" unfolding queues_ok_def by blast
    with j(1) show "\<exists>q. j \<in> set (if q = p then [] else queue w q)" by (intro exI [of _ q]) auto
  qed
  moreover have "bus_ok w'"
    unfolding bus_ok_def
  proof (intro conjI allI impI)
    fix path obj assume e: "w_exported w' path = Some obj"
    then have np: "path \<noteq> printer_path_of i" "path \<notin> job_paths (queue w p) w" and "w_exported w path = Some obj"
      unfolding ex by (auto split: if_splits)
    with B have o: "on_bus w path obj" by (simp add: bus_ok_def)
    show "on_bus w' path obj"
    proof (cases obj)
      case (Obj_printer q)
      with o np(1) show ?thesis by (auto simp: on_bus_def tab)
    next
      case (Obj_job j)
      with o np(2) show ?thesis by (auto simp: on_bus_def key' job_paths_def)
    qed (use o in \<open>simp_all add: on_bus_def v(4)\<close>)
  next
    fix k q assume "map_of (w_id_to_printer w') k = Some q \<and> k \<noteq> []"
    then have k: "k \<noteq> i" "map_of (w_id_to_printer w) k = Some q" "k \<noteq> []" by (auto simp: tab split: if_splits)
    moreover have "printer_path_of k \<notin> job_paths (queue w p) w" by (auto simp: job_paths_def)
    ultimately show "w_exported w' (printer_path_of k) = Some (Obj_printer q)"
      using B unfolding ex by (simp add: bus_ok_def)
  next
    have "manager_path \<notin> job_paths (queue w p) w" by (auto simp: job_paths_def)
    then show "w_exported w' manager_path = Some Obj_manager" using B unfolding ex by (simp add: bus_ok_def)
  qed
  moreover have "devices_ok w'" using D by (simp add: devices_ok_def v)
  moreover have "fresh_ok w'"
    unfolding fresh_ok_def v
  proof (intro allI impI conjI)
    fix a assume a: "w_next w \<le> a"
    with F have "w_printers w a = None" "job_key w a = None" "w_devices w a = None" by (simp_all add: fresh_ok_def job_key_def)
    moreover from this have "job_key w' a = None" by (simp add: key')
    ultimately show "((w_printers w)(p := None)) a = None" "w_jobs w' a = None" "w_devices w a = None"
      by (simp_all add: job_key_def)
  qed
  ultimately show ?thesis by (simp add: reg_inv_def)
qed

lemma reg_inv_remove_printer:
  assumes "reg_inv w" and "pd_engine_remove_printer G path w = Some (ok, w')"
  shows "reg_inv w'"
proof (cases "w_exported w path")
  case None
  with assms show ?thesis by (simp add: pd_engine_remove_printer_def)
next
  case (Some obj)
  then obtain p where "obj = Obj_printer p"
    using assms(2) by (cases obj) (simp_all add: pd_engine_remove_printer_def)
  with Some have e: "w_exported w path = Some (Obj_printer p)" by simp
  obtain i prn where i: "path = printer_path_of i" "i \<noteq> []" "map_of (w_id_to_printer w) i = Some p"
      "w_printers w p = Some prn" "prn_id prn = Some i"
    by (rule registered_printer [OF assms(1) e])
  from remove_printer_cases [OF assms(1) e i, of G] assms(2) show ?thesis
    using reg_inv_gone [OF assms(1) i(3)] by (auto split: option.splits)
qed

subsection \<open>Adding a job\<close>

text \<open>What CreateJob does when the caller is authorized.\<close>

definition new_job :: "glib \<Rightarrow> unix_user_env \<Rightarrow> printer \<Rightarrow> string \<Rightarrow> attrs \<Rightarrow> guint \<Rightarrow> job" where
  "new_job G u printer name attributes n =
     pd_job_impl_set_attribute G
       ((pd_job_impl_init n name (update_attributes (prn_defaults printer) attributes)
           (printer_path_of (fmt_s (prn_id printer))))
         \<lparr>jb_watched_engine := True, jb_watched_printer := True\<rparr>)
       ''job-originating-user-name'' (GV_string (pd_get_unix_user u))"

lemma create_job_cases:
  assumes "pd_printer_impl_complete_create_job G u p name attributes w = Some (w', rs)"
  obtains printer unsupported where "w_printers w p = Some printer"
    and "unsupported_attributes (prn_supported printer) attributes = Some unsupported"
    and "rs = [Reply_value (Job_value (job_path_of (w_next_job_id w)) unsupported)]"
    and "w' = export (job_path_of (w_next_job_id w)) (Obj_job (w_next w))
      (w\<lparr>w_next := Suc (w_next w), w_next_job_id := w_next_job_id w + 1,
         w_jobs := (w_jobs w)(w_next w \<mapsto> new_job G u printer name attributes (w_next_job_id w)),
         w_printers := (w_printers w)(p \<mapsto> printer\<lparr>prn_jobs := prn_jobs printer @ [w_next w]\<rparr>)\<rparr>)"
proof -
  from assms obtain printer unsupported where pu: "w_printers w p = Some printer"
    "unsupported_attributes (prn_supported printer) attributes = Some unsupported"
    by (auto simp: pd_printer_impl_complete_create_job_def split: option.splits)
  show ?thesis
  proof (rule that [OF pu])
    show "rs = [Reply_value (Job_value (job_path_of (w_next_job_id w)) unsupported)]"
      using assms by (simp add: pd_printer_impl_complete_create_job_def pu pd_engine_add_job_def Let_def)
    show "w' = export (job_path_of (w_next_job_id w)) (Obj_job (w_next w))
      (w\<lparr>w_next := Suc (w_next w), w_next_job_id := w_next_job_id w + 1,
         w_jobs := (w_jobs w)(w_next w \<mapsto> new_job G u printer name attributes (w_next_job_id w)),
         w_printers := (w_printers w)(p \<mapsto> printer\<lparr>prn_jobs := prn_jobs printer @ [w_next w]\<rparr>)\<rparr>)"
      using assms by (simp add: pd_printer_impl_complete_create_job_def pu pd_engine_add_job_def Let_def
          upd_job_def upd_printer_def export_def new_job_def) (auto intro!: world.equality)
  qed
qed

lemma new_job_fields:
  "jb_id (new_job G u printer name attributes n) = n"
  "jb_printer (new_job G u printer name attributes n) = printer_path_of (fmt_s (prn_id printer))"
  "jb_state (new_job G u printer name attributes n) = PD_JOB_STATE_PENDING_HELD"
  "job_ok (new_job G u printer name attributes n)"
  by (simp_all add: new_job_def job_ok_init)
    (simp_all add: pd_job_impl_set_attribute_def pd_job_impl_init_def)

lemma reg_inv_create_job:
  assumes inv: "reg_inv w" and c: "pd_printer_impl_complete_create_job G u p name attributes w = Some (w', rs)"
  shows "reg_inv w'"
proof -
  let ?a = "w_next w" and ?n = "w_next_job_id w"
  obtain printer unsupported where prn: "w_printers w p = Some printer"
    and w': "w' = export (job_path_of ?n) (Obj_job ?a)
      (w\<lparr>w_next := Suc ?a, w_next_job_id := ?n + 1,
         w_jobs := (w_jobs w)(?a \<mapsto> new_job G u printer name attributes ?n),
         w_printers := (w_printers w)(p \<mapsto> printer\<lparr>prn_jobs := prn_jobs printer @ [?a]\<rparr>)\<rparr>)"
    by (rule create_job_cases [OF c])
  from inv have P: "printers_ok w" and Q: "queues_ok w" and B: "bus_ok w" and D: "devices_ok w" and F: "fresh_ok w"
    by (simp_all add: reg_inv_def)
  have idp: "printer_id w p = prn_id printer" using prn by (simp add: printer_id_def)
  have "prn_id printer \<noteq> None" using P prn idp unfolding printers_ok_def by (metis option.discI)
  then obtain i where i: "prn_id printer = Some i" by blast
  have id': "printer_id w' = printer_id w" using prn by (auto simp: w' printer_id_def fun_eq_iff)
  have qu': "queue w' = (queue w)(p := queue w p @ [?a])" using prn by (auto simp: w' queue_def fun_eq_iff)
  have key': "job_key w' = (job_key w)(?a \<mapsto> (?n, printer_path_of i))"
    by (auto simp: w' job_key_def fun_eq_iff new_job_fields i fmt_s_def)
  have ex': "w_exported w' path = (if path = job_path_of ?n then Some (Obj_job ?a) else w_exported w path)" for path
    by (simp add: w')
  have v: "w_id_to_printer w' = w_id_to_printer w" "w_path_to_device w' = w_path_to_device w"
    "w_devices w' = w_devices w" "w_next w' = Suc ?a" by (simp_all add: w')
  have ka: "job_key w ?a = None" using F by (simp add: job_key_def fresh_ok_def)
  have aq: "?a \<notin> set (queue w q)" for q
  proof
    assume "?a \<in> set (queue w q)"
    with Q obtain n where "job_key w ?a = Some (n, printer_path_of (the (printer_id w q)))" unfolding queues_ok_def by blast
    with ka show False by simp
  qed
  have "w_printers w' q = None \<longleftrightarrow> w_printers w q = None" for q using prn by (simp add: w')
  then have "printers_ok w' = printers_ok w" unfolding printers_ok_def id' v by simp
  with P have "printers_ok w'" by blast
  moreover have "queues_ok w'"
    unfolding queues_ok_def id' qu' key'
  proof (intro conjI allI ballI impI)
    fix q show "distinct (((queue w)(p := queue w p @ [?a])) q)" using Q aq by (simp add: queues_ok_def)
  next
    fix q j assume "j \<in> set (((queue w)(p := queue w p @ [?a])) q)"
    then have "j \<in> set (queue w q) \<or> q = p \<and> j = ?a" by (auto split: if_splits)
    then show "\<exists>n. ((job_key w)(?a \<mapsto> (?n, printer_path_of i))) j = Some (n, printer_path_of (the (printer_id w q)))"
    proof
      assume j: "j \<in> set (queue w q)"
      with aq have "j \<noteq> ?a" by blast
      with j Q show ?thesis by (simp add: queues_ok_def)
    qed (simp add: idp i)
  next
    fix j assume "((job_key w)(?a \<mapsto> (?n, printer_path_of i))) j \<noteq> None"
    then have "j = ?a \<or> job_key w j \<noteq> None" by (auto split: if_splits)
    then show "\<exists>q. j \<in> set (((queue w)(p := queue w p @ [?a])) q)"
    proof
      assume "job_key w j \<noteq> None"
      with Q obtain q where "j \<in> set (queue w q)" unfolding queues_ok_def by blast
      then show ?thesis by (intro exI [of _ q]) auto
    qed (intro exI [of _ p], simp)
  qed
  moreover have "bus_ok w'"
    unfolding bus_ok_def v ex'
  proof (intro conjI allI impI)
    fix path obj assume e: "(if path = job_path_of ?n then Some (Obj_job ?a) else w_exported w path) = Some obj"
    show "on_bus w' path obj"
    proof (cases "path = job_path_of ?n")
      case True
      with e have "obj = Obj_job ?a" by simp
      with True show ?thesis by (simp add: on_bus_def key')
    next
      case False
      with e B have o: "on_bus w path obj" by (simp add: bus_ok_def)
      show ?thesis
      proof (cases obj)
        case (Obj_job j)
        with o obtain n q where "job_key w j = Some (n, q)" "path = job_path_of n" by (auto simp: on_bus_def)
        moreover from this ka have "j \<noteq> ?a" by auto
        ultimately show ?thesis using Obj_job by (simp add: on_bus_def key')
      qed (use o in \<open>simp_all add: on_bus_def v\<close>)
    qed
  next
    show "(if manager_path = job_path_of ?n then Some (Obj_job ?a) else w_exported w manager_path) = Some Obj_manager"
      using B by (simp add: bus_ok_def)
    fix k q assume "map_of (w_id_to_printer w) k = Some q \<and> k \<noteq> []"
    with B show "(if printer_path_of k = job_path_of ?n then Some (Obj_job ?a) else w_exported w (printer_path_of k))
        = Some (Obj_printer q)" by (simp add: bus_ok_def)
  qed
  moreover have "devices_ok w'" using D by (simp add: devices_ok_def v)
  moreover have "fresh_ok w'"
  proof -
    have "p < ?a" using F prn unfolding fresh_ok_def by (metis leI option.distinct(1))
    with F show ?thesis by (auto simp: fresh_ok_def w')
  qed
  ultimately show ?thesis by (simp add: reg_inv_def)
qed

subsection \<open>Devices\<close>

text \<open>The identifier of a device is made when it is added, and never changes.\<close>

lemma device_get_id:
  assumes "glib_contract G" and "pd_parse_ieee1284_id G (dev_ieee1284_id dev) = Some ht" and "dev_id dev = None"
  obtains i where "pd_device_impl_get_id G dev = (Some i, dev\<lparr>dev_id := Some i\<rparr>)" and "set i \<subseteq> set path_chars"
proof -
  have "CHR ''_'' \<in> set path_chars" by (simp add: path_chars_def)
  from set_strcanon [OF this] that show ?thesis
    using assms(2,3)
    by (simp add: pd_device_impl_get_id_def Let_def glib_contract.strcanon [OF assms(1)] id_chars_path_chars)
qed

lemma device_get_id_same: "dev_id dev = Some i \<Longrightarrow> pd_device_impl_get_id G dev = (Some i, dev)"
  by (simp add: pd_device_impl_get_id_def)

text \<open>Changes of devices and of what the bus shows of them.\<close>

lemma reg_inv_device:
  assumes inv: "reg_inv w"
    and "printer_id w' = printer_id w" "queue w' = queue w" "job_key w' = job_key w"
    and "w_id_to_printer w' = w_id_to_printer w" "w_printers w' = w_printers w" "w_jobs w' = w_jobs w"
    and "w_next w \<le> w_next w'" and "devices_ok w'" and "\<And>a. w_next w' \<le> a \<Longrightarrow> w_devices w' a = None"
    and dev: "\<And>a dev i. w_devices w a = Some dev \<Longrightarrow> dev_id dev = Some i \<Longrightarrow>
      \<exists>dev'. w_devices w' a = Some dev' \<and> dev_id dev' = Some i"
    and ex: "\<And>path. w_exported w' path = w_exported w path
      \<or> (\<exists>i. path = device_path_of i) \<and> (\<forall>obj. w_exported w' path = Some obj \<longrightarrow> on_bus w' path obj)"
  shows "reg_inv w'"
proof -
  from inv have P: "printers_ok w" and Q: "queues_ok w" and B: "bus_ok w" and F: "fresh_ok w"
    by (simp_all add: reg_inv_def)
  have "printers_ok w' = printers_ok w" unfolding printers_ok_def assms(2,5,6) by simp
  moreover have "queues_ok w' = queues_ok w" unfolding queues_ok_def assms(2,3,4) by simp
  moreover have "bus_ok w'"
  proof -
    have up: "on_bus w' path obj" if "on_bus w path obj" for path obj
    proof (cases obj)
      case (Obj_device a)
      with that dev show ?thesis by (fastforce simp: on_bus_def)
    qed (use that assms(4,5) in \<open>simp_all add: on_bus_def\<close>)
    have "on_bus w' path obj" if "w_exported w' path = Some obj" for path obj
      using ex [of path] up that B unfolding bus_ok_def by metis
    moreover have "w_exported w' path = w_exported w path" if "\<forall>i. path \<noteq> device_path_of i" for path
      using ex [of path] that by blast
    ultimately show ?thesis using B unfolding bus_ok_def assms(5) by simp
  qed
  moreover have "fresh_ok w'"
    using F assms(8,10) unfolding fresh_ok_def assms(6,7) by (meson order_trans)
  ultimately show ?thesis using P Q assms(9) by (simp add: reg_inv_def)
qed

lemma device_exported:
  assumes "set i \<subseteq> set path_chars"
  shows "w_exported (export (device_path_of i) obj w) path =
    (if i \<noteq> [] \<and> path = device_path_of i then Some obj else w_exported w path)"
proof -
  have "CHR ''/'' \<notin> set i" using assms path_chars_no_slash by blast
  with assms show ?thesis by (auto simp: object_path_of(3))
qed

lemma device_add_cases:
  assumes "glib_contract G" and "ud_ieee1284_id u \<noteq> None"
  obtains dev i where "dev_id dev = Some i" and "set i \<subseteq> set path_chars" and "dev_ieee1284_id dev = ud_ieee1284_id u"
    and "\<And>w. pd_engine_device_add G u w = (Some (w_next w), export (device_path_of i) (Obj_device (w_next w))
      (w\<lparr>w_next := Suc (w_next w), w_devices := (w_devices w)(w_next w \<mapsto> dev)\<rparr>))"
proof -
  from assms(2) obtain ht where ht: "pd_parse_ieee1284_id G (ud_ieee1284_id u) = Some ht"
    by (auto simp: pd_parse_ieee1284_id_def)
  let ?d0 = "\<lparr>dev_ieee1284_id = ud_ieee1284_id u, dev_uri = device_uri G ht,
      dev_description = device_description G ht, dev_id = None\<rparr>"
  obtain i where i: "pd_device_impl_get_id G ?d0 = (Some i, ?d0\<lparr>dev_id := Some i\<rparr>)" "set i \<subseteq> set path_chars"
    by (rule device_get_id [OF assms(1), of ?d0 ht]) (simp_all add: ht)
  show ?thesis
  proof (rule that [of "?d0\<lparr>dev_id := Some i\<rparr>" i])
    show "pd_engine_device_add G u w = (Some (w_next w), export (device_path_of i) (Obj_device (w_next w))
      (w\<lparr>w_next := Suc (w_next w), w_devices := (w_devices w)(w_next w \<mapsto> ?d0\<lparr>dev_id := Some i\<rparr>)\<rparr>))" for w
      using i(1) by (simp add: pd_engine_device_add_def ht Let_def fmt_s_def)
  qed (use i(2) in simp_all)
qed

text \<open>An event changes nothing unless it removes a known device or adds a printer.\<close>

lemma uevent_ignored:
  assumes "\<not> (action = ''remove'' \<and> (\<exists>a. map_of (w_path_to_device w) (ud_sysfs_path u) = Some a))"
    and "\<not> (action = ''add'' \<and> ud_class u = 7 \<and> ud_subclass u = 1 \<and> ud_ieee1284_id u \<noteq> None)"
  shows "pd_engine_handle_uevent G action u w = w"
proof (cases "action = ''remove''")
  case True
  with assms(1) have "map_of (w_path_to_device w) (ud_sysfs_path u) = None" by auto
  with True show ?thesis by (simp add: pd_engine_handle_uevent_def)
next
  case False
  show ?thesis
  proof (cases "action = ''add'' \<and> ud_class u = 7 \<and> ud_subclass u = 1")
    case True
    with assms(2) have "ud_ieee1284_id u = None" by auto
    with True show ?thesis
      by (simp add: pd_engine_handle_uevent_def pd_engine_device_add_def pd_parse_ieee1284_id_def)
  qed (use False in \<open>auto simp: pd_engine_handle_uevent_def\<close>)
qed

lemma reg_inv_uevent:
  assumes G: "glib_contract G" and inv: "reg_inv w"
  shows "reg_inv (pd_engine_handle_uevent G action u w)"
proof -
  from inv have D: "devices_ok w" and F: "fresh_ok w" by (simp_all add: reg_inv_def)
  consider (rem) a where "action = ''remove''" "map_of (w_path_to_device w) (ud_sysfs_path u) = Some a"
    | (add) "action = ''add''" "ud_class u = 7" "ud_subclass u = 1" "ud_ieee1284_id u \<noteq> None"
    | (none) "pd_engine_handle_uevent G action u w = w"
    using uevent_ignored [of action w u G] by blast
  then show ?thesis
  proof cases
    case rem
    from D rem(2) obtain dev i where dev: "w_devices w a = Some dev" "dev_id dev = Some i"
      unfolding devices_ok_def by blast
    let ?w1 = "unexport (device_path_of i) (w\<lparr>w_devices := (w_devices w)(a \<mapsto> dev)\<rparr>)"
    let ?w' = "?w1\<lparr>w_path_to_device := AList.delete (ud_sysfs_path u) (w_path_to_device ?w1)\<rparr>"
    have e: "pd_engine_handle_uevent G action u w = ?w'"
      using rem dev by (simp add: pd_engine_handle_uevent_def pd_engine_device_remove_def device_get_id_same fmt_s_def Let_def)
    have same: "(w_devices w)(a \<mapsto> dev) = w_devices w" using dev(1) by auto
    have "reg_inv ?w'"
    proof (rule reg_inv_device [OF inv])
      show "devices_ok ?w'" using D by (auto simp: devices_ok_def same AList.distinct_delete AList.delete_conv' split: if_splits)
      show "w_devices ?w' b = None" if "w_next ?w' \<le> b" for b using F that by (simp add: fresh_ok_def same)
    qed (auto simp: printer_id_def queue_def job_key_def fun_eq_iff same)
    then show ?thesis by (simp only: e)
  next
    case add
    obtain dev i where dev: "dev_id dev = Some i" "set i \<subseteq> set path_chars"
      "pd_engine_device_add G u w = (Some (w_next w), export (device_path_of i) (Obj_device (w_next w))
        (w\<lparr>w_next := Suc (w_next w), w_devices := (w_devices w)(w_next w \<mapsto> dev)\<rparr>))"
      by (rule device_add_cases [OF G add(4)]) blast
    let ?w1 = "export (device_path_of i) (Obj_device (w_next w))
        (w\<lparr>w_next := Suc (w_next w), w_devices := (w_devices w)(w_next w \<mapsto> dev)\<rparr>)"
    let ?w' = "?w1\<lparr>w_path_to_device := AList.update (ud_sysfs_path u) (w_next w) (w_path_to_device ?w1)\<rparr>"
    have e: "pd_engine_handle_uevent G action u w = ?w'"
      using add by (simp add: pd_engine_handle_uevent_def dev(3))
    have old: "w_devices w b = Some d \<Longrightarrow> b \<noteq> w_next w" for b d using F by (auto simp: fresh_ok_def)
    have ex: "w_exported ?w' path = (if i \<noteq> [] \<and> path = device_path_of i then Some (Obj_device (w_next w)) else w_exported w path)" for path
      using device_exported [OF dev(2)] by simp
    have "reg_inv ?w'"
    proof (rule reg_inv_device [OF inv])
      show "devices_ok ?w'"
        using D dev(1,2) old by (fastforce simp: devices_ok_def AList.distinct_update AList.update_conv' split: if_splits)
      show "w_devices ?w' b = None" if "w_next ?w' \<le> b" for b using F that by (simp add: fresh_ok_def)
      show "\<exists>dev'. w_devices ?w' b = Some dev' \<and> dev_id dev' = Some k" if "w_devices w b = Some d" "dev_id d = Some k" for b d k
        using that old by (auto intro!: exI [of _ d])
      show "w_exported ?w' path = w_exported w path
          \<or> (\<exists>k. path = device_path_of k) \<and> (\<forall>obj. w_exported ?w' path = Some obj \<longrightarrow> on_bus ?w' path obj)" for path
        unfolding ex using dev(1) by (auto simp: on_bus_def)
    qed (auto simp: printer_id_def queue_def job_key_def fun_eq_iff)
    then show ?thesis by (simp only: e)
  next
    case none
    with inv show ?thesis by simp
  qed
qed

lemma reg_inv_empty: "reg_inv (export manager_path Obj_manager empty_world)"
  by (auto simp: reg_inv_def printers_ok_def queues_ok_def bus_ok_def devices_ok_def fresh_ok_def on_bus_def empty_world_def
      printer_id_def queue_def job_key_def)

lemma reg_inv_start: "glib_contract G \<Longrightarrow> reg_inv (pd_engine_start G us)"
proof -
  assume G: "glib_contract G"
  have "reg_inv w \<Longrightarrow> reg_inv (fold (pd_engine_handle_uevent G ''add'') us w)" for w
    by (induction us arbitrary: w) (simp_all add: reg_inv_uevent [OF G])
  then show ?thesis unfolding pd_engine_start_def by (simp add: reg_inv_empty)
qed

end
