(* ===== verification/Pd_Bus.thy ===== *)
theory Pd_Bus
  imports Pd_Registry "HOL-Library.Multiset"
begin

text \<open>
  What the operations of the engine and the manager do, as a client of the bus sees it: adding,
  listing and removing printers, creating jobs, and hot-plugged devices.
\<close>

subsection \<open>Looking up a printer\<close>

lemma get_printer_by_path_of:
  assumes "glib_contract G" and "CHR ''/'' \<notin> set i"
  shows "pd_engine_get_printer_by_path G (printer_path_of i) w = map_of (w_id_to_printer w) i"
proof -
  have "printer_path_of i = ''/org/freedesktop/printerd/printer'' @ CHR ''/'' # i" by (simp add: printer_path_of_def)
  then have "g_strrstr G (printer_path_of i) ''/'' = Some (CHR ''/'' # i)"
    using strrchr_append [OF assms(2)] by (simp only: glib_contract.strrstr [OF assms(1)])
  then show ?thesis by (simp add: pd_engine_get_printer_by_path_def)
qed

lemma printer_at_Some: "printer_at w path = Some p \<longleftrightarrow> w_exported w path = Some (Obj_printer p)"
  by (simp add: printer_at_def split: option.split exported.split)

text \<open>A daemon with one printer.\<close>

definition idle_daemon :: world where
  "idle_daemon = pd_engine_start glib_doc []"

definition laser :: printer where
  "laser = (pd_printer_impl_init ''Laser'' [] [] None)\<lparr>prn_id := Some ''Laser'', prn_watched := True\<rparr>"

definition office :: world where
  "office = entered ''Laser'' laser idle_daemon"

lemma idle_daemon_simps [simp]:
  "reg_inv idle_daemon" "w_id_to_printer idle_daemon = []" "w_next idle_daemon = 0" "w_path_to_device idle_daemon = []"
  "w_printers idle_daemon p = None" "w_jobs idle_daemon j = None" "w_devices idle_daemon a = None"
  "w_next_job_id idle_daemon = 1" "w_released idle_daemon = []"
  "w_exported idle_daemon path = (if path = manager_path then Some Obj_manager else None)"
  by (simp_all add: idle_daemon_def reg_inv_start glib_doc_contract) (simp_all add: pd_engine_start_def empty_world_def)

lemma laser_simps [simp]:
  "prn_id laser = Some ''Laser''" "prn_jobs laser = []" "prn_state laser = PD_PRINTER_STATE_IDLE"
  "\<not> prn_job_outgoing laser" "prn_name laser = ''Laser''"
  "prn_supported laser = prn_supported (pd_printer_impl_init ''Laser'' [] [] None)"
  "prn_defaults laser = prn_defaults (pd_printer_impl_init ''Laser'' [] [] None)"
  by (simp_all add: laser_def pd_printer_impl_init_def)

lemma laser_chars: "set ''Laser'' \<subseteq> set path_chars"
  by (simp add: path_chars_def)

lemma office_added:
  "pd_engine_add_printer glib_doc ppd_open None ''Laser'' [] [] None idle_daemon = Some (Inr 0, office)"
proof -
  let ?p = "pd_printer_impl_init ''Laser'' [] [] None"
  have "doc_strcanon ''Laser'' path_chars CHR ''_'' = ''Laser''" by (rule strcanon_valid [OF laser_chars])
  then have "pd_printer_impl_get_id glib_doc ?p = (''Laser'', ?p\<lparr>prn_id := Some ''Laser''\<rparr>)"
    by (simp add: pd_printer_impl_get_id_def id_chars_path_chars pd_printer_impl_init_def glib_doc_def Let_def)
  then show ?thesis
    by (simp add: pd_engine_add_printer_def Let_def choose_id_def office_def entered_def laser_def)
qed

lemma office_simps [simp]:
  "w_id_to_printer office = [(''Laser'', 0)]" "w_next office = 1" "w_printers office 0 = Some laser"
  "w_jobs office j = None" "w_next_job_id office = 1" "w_released office = []" "w_path_to_device office = []"
  "w_devices office a = None"
  by (simp_all add: office_def entered_def)

lemma office_exported [simp]:
  "w_exported office path = (if path = printer_path_of ''Laser'' then Some (Obj_printer 0)
     else if path = manager_path then Some Obj_manager else None)"
  unfolding office_def entered_exported [OF laser_chars] by simp

lemma office_inv [simp]: "reg_inv office"
  unfolding office_def by (intro reg_inv_entered) (simp_all add: path_chars_def)

subsection \<open>Adding a printer\<close>

text \<open>C28: An added printer is entered under an identifier that no printer has: its canonical
  name, or that with a suffix. It is idle, it can be looked up by its path, every other lookup
  gives what it gave before, and the printer is on the bus, except when its name is empty: then
  the path that is replied names no object.\<close>

theorem add_printer_outcome:
  assumes "glib_contract G" and "reg_inv w"
    and "pd_engine_add_printer G ppd_open options name description location ieee1284_id w = Some (Inr a, w')"
  shows "\<exists>objid prn.
    (objid = doc_strcanon name path_chars CHR ''_''
      \<or> (\<exists>n. 2 \<le> n \<and> n < 1000 \<and> objid = doc_strcanon name path_chars CHR ''_'' @ ''_'' @ fmt_u n))
    \<and> map_of (w_id_to_printer w) objid = None \<and> w_printers w a = None
    \<and> w_printers w' = (w_printers w)(a \<mapsto> prn) \<and> prn_id prn = Some objid \<and> prn_name prn = name
    \<and> prn_state prn = PD_PRINTER_STATE_IDLE \<and> prn_jobs prn = []
    \<and> pd_engine_get_printer_by_path G (printer_path_of objid) w' = Some a
    \<and> (\<forall>i. i \<noteq> objid \<and> CHR ''/'' \<notin> set i \<longrightarrow>
         pd_engine_get_printer_by_path G (printer_path_of i) w' = pd_engine_get_printer_by_path G (printer_path_of i) w)
    \<and> (if name = [] \<and> objid = [] then w_exported w' = w_exported w
       else w_exported w' = (w_exported w)(printer_path_of objid \<mapsto> Obj_printer a))"
proof -
  obtain objid prn where e: "w' = entered objid prn w" "a = w_next w"
    "choose_id (w_id_to_printer w) (doc_strcanon name path_chars CHR ''_'') = Some objid"
    "set objid \<subseteq> set path_chars" "prn_id prn = Some objid" "prn_jobs prn = []"
    "prn_state prn = PD_PRINTER_STATE_IDLE" "prn_name prn = name"
    by (rule add_printer_entered [OF assms(1,3)])
  have F: "fresh_ok w" using assms(2) by (simp add: reg_inv_def)
  have ns: "CHR ''/'' \<notin> set objid" using e(4) path_chars_no_slash by blast
  note free = choose_id_free [OF e(3)]
  have nil: "objid = [] \<Longrightarrow> name = []" using free by (auto simp: eq_commute [of "[]"])
  note v = entered_views [OF F e(5,6)] entered_exported [OF e(4)]
  have ex: "w_exported w' = (if objid = [] then w_exported w else (w_exported w)(printer_path_of objid \<mapsto> Obj_printer a))"
    unfolding e(1,2) by (rule ext) (simp add: v(10))
  show ?thesis
  proof (intro exI conjI)
    show "objid = doc_strcanon name path_chars CHR ''_''
      \<or> (\<exists>n. 2 \<le> n \<and> n < 1000 \<and> objid = doc_strcanon name path_chars CHR ''_'' @ ''_'' @ fmt_u n)"
      using free by blast
    show "map_of (w_id_to_printer w) objid = None" using free by blast
    show "w_printers w a = None" using F e(2) by (simp add: fresh_ok_def)
    show "w_printers w' = (w_printers w)(a \<mapsto> prn)" unfolding e(1,2) v ..
    show "pd_engine_get_printer_by_path G (printer_path_of objid) w' = Some a"
      unfolding get_printer_by_path_of [OF assms(1) ns] unfolding e(1,2) v by (simp add: AList.update_conv')
    show "\<forall>i. i \<noteq> objid \<and> CHR ''/'' \<notin> set i \<longrightarrow>
         pd_engine_get_printer_by_path G (printer_path_of i) w' = pd_engine_get_printer_by_path G (printer_path_of i) w"
      using v by (simp add: get_printer_by_path_of [OF assms(1)] e(1) AList.update_conv')
    show "if name = [] \<and> objid = [] then w_exported w' = w_exported w
       else w_exported w' = (w_exported w)(printer_path_of objid \<mapsto> Obj_printer a)"
      using nil ex by (cases "objid = []") simp_all
  qed (fact e)+
qed

theorem add_printer_outcome_witness:
  "pd_engine_get_printer_by_path glib_doc (printer_path_of ''Laser'') office = Some 0"
  using add_printer_outcome [OF glib_doc_contract idle_daemon_simps(1) office_added]
  by (auto simp: get_printer_by_path_of [OF glib_doc_contract])

text \<open>C29: While fewer than 999 printers are registered, adding one never runs out of
  identifiers. When the canonical name and its 998 suffixed forms are all taken, adding a
  printer of that name without a driver frees a string twice.\<close>

theorem add_printer_capacity:
  assumes "glib_contract G" and "reg_inv w"
  shows "(length (w_id_to_printer w) < 999 \<longrightarrow>
      pd_engine_add_printer G ppd_open options name description location ieee1284_id w \<noteq> None)
    \<and> (pd_engine_add_printer G ppd_open None name description location ieee1284_id w = None \<longleftrightarrow>
        map_of (w_id_to_printer w) (doc_strcanon name path_chars CHR ''_'') \<noteq> None
        \<and> (\<forall>n. 2 \<le> n \<and> n < 1000 \<longrightarrow>
            map_of (w_id_to_printer w) (doc_strcanon name path_chars CHR ''_'' @ ''_'' @ fmt_u n) \<noteq> None))"
    (is "(_ \<longrightarrow> ?never) \<and> (?crash \<longleftrightarrow> ?taken)")
proof (intro conjI impI)
  have t: "table_ok (w_id_to_printer w)" using assms(2) by (simp add: reg_inv_def printers_ok_def)
  assume "length (w_id_to_printer w) < 999"
  then have "\<exists>k. choose_id (w_id_to_printer w) i = Some k" for i using choose_id_total [OF t] by auto
  then obtain k where k: "\<And>i. choose_id (w_id_to_printer w) i = Some (k i)" by metis
  show ?never by (simp add: pd_engine_add_printer_def Let_def k split: prod.split)
next
  let ?p = "pd_printer_impl_init name description location ieee1284_id"
  obtain i p1 where p1: "pd_printer_impl_get_id G ?p = (i, p1)" by fastforce
  have "prn_id ?p = None" by (simp add: pd_printer_impl_init_def)
  from printer_get_id [OF assms(1) this p1] have i: "i = doc_strcanon name path_chars CHR ''_''"
    by (simp add: pd_printer_impl_init_def)
  show "?crash \<longleftrightarrow> ?taken"
    unfolding choose_id_None [symmetric] i [symmetric] pd_engine_add_printer_def
    by (simp add: p1 Let_def split: option.split)
qed

theorem add_printer_capacity_witness:
  "pd_engine_add_printer glib_doc (\<lambda>_. None) None ''Laser'' [] [] None office \<noteq> None"
  using add_printer_capacity [OF glib_doc_contract office_inv, THEN conjunct1, of "\<lambda>_. None" None "''Laser''" "[]" "[]" None]
  by simp

subsection \<open>Listing printers\<close>

lemma dup_printer_ids:
  assumes "printers_ok w" and "\<And>xs. mset (ord xs) = mset xs"
  shows "distinct (pd_engine_dup_printer_ids ord w)"
    and "i \<in> set (pd_engine_dup_printer_ids ord w) \<longleftrightarrow> map_of (w_id_to_printer w) i \<noteq> None"
    and "i \<in> set (pd_engine_dup_printer_ids ord w) \<longleftrightarrow> (\<exists>p. printer_id w p = Some i)"
proof -
  let ?ids = "pd_engine_dup_printer_ids ord w"
  note P = assms(1)
  have m: "mset ?ids = mset (map fst (w_id_to_printer w))" by (simp add: pd_engine_dup_printer_ids_def assms(2))
  show "distinct ?ids" using P mset_eq_imp_distinct_iff [OF m] by (simp add: printers_ok_def)
  show k: "i \<in> set ?ids \<longleftrightarrow> map_of (w_id_to_printer w) i \<noteq> None"
    using mset_eq_setD [OF m] by (simp add: map_of_eq_None_iff)
  have "map_of (w_id_to_printer w) i \<noteq> None \<longleftrightarrow> (\<exists>p. printer_id w p = Some i)"
  proof
    assume "map_of (w_id_to_printer w) i \<noteq> None"
    with P show "\<exists>p. printer_id w p = Some i" unfolding printers_ok_def by blast
  next
    assume "\<exists>p. printer_id w p = Some i"
    then obtain p where p: "printer_id w p = Some i" ..
    then have "w_printers w p \<noteq> None" by (cases "w_printers w p") (simp_all add: printer_id_def)
    with P p show "map_of (w_id_to_printer w) i \<noteq> None" unfolding printers_ok_def by (metis option.distinct(1) option.inject)
  qed
  with k show "i \<in> set ?ids \<longleftrightarrow> (\<exists>p. printer_id w p = Some i)" by simp
qed

text \<open>C30: GetPrinters lists the path of every printer once and nothing else; up to the printer
  of an empty identifier these are exactly the paths at which the bus shows a printer.\<close>

theorem get_printers_exact:
  assumes "reg_inv w" and "\<And>xs. mset (ord xs) = mset xs"
  shows "\<exists>paths. pd_manager_impl_get_printers ord w = [Reply_value (Paths_value paths)] \<and> distinct paths
    \<and> set paths = {printer_path_of i | i. \<exists>p. printer_id w p = Some i}
    \<and> (\<forall>path. path \<noteq> printer_path_of [] \<longrightarrow> (path \<in> set paths) = (printer_at w path \<noteq> None))"
proof -
  let ?ids = "pd_engine_dup_printer_ids ord w"
  from assms(1) have P: "printers_ok w" and B: "bus_ok w" by (simp_all add: reg_inv_def)
  note ids = dup_printer_ids [OF P, of ord, OF assms(2)]
  have d: "distinct (map printer_path_of ?ids)" using ids(1) by (simp add: distinct_map inj_on_def)
  have s: "set (map printer_path_of ?ids) = {printer_path_of i | i. \<exists>p. printer_id w p = Some i}"
    using ids(3) by auto
  have "path \<in> set (map printer_path_of ?ids) \<longleftrightarrow> printer_at w path \<noteq> None" if "path \<noteq> printer_path_of []" for path
  proof
    assume "path \<in> set (map printer_path_of ?ids)"
    then obtain i where i: "path = printer_path_of i" "i \<in> set ?ids" by auto
    then obtain p where "map_of (w_id_to_printer w) i = Some p" using ids(2) by blast
    moreover have "i \<noteq> []" using that i(1) by auto
    ultimately have "w_exported w path = Some (Obj_printer p)" using B i(1) by (simp add: bus_ok_def)
    then show "printer_at w path \<noteq> None" by (simp add: printer_at_def)
  next
    assume "printer_at w path \<noteq> None"
    then obtain p where "w_exported w path = Some (Obj_printer p)" using printer_at_Some by blast
    then obtain i prn where i: "path = printer_path_of i" "w_printers w p = Some prn" "prn_id prn = Some i"
      by (rule registered_printer [OF assms(1)])
    then have "printer_id w p = Some i" by (simp add: printer_id_def)
    with ids(3) have "i \<in> set ?ids" by blast
    with i(1) show "path \<in> set (map printer_path_of ?ids)" by simp
  qed
  with d s show ?thesis unfolding pd_manager_impl_get_printers_def by blast
qed

theorem get_printers_exact_witness:
  "\<exists>paths. pd_manager_impl_get_printers rev office = [Reply_value (Paths_value paths)]
    \<and> printer_path_of ''Laser'' \<in> set paths"
proof -
  have "printer_path_of ''Laser'' \<noteq> printer_path_of []" by simp
  then show ?thesis
    using get_printers_exact [OF office_inv, of rev] by (auto simp: printer_at_def)
qed

subsection \<open>Removing a printer\<close>





subsection \<open>Creating a job\<close>

lemma create_job_allowed:
  assumes "glib_contract G" and "reg_inv w" and "w_printers w p = Some printer"
    and "\<forall>k. lookup_string (prn_supported printer) k = None"
    and "distinct (map fst (prn_defaults printer))" and "distinct (map fst attributes)"
    and True: "is_session d \<or> authority d ''org.freedesktop.printerd.job-add'' True = Polkit_result True"
  shows "\<exists>w' job. pd_printer_impl_create_job G d u p name attributes w
           = Some (w', [Reply_value (Job_value (job_path_of (w_next_job_id w)) [])])
      \<and> w_jobs w (w_next w) = None \<and> w_jobs w' = (w_jobs w)(w_next w \<mapsto> job)
      \<and> queue w' = (queue w)(p := queue w p @ [w_next w])
      \<and> w_exported w' = (w_exported w)(job_path_of (w_next_job_id w) \<mapsto> Obj_job (w_next w))
      \<and> w_next_job_id w' = w_next_job_id w + 1
      \<and> jb_id job = w_next_job_id w \<and> jb_state job = PD_JOB_STATE_PENDING_HELD
      \<and> originating_user job = Some (pd_get_unix_user u)
      \<and> (\<forall>k. k \<noteq> ''job-originating-user-name'' \<longrightarrow>
           map_of (jb_attributes job) k = (map_of (prn_defaults printer) ++ map_of attributes) k)
      \<and> job = new_job G u printer name attributes (w_next_job_id w) \<and> reg_inv w'
      \<and> w_printers w' = (w_printers w)(p \<mapsto> printer\<lparr>prn_jobs := prn_jobs printer @ [w_next w]\<rparr>)
      \<and> w_id_to_printer w' = w_id_to_printer w"
proof -
  let ?n = "w_next_job_id w"
  let ?job = "new_job G u printer name attributes ?n"
  let ?msg = "''Authentication is required to add a job''" and ?id = "''org.freedesktop.printerd.job-add''"
  have auth: "pd_daemon_check_authorization_sync d ?msg ?id [] = (True, [])"
    using True by (auto simp: pd_daemon_check_authorization_sync_def)
  obtain w' rs where c: "pd_printer_impl_complete_create_job G u p name attributes w = Some (w', rs)"
    using assms(3,4) by (simp add: pd_printer_impl_complete_create_job_def unsupported_attributes_none pd_engine_add_job_def Let_def)
  obtain printer' unsupported where v: "w_printers w p = Some printer'"
    "unsupported_attributes (prn_supported printer') attributes = Some unsupported"
    "rs = [Reply_value (Job_value (job_path_of ?n) unsupported)]"
    "w' = export (job_path_of ?n) (Obj_job (w_next w))
      (w\<lparr>w_next := Suc (w_next w), w_next_job_id := ?n + 1,
         w_jobs := (w_jobs w)(w_next w \<mapsto> new_job G u printer' name attributes ?n),
         w_printers := (w_printers w)(p \<mapsto> printer'\<lparr>prn_jobs := prn_jobs printer' @ [w_next w]\<rparr>)\<rparr>)"
    by (rule create_job_cases [OF c])
  have pr: "printer' = printer" "unsupported = []" using v(1,2) assms(3,4) by (simp_all add: unsupported_attributes_none)
  let ?a0 = "update_attributes (prn_defaults printer) attributes"
  have d: "distinct (map fst ?a0)" by (rule distinct_update_attributes [OF assms(5,6)])
  have at: "map_of (jb_attributes ?job) k = (if k = ''job-originating-user-name'' then Some (GV_string (pd_get_unix_user u))
      else (map_of (prn_defaults printer) ++ map_of attributes) k)" for k
    by (simp add: new_job_def pd_job_impl_set_attribute_def pd_job_impl_init_def glib_contract.dict_insert [OF assms(1) d]
        map_of_update_attributes)
  have gv: "get_attribute_value kvs k = map_of kvs k" for kvs k by (induction kvs) auto
  have "pd_printer_impl_create_job G d u p name attributes w = Some (w', [Reply_value (Job_value (job_path_of ?n) [])])"
    by (simp add: pd_printer_impl_create_job_def auth c v(3) pr)
  moreover have "w_jobs w (w_next w) = None" using assms(2) by (simp add: reg_inv_def fresh_ok_def)
  moreover have "w_jobs w' = (w_jobs w)(w_next w \<mapsto> ?job)" "w_next_job_id w' = ?n + 1" by (simp_all add: v(4) pr)
  moreover have "queue w' = (queue w)(p := queue w p @ [w_next w])"
    using assms(3) by (auto simp: v(4) pr queue_def fun_eq_iff)
  moreover have "w_exported w' = (w_exported w)(job_path_of ?n \<mapsto> Obj_job (w_next w))"
    by (simp add: v(4) fun_eq_iff)
  moreover have "originating_user ?job = Some (pd_get_unix_user u)"
    by (simp add: originating_user_def gv at variant_string_def)
  moreover have "reg_inv w'" by (rule reg_inv_create_job [OF assms(2) c])
  moreover have "w_printers w' = (w_printers w)(p \<mapsto> printer\<lparr>prn_jobs := prn_jobs printer @ [w_next w]\<rparr>)"
    "w_id_to_printer w' = w_id_to_printer w" by (simp_all add: v(4) pr)
  ultimately show ?thesis using at new_job_fields(1,3) by (intro exI [of _ w'] exI [of _ ?job]) auto
qed

text \<open>C33: CreateJob refuses an unauthorized caller and changes nothing. Otherwise the new job,
  held, with the next number, the printer's defaults overridden by the attributes of the call
  and the caller as its owner, is put at the end of the queue and on the bus, and its path is
  the reply; the queues of other printers do not change.\<close>

theorem create_job_outcome:
  assumes "glib_contract G" and "reg_inv w" and "w_printers w p = Some printer" and "\<forall>k. lookup_string (prn_supported printer) k = None"
    and "distinct (map fst (prn_defaults printer))" and "distinct (map fst attributes)"
  shows "if is_session d \<or> authority d ''org.freedesktop.printerd.job-add'' True = Polkit_result True
    then \<exists>w' job. pd_printer_impl_create_job G d u p name attributes w
           = Some (w', [Reply_value (Job_value (job_path_of (w_next_job_id w)) [])])
      \<and> w_jobs w (w_next w) = None \<and> w_jobs w' = (w_jobs w)(w_next w \<mapsto> job)
      \<and> queue w' = (queue w)(p := queue w p @ [w_next w])
      \<and> w_exported w' = (w_exported w)(job_path_of (w_next_job_id w) \<mapsto> Obj_job (w_next w))
      \<and> w_next_job_id w' = w_next_job_id w + 1
      \<and> jb_id job = w_next_job_id w \<and> jb_state job = PD_JOB_STATE_PENDING_HELD
      \<and> originating_user job = Some (pd_get_unix_user u)
      \<and> (\<forall>k. k \<noteq> ''job-originating-user-name'' \<longrightarrow>
           map_of (jb_attributes job) k = (map_of (prn_defaults printer) ++ map_of attributes) k)
    else \<exists>r. is_error r \<and> pd_printer_impl_create_job G d u p name attributes w = Some (w, [r])"
proof (cases "is_session d \<or> authority d ''org.freedesktop.printerd.job-add'' True = Polkit_result True")
  case True
  from create_job_allowed [OF assms True, of u name] True show ?thesis by (intro iffD2 [OF if_P]) auto
next
  case False
  let ?msg = "''Authentication is required to add a job''" and ?id = "''org.freedesktop.printerd.job-add''"
  obtain ok rs where a: "pd_daemon_check_authorization_sync d ?msg ?id [] = (ok, rs)" by fastforce
  with False check_authorization_ok_iff [of d ?msg ?id "[]"] have "\<not> ok" by simp
  with a False have "\<exists>r. is_error r \<and> rs = [r]"
    by (auto simp: pd_daemon_check_authorization_sync_def split: polkit_answer.splits bool.splits if_splits)
  with a \<open>\<not> ok\<close> False show ?thesis by (auto simp: pd_printer_impl_create_job_def)
qed

theorem create_job_outcome_witness:
  "\<exists>w' job. pd_printer_impl_create_job glib_doc lp_daemon (lp_user ''lp'') 0 ''doc'' [(''media'', GV_string ''na-letter'')] office
      = Some (w', [Reply_value (Job_value (job_path_of 1) [])])
    \<and> w_jobs w' 1 = Some job \<and> map_of (jb_attributes job) ''media'' = Some (GV_string ''na-letter'')"
proof -
  have "distinct (map fst (prn_defaults laser))" by (simp add: pd_printer_impl_init_def)
  moreover have "\<forall>k. lookup_string (prn_supported laser) k = None" by (simp add: init_supported_lookup)
  ultimately show ?thesis
    using create_job_outcome [OF glib_doc_contract office_inv, of 0 laser "[(''media'', GV_string ''na-letter'')]" lp_daemon
        "lp_user ''lp''" "''doc''"] by auto
qed

subsection \<open>Hot-plugged devices\<close>

definition is_printer :: "udev \<Rightarrow> bool" where
  "is_printer u \<longleftrightarrow> ud_class u = 7 \<and> ud_subclass u = 1 \<and> ud_ieee1284_id u \<noteq> None"

definition plugged :: "udev \<Rightarrow> device \<Rightarrow> string \<Rightarrow> world \<Rightarrow> world" where
  "plugged u dev i w =
     (export (device_path_of i) (Obj_device (w_next w))
       (w\<lparr>w_next := Suc (w_next w), w_devices := (w_devices w)(w_next w \<mapsto> dev)\<rparr>))
     \<lparr>w_path_to_device := AList.update (ud_sysfs_path u) (w_next w) (w_path_to_device w)\<rparr>"

lemma uevent_add:
  assumes "glib_contract G" and "is_printer u"
  obtains dev i where "dev_id dev = Some i" and "set i \<subseteq> set path_chars" and "dev_ieee1284_id dev = ud_ieee1284_id u"
    and "\<And>u' w. is_printer u' \<Longrightarrow> ud_ieee1284_id u' = ud_ieee1284_id u \<Longrightarrow>
      pd_engine_handle_uevent G ''add'' u' w = plugged u' dev i w"
proof -
  have "ud_ieee1284_id u \<noteq> None" using assms(2) by (simp add: is_printer_def)
  then obtain dev i where dev: "dev_id dev = Some i" "set i \<subseteq> set path_chars" "dev_ieee1284_id dev = ud_ieee1284_id u"
    and add: "\<And>w. pd_engine_device_add G u w = (Some (w_next w), export (device_path_of i) (Obj_device (w_next w))
      (w\<lparr>w_next := Suc (w_next w), w_devices := (w_devices w)(w_next w \<mapsto> dev)\<rparr>))"
    using device_add_cases [OF assms(1)] by metis
  have same: "pd_engine_device_add G u' w = pd_engine_device_add G u w" if "ud_ieee1284_id u' = ud_ieee1284_id u" for u' w
    unfolding pd_engine_device_add_def that ..
  show ?thesis
  proof (rule that [OF dev])
    fix u' w assume "is_printer u'" and "ud_ieee1284_id u' = ud_ieee1284_id u"
    then show "pd_engine_handle_uevent G ''add'' u' w = plugged u' dev i w"
      unfolding pd_engine_handle_uevent_def plugged_def by (simp add: same add is_printer_def)
  qed
qed

lemma uevent_remove:
  assumes "map_of (w_path_to_device w) (ud_sysfs_path u) = Some a" and "w_devices w a = Some dev" and "dev_id dev = Some i"
  shows "pd_engine_handle_uevent G ''remove'' u w =
    (unexport (device_path_of i) w)\<lparr>w_path_to_device := AList.delete (ud_sysfs_path u) (w_path_to_device w)\<rparr>"
proof -
  have "(w_devices w)(a \<mapsto> dev) = w_devices w" using assms(2) by auto
  then have "w\<lparr>w_devices := (w_devices w)(a \<mapsto> dev)\<rparr> = w" by simp
  with assms show ?thesis
    by (simp add: pd_engine_handle_uevent_def pd_engine_device_remove_def device_get_id_same fmt_s_def Let_def)
qed

lemma plugged_simps [simp]:
  "w_path_to_device (plugged u dev i w) = AList.update (ud_sysfs_path u) (w_next w) (w_path_to_device w)"
  "w_devices (plugged u dev i w) = (w_devices w)(w_next w \<mapsto> dev)" "w_next (plugged u dev i w) = Suc (w_next w)"
  by (simp_all add: plugged_def)

lemma plugged_exported:
  "set i \<subseteq> set path_chars \<Longrightarrow> w_exported (plugged u dev i w) path =
    (if i \<noteq> [] \<and> path = device_path_of i then Some (Obj_device (w_next w)) else w_exported w path)"
  by (simp add: plugged_def device_exported del: export_lookup)

text \<open>C35: A plugged printer is registered under its sysfs path and shown on the bus; after it is
  unplugged the registry is what it was, and nothing is at its path.\<close>

theorem hotplug_roundtrip:
  assumes "glib_contract G" and "is_printer u" and "map_of (w_path_to_device w) (ud_sysfs_path u) = None"
  shows "\<exists>dev i. dev_ieee1284_id dev = ud_ieee1284_id u \<and> dev_id dev = Some i
    \<and> (let w1 = pd_engine_handle_uevent G ''add'' u w; w2 = pd_engine_handle_uevent G ''remove'' u w1 in
         w_devices w1 = (w_devices w)(w_next w \<mapsto> dev)
         \<and> map_of (w_path_to_device w1) = (map_of (w_path_to_device w))(ud_sysfs_path u \<mapsto> w_next w)
         \<and> w_exported w1 = (if i = [] then w_exported w else (w_exported w)(device_path_of i \<mapsto> Obj_device (w_next w)))
         \<and> map_of (w_path_to_device w2) = map_of (w_path_to_device w)
         \<and> w_exported w2 = (w_exported w)(device_path_of i := None))"
proof -
  obtain dev i where dev: "dev_id dev = Some i" "set i \<subseteq> set path_chars" "dev_ieee1284_id dev = ud_ieee1284_id u"
    and add: "\<And>u' w. is_printer u' \<Longrightarrow> ud_ieee1284_id u' = ud_ieee1284_id u \<Longrightarrow>
      pd_engine_handle_uevent G ''add'' u' w = plugged u' dev i w"
    using uevent_add [OF assms(1,2)] by metis
  let ?w1 = "plugged u dev i w"
  have m: "map_of (w_path_to_device ?w1) = (map_of (w_path_to_device w))(ud_sysfs_path u \<mapsto> w_next w)"
    by (simp add: AList.update_conv')
  have r: "pd_engine_handle_uevent G ''remove'' u ?w1 =
      (unexport (device_path_of i) ?w1)\<lparr>w_path_to_device := AList.delete (ud_sysfs_path u) (w_path_to_device ?w1)\<rparr>"
    by (rule uevent_remove [of _ _ "w_next w" dev]) (simp_all add: m dev(1) del: plugged_simps(1))
  have "w_exported ?w1 = (if i = [] then w_exported w else (w_exported w)(device_path_of i \<mapsto> Obj_device (w_next w)))"
    using plugged_exported [OF dev(2)] by (auto simp: fun_eq_iff)
  moreover have "map_of (AList.delete (ud_sysfs_path u) (w_path_to_device ?w1)) = map_of (w_path_to_device w)"
    using assms(3) m by (auto simp: AList.delete_conv' AList.update_conv' fun_eq_iff)
  moreover have "w_exported (unexport (device_path_of i) ?w1) = (w_exported w)(device_path_of i := None)"
    by (auto simp: plugged_exported [OF dev(2)] fun_eq_iff)
  ultimately show ?thesis
    using dev m unfolding Let_def add [OF assms(2) refl] r by (intro exI [of _ dev] exI [of _ i]) simp
qed

definition usb_printer :: "string \<Rightarrow> udev" where
  "usb_printer path =
     \<lparr>ud_sysfs_path = path, ud_ieee1284_id = Some ''MFG:HP;MDL:LaserJet;'', ud_class = 7, ud_subclass = 1\<rparr>"

lemma usb_printer_simps [simp]: "is_printer (usb_printer path)" "ud_sysfs_path (usb_printer path) = path"
  "ud_ieee1284_id (usb_printer path) = Some ''MFG:HP;MDL:LaserJet;''"
  by (simp_all add: is_printer_def usb_printer_def)

theorem hotplug_roundtrip_witness:
  "w_path_to_device (pd_engine_handle_uevent glib_doc ''remove'' (usb_printer ''/sys/1'')
     (pd_engine_handle_uevent glib_doc ''add'' (usb_printer ''/sys/1'') idle_daemon)) = []"
proof -
  have "map_of (w_path_to_device idle_daemon) (ud_sysfs_path (usb_printer ''/sys/1'')) = None" by simp
  from hotplug_roundtrip [OF glib_doc_contract usb_printer_simps(1) this] show ?thesis
    by (auto simp: Let_def)
qed

text \<open>C36: Two devices with the same device id share one object path. When one of them is
  unplugged the other stays registered, and is still listed by GetDevices, but its object is
  gone from the bus.\<close>

theorem identical_devices_share_path:
  assumes "glib_contract G" and "is_printer u" and "is_printer u'" and "ud_ieee1284_id u' = ud_ieee1284_id u"
    and "ud_sysfs_path u' \<noteq> ud_sysfs_path u" and "\<And>xs. set (ord xs) = set xs"
  shows "\<exists>a paths. let w3 = pd_engine_handle_uevent G ''remove'' u'
             (pd_engine_handle_uevent G ''add'' u' (pd_engine_handle_uevent G ''add'' u w)) in
    map_of (w_path_to_device w3) (ud_sysfs_path u) = Some a \<and> w_devices w3 a \<noteq> None
    \<and> pd_manager_impl_get_devices G ord w3 = [Reply_value (Paths_value paths)]
    \<and> device_path_at G w3 a \<in> set paths \<and> w_exported w3 (device_path_at G w3 a) = None"
proof -
  obtain dev i where dev: "dev_id dev = Some i" "set i \<subseteq> set path_chars" "dev_ieee1284_id dev = ud_ieee1284_id u"
    and add: "\<And>u' w. is_printer u' \<Longrightarrow> ud_ieee1284_id u' = ud_ieee1284_id u \<Longrightarrow>
      pd_engine_handle_uevent G ''add'' u' w = plugged u' dev i w"
    using uevent_add [OF assms(1,2)] by metis
  let ?w2 = "plugged u' dev i (plugged u dev i w)"
  let ?w3 = "(unexport (device_path_of i) ?w2)\<lparr>w_path_to_device := AList.delete (ud_sysfs_path u') (w_path_to_device ?w2)\<rparr>"
  have w3: "pd_engine_handle_uevent G ''remove'' u' ?w2 = ?w3"
    by (rule uevent_remove [of _ _ "Suc (w_next w)" dev]) (simp_all add: AList.update_conv' dev(1))
  have m: "map_of (w_path_to_device ?w3) (ud_sysfs_path u) = Some (w_next w)"
    using assms(5) by (simp add: AList.delete_conv' AList.update_conv')
  have d: "w_devices ?w3 (w_next w) = Some dev" by simp
  have p: "device_path_at G ?w3 (w_next w) = device_path_of i"
    using device_get_id_same [OF dev(1), of G] d by (simp add: device_path_at_def fmt_s_def)
  have "w_next w \<in> set (map snd (w_path_to_device ?w3))" using map_of_SomeD [OF m] by force
  then have "device_path_at G ?w3 (w_next w) \<in> set (map (device_path_at G ?w3) (pd_engine_get_devices ord ?w3))"
    unfolding pd_engine_get_devices_def set_map [of "device_path_at G ?w3"] assms(6) by (rule imageI)
  moreover have "w_exported ?w3 (device_path_of i) = None" by simp
  ultimately show ?thesis
    unfolding Let_def add [OF assms(2) refl] add [OF assms(3,4)] w3 pd_manager_impl_get_devices_def
    using m d p by (intro exI [of _ "w_next w"]) auto
qed

theorem identical_devices_share_path_witness:
  "\<exists>a. map_of (w_path_to_device (pd_engine_handle_uevent glib_doc ''remove'' (usb_printer ''/sys/2'')
     (pd_engine_handle_uevent glib_doc ''add'' (usb_printer ''/sys/2'')
       (pd_engine_handle_uevent glib_doc ''add'' (usb_printer ''/sys/1'') office)))) ''/sys/1'' = Some a"
  using identical_devices_share_path [OF glib_doc_contract usb_printer_simps(1) usb_printer_simps(1),
      of "''/sys/2''" "''/sys/1''" id office]
  by (auto simp: Let_def)

end
