(* ===== verification/Pd_Client.thy ===== *)
theory Pd_Client
  imports Prelude
begin

text \<open>
  printerd/pd-client.c: the client library. A client is initialized once, by looking up the
  objects of the daemon; afterwards every signal of the object manager is answered by queueing
  one emission of the signal changed, 100 milliseconds later, unless one is queued already.

  Time is a number of milliseconds that the main loop passes to the callbacks. The attached
  timeout source is its due time. What GIO returns (the object manager, or an error) is an
  argument.
\<close>

subsection \<open>The client\<close>

datatype bus_type = Bus_system | Bus_session

text \<open>
  An object manager holds for every object path the proxies of its interfaces, each with its
  default timeout.
\<close>

record interface_proxy =
  ip_name :: string
  ip_timeout :: int

type_synonym object_manager = "(string \<times> interface_proxy list) list"

text \<open>The log holds the changes that were signalled by the object manager and the emissions, oldest first.\<close>

datatype entry = Change nat | Emit nat

record client =
  cl_is_initialized :: bool
  cl_initialization_error :: "string option"
  cl_object_manager :: "object_manager option"
  cl_connected :: bool
  cl_timeout_source :: "nat option"
  cl_log :: "entry list"

definition pd_client_init :: client where
  "pd_client_init =
     \<lparr>cl_is_initialized = False, cl_initialization_error = None, cl_object_manager = None,
      cl_connected = False, cl_timeout_source = None, cl_log = []\<rparr>"

subsection \<open>Initialization\<close>

definition G_MAXINT :: int where
  "G_MAXINT = 2 ^ 31 - 1"

definition init_interface_proxy :: "interface_proxy \<Rightarrow> interface_proxy" where
  "init_interface_proxy proxy = proxy\<lparr>ip_timeout := G_MAXINT\<rparr>"

text \<open>
  The result is None when an assertion fails; otherwise the client and the error that is
  reported, if any. session says that PD_USE_SESSION_BUS is set.
\<close>

definition initable_init ::
  "(bus_type \<Rightarrow> string + object_manager) \<Rightarrow> bool \<Rightarrow> client \<Rightarrow> (client \<times> string option) option" where
  "initable_init new_for_bus session client =
     (if cl_is_initialized client then
        (if cl_object_manager client \<noteq> None then Some (client, None)
         else if cl_initialization_error client = None then None
         else Some (client, cl_initialization_error client))
      else if cl_initialization_error client \<noteq> None then None
      else
        (case new_for_bus (if session then Bus_session else Bus_system) of
           Inl e \<Rightarrow> Some (client\<lparr>cl_is_initialized := True, cl_initialization_error := Some e\<rparr>, Some e)
         | Inr objects \<Rightarrow>
             Some (client\<lparr>cl_is_initialized := True, cl_connected := True,
                     cl_object_manager := Some (map (\<lambda>(path, proxies). (path, map init_interface_proxy proxies)) objects)\<rparr>,
                   None)))"

subsection \<open>Looking up objects\<close>

definition pd_client_get_object :: "client \<Rightarrow> string \<Rightarrow> interface_proxy list option" where
  "pd_client_get_object client object_path = Option.bind (cl_object_manager client) (\<lambda>om. map_of om object_path)"

definition pd_client_peek_object :: "client \<Rightarrow> string \<Rightarrow> interface_proxy list option" where
  "pd_client_peek_object client object_path = pd_client_get_object client object_path"

definition pd_client_get_manager :: "client \<Rightarrow> interface_proxy option" where
  "pd_client_get_manager client =
     (case pd_client_get_object client ''/org/freedesktop/printerd/Manager'' of
        None \<Rightarrow> None
      | Some proxies \<Rightarrow> List.find (\<lambda>proxy. ip_name proxy = ''org.freedesktop.printerd.Manager'') proxies)"

subsection \<open>Coalescing\<close>

definition emit_changed :: "nat \<Rightarrow> client \<Rightarrow> client" where
  "emit_changed now client = client\<lparr>cl_log := cl_log client @ [Emit now]\<rparr>"

definition maybe_emit_changed_now :: "nat \<Rightarrow> client \<Rightarrow> client" where
  "maybe_emit_changed_now now client =
     (if cl_timeout_source client = None then client
      else emit_changed now (client\<lparr>cl_timeout_source := None\<rparr>))"

definition on_changed_timeout :: "nat \<Rightarrow> client \<Rightarrow> client" where
  "on_changed_timeout now client = emit_changed now (client\<lparr>cl_timeout_source := None\<rparr>)"

definition queue_changed :: "nat \<Rightarrow> client \<Rightarrow> client" where
  "queue_changed now client =
     (if cl_timeout_source client \<noteq> None then client
      else client\<lparr>cl_timeout_source := Some (now + 100)\<rparr>)"

text \<open>
  The signals of the object manager, with the path of the object and the name of the interface.
  The object manager belongs to GIO: its contents when the signal is emitted are an argument.
\<close>

datatype om_signal =
    Object_added string
  | Object_removed string
  | Interface_added string string
  | Interface_removed string string
  | Interface_proxy_properties_changed string string

definition note_signal :: "nat \<Rightarrow> object_manager \<Rightarrow> client \<Rightarrow> client" where
  "note_signal now om client =
     client\<lparr>cl_log := cl_log client @ [Change now], cl_object_manager := Some om\<rparr>"

definition init_proxy_of :: "string \<Rightarrow> string \<Rightarrow> object_manager \<Rightarrow> object_manager" where
  "init_proxy_of path i om =
     map (\<lambda>(p, proxies). (p, map (\<lambda>proxy.
       if p = path \<and> ip_name proxy = i then init_interface_proxy proxy else proxy) proxies)) om"

definition on_object_added :: "nat \<Rightarrow> client \<Rightarrow> client" where
  "on_object_added now client = queue_changed now client"

definition on_object_removed :: "nat \<Rightarrow> client \<Rightarrow> client" where
  "on_object_removed now client = queue_changed now client"

definition on_interface_added :: "nat \<Rightarrow> string \<Rightarrow> string \<Rightarrow> client \<Rightarrow> client" where
  "on_interface_added now path i client =
     queue_changed now (client\<lparr>cl_object_manager := map_option (init_proxy_of path i) (cl_object_manager client)\<rparr>)"

definition on_interface_removed :: "nat \<Rightarrow> client \<Rightarrow> client" where
  "on_interface_removed now client = queue_changed now client"

definition on_interface_proxy_properties_changed :: "nat \<Rightarrow> client \<Rightarrow> client" where
  "on_interface_proxy_properties_changed now client = queue_changed now client"

definition deliver_signal :: "nat \<Rightarrow> om_signal \<Rightarrow> object_manager \<Rightarrow> client \<Rightarrow> client" where
  "deliver_signal now s om client =
     (let noted = note_signal now om client in
      case s of
        Object_added path \<Rightarrow> on_object_added now noted
      | Object_removed path \<Rightarrow> on_object_removed now noted
      | Interface_added path i \<Rightarrow> on_interface_added now path i noted
      | Interface_removed path i \<Rightarrow> on_interface_removed now noted
      | Interface_proxy_properties_changed path i \<Rightarrow> on_interface_proxy_properties_changed now noted)"

text \<open>
  What the main context has ready to dispatch: signals that have arrived, or the timeout. A
  source that was destroyed in the meantime is not dispatched.
\<close>

datatype ready = Ready_signal om_signal object_manager | Ready_timeout

definition dispatch :: "nat \<Rightarrow> ready \<Rightarrow> client \<Rightarrow> client" where
  "dispatch now r client =
     (case r of
        Ready_signal s om \<Rightarrow> deliver_signal now s om client
      | Ready_timeout \<Rightarrow> if cl_timeout_source client = None then client else on_changed_timeout now client)"

text \<open>pd_client_settle iterates the main context until nothing is ready.\<close>

fun settle_loop :: "nat \<Rightarrow> ready list \<Rightarrow> client \<Rightarrow> client" where
  "settle_loop now [] client = client"
| "settle_loop now (r # rs) client = settle_loop now rs (dispatch now r client)"

definition pd_client_settle :: "nat \<Rightarrow> ready list \<Rightarrow> client \<Rightarrow> client" where
  "pd_client_settle now ready client = maybe_emit_changed_now now (settle_loop now ready client)"

subsection \<open>The main loop\<close>

text \<open>
  The state is the clock and the client. Time passes; a connected client gets signals; the
  timeout is dispatched at its due time or later; the application may settle, with what is
  ready then.
\<close>

inductive loop_step :: "nat \<times> client \<Rightarrow> nat \<times> client \<Rightarrow> bool" where
  loop_time: "loop_step (now, client) (now + d, client)"
| loop_signal: "cl_connected client \<Longrightarrow> loop_step (now, client) (now, deliver_signal now s om client)"
| loop_timeout: "cl_timeout_source client = Some due \<Longrightarrow> due \<le> now \<Longrightarrow>
    loop_step (now, client) (now, on_changed_timeout now client)"

inductive_cases loop_stepE: "loop_step (now, client) (now', client')"

text \<open>
  What a client shall promise, on the log alone: every emission follows a change that was not
  reported before, and emissions are 100 milliseconds apart.
\<close>

primrec reported_from :: "bool \<Rightarrow> entry list \<Rightarrow> bool" where
  "reported_from clean [] = clean"
| "reported_from clean (e # log) = reported_from (case e of Change t \<Rightarrow> False | Emit t \<Rightarrow> True) log"

primrec no_idle_from :: "bool \<Rightarrow> entry list \<Rightarrow> bool" where
  "no_idle_from clean [] = True"
| "no_idle_from clean (e # log) =
     (case e of Change t \<Rightarrow> no_idle_from False log | Emit t \<Rightarrow> \<not> clean \<and> no_idle_from True log)"

abbreviation reported :: "entry list \<Rightarrow> bool" where
  "reported \<equiv> reported_from True"

abbreviation no_idle_emission :: "entry list \<Rightarrow> bool" where
  "no_idle_emission \<equiv> no_idle_from True"

definition emissions :: "entry list \<Rightarrow> nat list" where
  "emissions log = List.map_filter (\<lambda>e. case e of Emit t \<Rightarrow> Some t | Change t \<Rightarrow> None) log"

definition rate_limited :: "nat list \<Rightarrow> bool" where
  "rate_limited ts \<longleftrightarrow> sorted_wrt (\<lambda>s t. s + 100 \<le> t) ts"

definition client_inv :: "nat \<times> client \<Rightarrow> bool" where
  "client_inv s \<longleftrightarrow> (case s of (now, client) \<Rightarrow>
     (cl_timeout_source client = None \<longleftrightarrow> reported (cl_log client))
     \<and> no_idle_emission (cl_log client) \<and> rate_limited (emissions (cl_log client))
     \<and> (\<forall>t\<in>set (emissions (cl_log client)). t \<le> now)
     \<and> (\<forall>due. cl_timeout_source client = Some due \<longrightarrow>
          due \<le> now + 100 \<and> (\<forall>t\<in>set (emissions (cl_log client)). t + 100 \<le> due)))"

definition client_initial :: "nat \<times> client \<Rightarrow> bool" where
  "client_initial s \<longleftrightarrow> cl_timeout_source (snd s) = None \<and> cl_log (snd s) = []"

lemma reported_snoc [simp]:
  "reported_from clean (log @ [Change t]) = False" "reported_from clean (log @ [Emit t]) = True"
  by (induction log arbitrary: clean) simp_all

lemma emissions_snoc [simp]:
  "emissions [] = []" "emissions (log @ [Change t]) = emissions log" "emissions (log @ [Emit t]) = emissions log @ [t]"
  by (simp_all add: emissions_def map_filter_def)

lemma no_idle_snoc [simp]:
  "no_idle_from clean (log @ [Change t]) = no_idle_from clean log"
  "no_idle_from clean (log @ [Emit t]) \<longleftrightarrow> no_idle_from clean log \<and> \<not> reported_from clean log"
  by (induction log arbitrary: clean) (auto split: entry.split)

lemma rate_limited_snoc [simp]:
  "rate_limited []" "rate_limited (ts @ [t]) \<longleftrightarrow> rate_limited ts \<and> (\<forall>s\<in>set ts. s + 100 \<le> t)"
  by (simp_all add: rate_limited_def sorted_wrt_append)

lemma deliver_simps [simp]:
  "cl_timeout_source (deliver_signal now s om client) =
     (case cl_timeout_source client of None \<Rightarrow> Some (now + 100) | Some due \<Rightarrow> Some due)"
  "cl_log (deliver_signal now s om client) = cl_log client @ [Change now]"
  "cl_connected (deliver_signal now s om client) = cl_connected client"
  by (cases s; simp add: deliver_signal_def Let_def note_signal_def on_object_added_def on_object_removed_def
      on_interface_added_def on_interface_removed_def on_interface_proxy_properties_changed_def queue_changed_def
      split: option.split)+

lemma client_inv_signal: "client_inv (now, client) \<Longrightarrow> client_inv (now, deliver_signal now s om client)"
  by (auto simp: client_inv_def split: option.splits)

lemma client_inv_timeout:
  "client_inv (now, client) \<Longrightarrow> cl_timeout_source client = Some due \<Longrightarrow> due \<le> now \<Longrightarrow>
     client_inv (now, on_changed_timeout now client)"
  by (fastforce simp: client_inv_def on_changed_timeout_def emit_changed_def)

interpretation coalescing: invariant_system loop_step client_initial client_inv
proof
  fix s assume "client_initial s"
  then show "client_inv s" by (cases s) (simp add: client_initial_def client_inv_def)
next
  fix s s' assume "client_inv s" and "loop_step s s'"
  from this(2,1) show "client_inv s'"
  proof cases
    case (loop_time client now d)
    then show ?thesis using \<open>client_inv s\<close> by (fastforce simp: client_inv_def)
  qed (simp_all add: client_inv_signal client_inv_timeout)
qed

subsection \<open>Properties\<close>


definition connected_client :: client where
  "connected_client = pd_client_init\<lparr>cl_is_initialized := True, cl_connected := True, cl_object_manager := Some []\<rparr>"


lemma settle_loop_inv:
  "(cl_timeout_source client = None \<longleftrightarrow> reported (cl_log client)) \<Longrightarrow> no_idle_emission (cl_log client) \<Longrightarrow>
    (cl_timeout_source (settle_loop now rs client) = None \<longleftrightarrow> reported (cl_log (settle_loop now rs client)))
    \<and> no_idle_emission (cl_log (settle_loop now rs client))
    \<and> length (filter (\<lambda>e. e = Change now) (cl_log (settle_loop now rs client)))
        = length (filter (\<lambda>e. e = Change now) (cl_log client)) + length (filter (\<lambda>r. r \<noteq> Ready_timeout) rs)"
proof (induction rs arbitrary: client)
  case (Cons r rs)
  have "(cl_timeout_source (dispatch now r client) = None \<longleftrightarrow> reported (cl_log (dispatch now r client)))
    \<and> no_idle_emission (cl_log (dispatch now r client))
    \<and> length (filter (\<lambda>e. e = Change now) (cl_log (dispatch now r client)))
        = length (filter (\<lambda>e. e = Change now) (cl_log client)) + (if r = Ready_timeout then 0 else 1)"
    using Cons.prems by (cases r) (auto simp: dispatch_def on_changed_timeout_def emit_changed_def split: option.split)
  with Cons.IH [of "dispatch now r client"] show ?case by simp
qed simp



text \<open>Initializing a new client never fails an assertion: it keeps the error of the lookup, or
  the objects with the time limits of all proxies removed. Initializing it again changes nothing
  and gives the same answer, whatever the bus says then.\<close>

theorem initable_init_idempotent:
  assumes "initable_init new_for_bus session pd_client_init = r"
  shows "\<exists>client err. r = Some (client, err)
    \<and> (\<forall>new_for_bus' session'. initable_init new_for_bus' session' client = Some (client, err))
    \<and> (case new_for_bus (if session then Bus_session else Bus_system) of
         Inl e \<Rightarrow> err = Some e \<and> cl_object_manager client = None \<and> \<not> cl_connected client
       | Inr objects \<Rightarrow> err = None \<and> cl_connected client
           \<and> (\<forall>path. map_option (map ip_name) (pd_client_get_object client path) = map_option (map ip_name) (map_of objects path)
                \<and> (\<forall>proxies. pd_client_get_object client path = Some proxies \<longrightarrow> (\<forall>p\<in>set proxies. ip_timeout p = G_MAXINT))))"
proof -
  have m: "map_of (map (\<lambda>(path, proxies). (path, map init_interface_proxy proxies)) objects)
      = (\<lambda>path. map_option (map init_interface_proxy) (map_of objects path))" for objects
    by (induction objects) auto
  show ?thesis
  proof (cases "new_for_bus (if session then Bus_session else Bus_system)")
    case (Inl e)
    let ?c = "pd_client_init\<lparr>cl_is_initialized := True, cl_initialization_error := Some e\<rparr>"
    have again: "initable_init new_for_bus' session' ?c = Some (?c, Some e)" for new_for_bus' session'
      by (simp add: initable_init_def pd_client_init_def)
    have r: "r = Some (?c, Some e)" using assms Inl by (simp add: initable_init_def pd_client_init_def)
    show ?thesis
      unfolding Inl sum.case
      by (intro exI [of _ ?c] exI [of _ "Some e"] conjI allI) (rule r again refl | simp add: pd_client_init_def)+
  next
    case (Inr objects)
    let ?om = "map (\<lambda>(path, proxies). (path, map init_interface_proxy proxies)) objects"
    let ?c = "pd_client_init\<lparr>cl_is_initialized := True, cl_connected := True, cl_object_manager := Some ?om\<rparr>"
    have g: "pd_client_get_object ?c path = map_option (map init_interface_proxy) (map_of objects path)" for path
      by (simp add: pd_client_get_object_def m)
    have again: "initable_init new_for_bus' session' ?c = Some (?c, None)" for new_for_bus' session'
      by (simp add: initable_init_def)
    have r: "r = Some (?c, None)" using assms Inr by (simp add: initable_init_def pd_client_init_def)
    show ?thesis
      unfolding Inr sum.case
    proof (intro exI [of _ ?c] exI [of _ None] conjI allI impI ballI)
      fix path
      show "map_option (map ip_name) (pd_client_get_object ?c path) = map_option (map ip_name) (map_of objects path)"
        unfolding g by (simp add: option.map_comp comp_def init_interface_proxy_def)
      fix proxies p assume "pd_client_get_object ?c path = Some proxies" and "p \<in> set proxies"
      then show "ip_timeout p = G_MAXINT" unfolding g by (auto simp: init_interface_proxy_def)
    qed (rule r again refl | simp)+
  qed
qed

theorem initable_init_idempotent_witness:
  "\<exists>client. initable_init (\<lambda>b. Inr [(''/p'', [\<lparr>ip_name = ''i'', ip_timeout = -1\<rparr>])]) False pd_client_init = Some (client, None)
     \<and> initable_init (\<lambda>b. Inl ''gone'') True client = Some (client, None)"
  using initable_init_idempotent [of "\<lambda>b. Inr [(''/p'', [\<lparr>ip_name = ''i'', ip_timeout = -1\<rparr>])]" False, OF refl] by auto

subsection \<open>The life of a client\<close>

text \<open>
  What pd_client_finalize does, in order. GLib refuses the value NULL as an instance: it logs a
  critical message and does nothing. The five handlers are the ones that initable_init connects.
\<close>

datatype handler = Handle_object_added | Handle_object_removed | Handle_interface_added | Handle_interface_removed
  | Handle_properties_changed

datatype client_release = Destroy_timeout | Free_error | Disconnect handler | Unref_object_manager | Critical

definition client_handlers :: "handler list" where
  "client_handlers = [Handle_object_added, Handle_object_removed, Handle_interface_added, Handle_interface_removed, Handle_properties_changed]"

definition pd_client_finalize :: "client \<Rightarrow> client_release list" where
  "pd_client_finalize client =
     (if cl_timeout_source client \<noteq> None then [Destroy_timeout] else [])
     @ (if cl_initialization_error client \<noteq> None then [Free_error] else [])
     @ (case cl_object_manager client of
          None \<Rightarrow> map (\<lambda>h. Critical) client_handlers @ [Critical]
        | Some om \<Rightarrow> map Disconnect client_handlers @ [Unref_object_manager])"

text \<open>
  g_initable_new makes the object, initializes it, and releases it when that failed. The result
  is the error or the client, with what a release did; None when an assertion fails.
\<close>

definition pd_client_new_sync ::
  "(bus_type \<Rightarrow> string + object_manager) \<Rightarrow> bool \<Rightarrow> ((string + client) \<times> client_release list) option" where
  "pd_client_new_sync new_for_bus session =
     (case initable_init new_for_bus session pd_client_init of
        None \<Rightarrow> None
      | Some (client, None) \<Rightarrow> Some (Inr client, [])
      | Some (client, Some e) \<Rightarrow> Some (Inl e, pd_client_finalize client))"

text \<open>
  A client that could not be initialized is finalized with six critical messages, one for every
  use of the object manager it never had. One that was made, used and finalized releases everything
  once, also a change that is still to be reported.
\<close>

lemma new_sync_fails:
  "new_for_bus (if session then Bus_session else Bus_system) = Inl e \<Longrightarrow>
     pd_client_new_sync new_for_bus session = Some (Inl e, Free_error # replicate 6 Critical)"
  by (simp add: pd_client_new_sync_def initable_init_def pd_client_init_def pd_client_finalize_def client_handlers_def numeral_eq_Suc)

lemma new_sync_connects:
  "new_for_bus (if session then Bus_session else Bus_system) = Inr objects \<Longrightarrow>
     \<exists>client. pd_client_new_sync new_for_bus session = Some (Inr client, []) \<and> cl_connected client \<and> cl_log client = []"
  by (simp add: pd_client_new_sync_def initable_init_def pd_client_init_def)

lemmas signal_defs = deliver_signal_def note_signal_def queue_changed_def Let_def on_object_added_def on_object_removed_def
  on_interface_added_def on_interface_removed_def on_interface_proxy_properties_changed_def

lemma deliver_signal_error [simp]: "cl_initialization_error (deliver_signal now s om client) = cl_initialization_error client"
  by (cases s) (simp_all add: signal_defs)

lemma loop_step_error: "loop_step a b \<Longrightarrow> cl_initialization_error (snd b) = cl_initialization_error (snd a)"
  by (induction rule: loop_step.induct) (simp_all add: on_changed_timeout_def emit_changed_def)

lemma loop_step_objects: "loop_step a b \<Longrightarrow> cl_object_manager (snd a) \<noteq> None \<Longrightarrow> cl_object_manager (snd b) \<noteq> None"
proof (induction rule: loop_step.induct)
  case (loop_signal client now s om)
  then show ?case
    by (cases s) (simp_all add: signal_defs)
qed (simp_all add: on_changed_timeout_def emit_changed_def)

theorem finalize_releases:
  assumes "new_for_bus (if session then Bus_session else Bus_system) = Inr objects"
    and "pd_client_new_sync new_for_bus session = Some (Inr client, rs)" and "loop_step\<^sup>*\<^sup>* (now, client) (now', client')"
  shows "pd_client_finalize client' =
    (if cl_timeout_source client' = None then [] else [Destroy_timeout]) @ map Disconnect client_handlers @ [Unref_object_manager]"
proof -
  have c: "cl_initialization_error client = None" "cl_object_manager client \<noteq> None"
    using assms(1,2) by (auto simp: pd_client_new_sync_def initable_init_def pd_client_init_def)
  have "cl_initialization_error (snd (now', client')) = None \<and> cl_object_manager (snd (now', client')) \<noteq> None"
    using assms(3)
  proof (induction rule: rtranclp_induct)
    case (step a b)
    then show ?case using loop_step_error loop_step_objects by metis
  qed (use c in simp)
  then show ?thesis by (auto simp: pd_client_finalize_def)
qed

theorem finalize_releases_witness:
  "pd_client_finalize (deliver_signal 5 (Object_added ''/p'') [] connected_client)
    = [Destroy_timeout] @ map Disconnect client_handlers @ [Unref_object_manager]"
proof -
  have n: "pd_client_new_sync (\<lambda>b. Inr []) False = Some (Inr connected_client, [])"
    by (simp add: pd_client_new_sync_def initable_init_def connected_client_def pd_client_init_def)
  have "loop_step (5, connected_client) (5, deliver_signal 5 (Object_added ''/p'') [] connected_client)"
    by (rule loop_signal) (simp add: connected_client_def)
  then have s: "loop_step\<^sup>*\<^sup>* (5, connected_client) (5, deliver_signal 5 (Object_added ''/p'') [] connected_client)"
    by (rule r_into_rtranclp)
  from finalize_releases [OF _ n s] show ?thesis
    by (simp add: deliver_signal_def note_signal_def on_object_added_def queue_changed_def connected_client_def pd_client_init_def)
qed

end
