(* ===== verification/Pd_Cli.thy ===== *)
theory Pd_Cli
  imports Glib Pd_Client
begin

text \<open>
  tools/pd-cli.c: the command line client. Every command is a short program of D-Bus calls; its
  value is the exit code.

  The bus and the file system are a parameter: a record of the calls the program makes, each a
  function of an environment. A call that fails yields the message of its GError. The state of
  the program is the environment, what it has printed, the descriptors it has closed and the
  calls it has made. A command is an option where the code can use freed memory: None is
  undefined behaviour.
\<close>

subsection \<open>The bus and the program\<close>

record 'e bus =
  bus_proxy :: "bus_type \<Rightarrow> string \<Rightarrow> 'e \<Rightarrow> (string + unit) \<times> 'e"
  bus_get_printers :: "'e \<Rightarrow> (string + string list) \<times> 'e"
  bus_get_devices :: "'e \<Rightarrow> (string + string list) \<times> 'e"
  bus_create_printer :: "string \<Rightarrow> string list \<Rightarrow> 'e \<Rightarrow> (string + string) \<times> 'e"
  bus_device_create_printer :: "string \<Rightarrow> string \<Rightarrow> 'e \<Rightarrow> (string + string) \<times> 'e"
  bus_delete_printer :: "string \<Rightarrow> 'e \<Rightarrow> (string + unit) \<times> 'e"
  bus_create_job :: "string \<Rightarrow> string \<Rightarrow> 'e \<Rightarrow> (string + string) \<times> 'e"
  bus_add_document :: "string \<Rightarrow> int \<Rightarrow> 'e \<Rightarrow> (string + unit) \<times> 'e"
  bus_start :: "string \<Rightarrow> 'e \<Rightarrow> (string + unit) \<times> 'e"
  bus_cancel :: "string \<Rightarrow> 'e \<Rightarrow> (string + unit) \<times> 'e"
  bus_open :: "string \<Rightarrow> 'e \<Rightarrow> (string + int) \<times> 'e"
  bus_fd_list_append :: "int \<Rightarrow> 'e \<Rightarrow> bool \<times> 'e"

text \<open>The calls, with the object they are made on and whether they succeeded.\<close>

datatype method_call = Create_job | Add_document | Start_job | Cancel_job | Create_printer | Delete_printer

record 'e cli =
  cli_env :: 'e
  cli_bus :: bus_type
  cli_out :: "string list"
  cli_err :: "string list"
  cli_closed :: "int list"
  cli_calls :: "(method_call \<times> string \<times> bool) list"

definition g_print :: "string \<Rightarrow> 'e cli \<Rightarrow> 'e cli" where
  "g_print s c = c\<lparr>cli_out := cli_out c @ [s]\<rparr>"

definition g_printerr :: "string \<Rightarrow> 'e cli \<Rightarrow> 'e cli" where
  "g_printerr s c = c\<lparr>cli_err := cli_err c @ [s]\<rparr>"

definition newline :: string where
  "newline = [CHR 0x0A]"

definition ask :: "('e \<Rightarrow> 'a \<times> 'e) \<Rightarrow> 'e cli \<Rightarrow> 'a \<times> 'e cli" where
  "ask f c = (let (r, e) = f (cli_env c) in (r, c\<lparr>cli_env := e\<rparr>))"

definition is_ok :: "string + 'a \<Rightarrow> bool" where
  "is_ok r = (case r of Inl _ \<Rightarrow> False | Inr _ \<Rightarrow> True)"

definition call :: "method_call \<Rightarrow> string \<Rightarrow> ('e \<Rightarrow> (string + 'a) \<times> 'e) \<Rightarrow> 'e cli \<Rightarrow> (string + 'a) \<times> 'e cli" where
  "call m path f c =
     (let (r, c1) = ask f c in (r, c1\<lparr>cli_calls := cli_calls c1 @ [(m, path, is_ok r)]\<rparr>))"

definition proxy_for :: "'e bus \<Rightarrow> string \<Rightarrow> 'e cli \<Rightarrow> (string + unit) \<times> 'e cli" where
  "proxy_for B path c = ask (bus_proxy B (cli_bus c) path) c"

subsection \<open>Listing\<close>

text \<open>What follows the last slash of a path, on a line of its own.\<close>

definition print_ids :: "glib \<Rightarrow> string list \<Rightarrow> 'e cli \<Rightarrow> 'e cli" where
  "print_ids G paths c =
     fold (\<lambda>path c. case g_strrstr G path ''/'' of None \<Rightarrow> c | Some i \<Rightarrow> g_print (tl i @ newline) c) paths c"

definition get_devices :: "glib \<Rightarrow> 'e bus \<Rightarrow> 'e cli \<Rightarrow> int \<times> 'e cli" where
  "get_devices G B c =
     (case ask (bus_get_devices B) c of
        (Inl message, c1) \<Rightarrow> (1, g_printerr (''GetDevices failed: '' @ message @ newline) c1)
      | (Inr devices, c1) \<Rightarrow> (0, print_ids G devices c1))"

definition get_printers :: "glib \<Rightarrow> 'e bus \<Rightarrow> 'e cli \<Rightarrow> int \<times> 'e cli" where
  "get_printers G B c =
     (case ask (bus_get_printers B) c of
        (Inl message, c1) \<Rightarrow> (1, g_printerr (''GetPrinters failed: '' @ message @ newline) c1)
      | (Inr printers, c1) \<Rightarrow> (0, print_ids G printers c1))"

subsection \<open>Jobs\<close>

text \<open>Reading the first character of an empty string yields the terminating zero.\<close>

definition cancel_job :: "'e bus \<Rightarrow> string \<Rightarrow> 'e cli \<Rightarrow> int \<times> 'e cli" where
  "cancel_job B job_id c =
     (let job_path = (if take 1 job_id = ''/'' then job_id else ''/org/freedesktop/printerd/job/'' @ job_id) in
      case proxy_for B job_path c of
        (Inl message, c1) \<Rightarrow> (1, g_printerr (''Error getting job: '' @ message @ newline) c1)
      | (Inr _, c1) \<Rightarrow>
          (case call Cancel_job job_path (bus_cancel B job_path) c1 of
             (Inl message, c2) \<Rightarrow> (1, g_printerr (''Error canceling job: '' @ message @ newline) c2)
           | (Inr _, c2) \<Rightarrow> (0, c2)))"

text \<open>
  The error pointer of add_documents is not reset after g_error_free, so it dangles for the
  documents that follow: a further call then reads the freed error, whether it fails or not.
  When the descriptor cannot be added to the list it is closed twice.
\<close>

datatype error_pointer = Error_null | Error_dangling

definition close_cli :: "int \<Rightarrow> 'e cli \<Rightarrow> 'e cli" where
  "close_cli fd c = c\<lparr>cli_closed := cli_closed c @ [fd]\<rparr>"

fun add_each :: "'e bus \<Rightarrow> string \<Rightarrow> string list \<Rightarrow> error_pointer \<Rightarrow> bool \<Rightarrow> 'e cli \<Rightarrow> (bool \<times> 'e cli) option" where
  "add_each B job_path [] error docs_added c = Some (docs_added, c)"
| "add_each B job_path (file # files) error docs_added c =
     (case ask (bus_open B file) c of
        (Inl message, c1) \<Rightarrow>
          add_each B job_path files error docs_added (g_printerr (''Error opening file: '' @ message @ newline) c1)
      | (Inr fd, c1) \<Rightarrow>
          (case ask (bus_fd_list_append B fd) c1 of
             (False, c2) \<Rightarrow>
               add_each B job_path files error docs_added
                 (close_cli fd (g_printerr (''Error adding fd to list'' @ newline) (close_cli fd c2)))
           | (True, c2) \<Rightarrow>
               (case call Add_document job_path (bus_add_document B job_path fd) c2 of
                  (r, c3) \<Rightarrow>
                    if error = Error_dangling then None
                    else
                      (case r of
                         Inl message \<Rightarrow>
                           add_each B job_path files Error_dangling docs_added
                             (close_cli fd (g_printerr (''Error adding document: '' @ message @ newline) c3))
                       | Inr _ \<Rightarrow> add_each B job_path files error True (close_cli fd c3)))))"

definition add_documents :: "'e bus \<Rightarrow> string \<Rightarrow> string list \<Rightarrow> 'e cli \<Rightarrow> (int \<times> 'e cli) option" where
  "add_documents B job_id documents c =
     (let job_path = ''/org/freedesktop/printerd/job/'' @ job_id in
      case proxy_for B job_path c of
        (Inl message, c1) \<Rightarrow> Some (1, g_printerr (''Error getting job: '' @ message @ newline) c1)
      | (Inr _, c1) \<Rightarrow>
          map_option (\<lambda>(docs_added, c2). (if docs_added then 0 else 1, c2))
            (add_each B job_path documents Error_null False c1))"

text \<open>The end of print_files: cancelling the job, or starting it.\<close>

definition finish_job :: "'e bus \<Rightarrow> string \<Rightarrow> int \<Rightarrow> 'e cli \<Rightarrow> int \<times> 'e cli" where
  "finish_job B job_path failed c =
     (if failed \<noteq> 0 then (1, snd (cancel_job B job_path c))
      else
        (case proxy_for B job_path c of
           (Inl message, c1) \<Rightarrow> (1, g_printerr (''Error getting job: '' @ message @ newline) c1)
         | (Inr _, c1) \<Rightarrow>
             (case call Start_job job_path (bus_start B job_path) c1 of
                (Inl message, c2) \<Rightarrow> (1, g_printerr (''Error starting job: '' @ message @ newline) c2)
              | (Inr _, c2) \<Rightarrow> (0, g_print (''Job path is '' @ job_path @ newline) c2))))"

text \<open>strrchr finds no slash in a path that is none; then the code adds one to NULL.\<close>

definition print_files :: "'e bus \<Rightarrow> string \<Rightarrow> string list \<Rightarrow> 'e cli \<Rightarrow> (int \<times> 'e cli) option" where
  "print_files B printer_id files c =
     (let printer_path = ''/org/freedesktop/printerd/printer/'' @ printer_id in
      case proxy_for B printer_path c of
        (Inl message, c1) \<Rightarrow> Some (1, g_printerr (''Error getting printerd printer proxy: '' @ message @ newline) c1)
      | (Inr _, c1) \<Rightarrow>
          (case call Create_job printer_path (bus_create_job B printer_path ''New job'') c1 of
             (Inl message, c2) \<Rightarrow> Some (1, g_printerr (''Error creating job: '' @ message @ newline) c2)
           | (Inr job_path, c2) \<Rightarrow>
               (case doc_strrchr job_path CHR ''/'' of
                  None \<Rightarrow> None
                | Some s \<Rightarrow>
                    (case add_documents B (tl s) files c2 of
                       None \<Rightarrow> None
                     | Some (failed, c3) \<Rightarrow> Some (finish_job B job_path failed c3)))))"

subsection \<open>Printers\<close>

definition create_printer_from_device :: "'e bus \<Rightarrow> string \<Rightarrow> string \<Rightarrow> 'e cli \<Rightarrow> int \<times> 'e cli" where
  "create_printer_from_device B name dev c =
     (let device_path = ''/org/freedesktop/printerd/device/'' @ dev in
      case proxy_for B device_path c of
        (Inl message, c1) \<Rightarrow> (1, g_printerr (''Error getting device: '' @ message @ newline) c1)
      | (Inr _, c1) \<Rightarrow>
          (case call Create_printer device_path (bus_device_create_printer B device_path name) c1 of
             (Inl message, c2) \<Rightarrow> (1, g_printerr (''Error creating printer: '' @ message @ newline) c2)
           | (Inr printer_path, c2) \<Rightarrow> (0, c2)))"

definition cli_manager_path :: string where
  "cli_manager_path = ''/org/freedesktop/printerd/Manager''"

definition create_printer :: "'e bus \<Rightarrow> string \<Rightarrow> string \<Rightarrow> 'e cli \<Rightarrow> int \<times> 'e cli" where
  "create_printer B name uri c =
     (if strchr uri CHR ''/'' = None then create_printer_from_device B name uri c
      else
        (case proxy_for B cli_manager_path c of
           (Inl message, c1) \<Rightarrow> (1, g_printerr (''Error getting manager: '' @ message @ newline) c1)
         | (Inr _, c1) \<Rightarrow>
             (case call Create_printer cli_manager_path (bus_create_printer B name [uri]) c1 of
                (Inl message, c2) \<Rightarrow> (1, g_printerr (''Error creating printer: '' @ message @ newline) c2)
              | (Inr printer_path, c2) \<Rightarrow> (0, c2))))"

definition delete_printer :: "'e bus \<Rightarrow> string \<Rightarrow> 'e cli \<Rightarrow> int \<times> 'e cli" where
  "delete_printer B name c =
     (case proxy_for B cli_manager_path c of
        (Inl message, c1) \<Rightarrow> (1, g_printerr (''Error getting manager: '' @ message @ newline) c1)
      | (Inr _, c1) \<Rightarrow>
          (let printer_path = ''/org/freedesktop/printerd/printer/'' @ name in
           case call Delete_printer printer_path (bus_delete_printer B printer_path) c1 of
             (Inl message, c2) \<Rightarrow> (1, g_printerr (''Error deleting printer: '' @ message @ newline) c2)
           | (Inr _, c2) \<Rightarrow> (0, c2)))"

subsection \<open>main\<close>

text \<open>
  What g_option_context_parse made of the arguments: a message, or whether the session bus was
  asked for, with the arguments that are left (argv). help is the help text, which does not
  name delete-printer. The log settings of the verbose option have no effect here.
\<close>

definition main_cli ::
  "glib \<Rightarrow> 'e bus \<Rightarrow> string \<Rightarrow> string + (bool \<times> string list) \<Rightarrow> 'e cli \<Rightarrow> (int \<times> 'e cli) option" where
  "main_cli G B help parsed c =
     (case parsed of
        Inl message \<Rightarrow> Some (1, g_printerr (''Error parsing options: '' @ message @ newline) c)
      | Inr (session, argv) \<Rightarrow>
          (let c0 = (if session then c\<lparr>cli_bus := Bus_session\<rparr> else c);
               argc = length argv;
               usage = (\<lambda>c. Some (1, g_print help c)) in
           if argc < 2 then usage c0
           else
             (case proxy_for B cli_manager_path c0 of
                (Inl message, c1) \<Rightarrow>
                  Some (1, g_printerr (''Error getting printerd manager proxy: '' @ message @ newline) c1)
              | (Inr _, c1) \<Rightarrow>
                  if argv ! 1 = ''get-printers'' then
                    (if argc \<noteq> 2 then usage c1 else Some (get_printers G B c1))
                  else if argv ! 1 = ''get-devices'' then
                    (if argc \<noteq> 2 then usage c1 else Some (get_devices G B c1))
                  else if argv ! 1 = ''print-files'' then
                    (if argc < 4 then usage c1 else print_files B (argv ! 2) (drop 3 argv) c1)
                  else if argv ! 1 = ''create-printer'' then
                    (if argc \<noteq> 4 then usage c1 else Some (create_printer B (argv ! 2) (argv ! 3) c1))
                  else if argv ! 1 = ''delete-printer'' then
                    (if argc \<noteq> 3 then usage c1 else Some (delete_printer B (argv ! 2) c1))
                  else if argv ! 1 = ''cancel-job'' then
                    (if argc \<noteq> 3 then usage c1 else Some (cancel_job B (argv ! 2) c1))
                  else if argv ! 1 = ''add-documents'' then
                    (if argc < 4 then usage c1 else add_documents B (argv ! 2) (drop 3 argv) c1)
                  else
                    Some (1, g_printerr (''Unrecognized command '' @ [CHR 0x27] @ argv ! 1 @ [CHR 0x27] @ newline) c1))))"

subsection \<open>The calls a command makes\<close>

lemma cli_frame [simp]:
  "cli_calls (g_print s c) = cli_calls c" "cli_calls (g_printerr s c) = cli_calls c" "cli_calls (close_cli fd c) = cli_calls c"
  "cli_env (g_print s c) = cli_env c" "cli_env (g_printerr s c) = cli_env c" "cli_env (close_cli fd c) = cli_env c"
  "cli_bus (g_print s c) = cli_bus c" "cli_bus (g_printerr s c) = cli_bus c" "cli_bus (close_cli fd c) = cli_bus c"
  "cli_closed (g_print s c) = cli_closed c" "cli_closed (g_printerr s c) = cli_closed c"
  "cli_closed (close_cli fd c) = cli_closed c @ [fd]"
  by (simp_all add: g_print_def g_printerr_def close_cli_def)

lemma ask_calls: "ask f c = (r, c') \<Longrightarrow> cli_calls c' = cli_calls c"
  by (auto simp: ask_def split: prod.splits)

lemma call_calls: "call m path f c = (r, c') \<Longrightarrow> cli_calls c' = cli_calls c @ [(m, path, is_ok r)]"
  by (auto simp: call_def dest: ask_calls split: prod.splits)

lemma is_ok_simps [simp]: "is_ok (Inl m) = False" "is_ok (Inr x) = True"
  by (simp_all add: is_ok_def)

definition adds :: "string \<Rightarrow> nat \<Rightarrow> bool \<Rightarrow> (method_call \<times> string \<times> bool) list" where
  "adds path n failed = replicate n (Add_document, path, True) @ (if failed then [(Add_document, path, False)] else [])"

lemma adds_Suc: "(Add_document, path, True) # adds path n failed = adds path (Suc n) failed"
  by (simp add: adds_def)

lemma set_adds: "(Add_document, path, True) \<in> set (adds path n failed) \<longleftrightarrow> 0 < n" "(Start_job, p, b) \<notin> set (adds path n failed)"
  "(Cancel_job, p, b) \<notin> set (adds path n failed)"
  by (auto simp: adds_def)

text \<open>A failed call is the last one the loop makes.\<close>

lemma add_each_calls:
  assumes "add_each B path files error docs_added c = Some (added, c')"
  shows "\<exists>n failed. cli_calls c' = cli_calls c @ adds path n failed \<and> (added \<longleftrightarrow> docs_added \<or> 0 < n)
    \<and> (error = Error_dangling \<longrightarrow> n = 0 \<and> \<not> failed)"
  using assms
proof (induction B path files error docs_added c rule: add_each.induct)
  case (1 B path error docs_added c)
  then show ?case by (auto simp: adds_def)
next
  case (2 B path doc docs error docs_added c)
  obtain o1 c1 where o1: "ask (bus_open B doc) c = (o1, c1)" by fastforce
  show ?case
  proof (cases o1)
    case (Inl m)
    with 2 o1 ask_calls [OF o1] show ?thesis by simp
  next
    case (Inr fd)
    obtain a c2 where a: "ask (bus_fd_list_append B fd) c1 = (a, c2)" by fastforce
    show ?thesis
    proof (cases a)
      case False
      with 2 o1 Inr a ask_calls [OF o1] ask_calls [OF a] show ?thesis by simp
    next
      case True
      obtain r c3 where r: "call Add_document path (bus_add_document B path fd) c2 = (r, c3)" by fastforce
      have e: "error \<noteq> Error_dangling" using 2(5) o1 Inr a True r by auto
      have k: "cli_calls c3 = cli_calls c @ [(Add_document, path, is_ok r)]"
        using ask_calls [OF o1] ask_calls [OF a] call_calls [OF r] by simp
      show ?thesis
      proof (cases r)
        case (Inl m)
        with 2 o1 \<open>o1 = Inr fd\<close> a True r e k
        have "\<exists>n failed. cli_calls c' = cli_calls c3 @ adds path n failed \<and> (added \<longleftrightarrow> docs_added \<or> 0 < n) \<and> n = 0 \<and> \<not> failed"
          by simp
        then have "cli_calls c' = cli_calls c @ adds path 0 True \<and> (added \<longleftrightarrow> docs_added)"
          using k Inl by (auto simp: adds_def)
        with e show ?thesis by blast
      next
        case (Inr u)
        with 2 o1 \<open>o1 = Inr fd\<close> a True r e k obtain n failed where
          "cli_calls c' = cli_calls c3 @ adds path n failed" added by fastforce
        then have "cli_calls c' = cli_calls c @ adds path (Suc n) failed" using k Inr by (simp add: adds_Suc [symmetric])
        with e \<open>added\<close> show ?thesis by blast
      qed
    qed
  qed
qed

lemma cancel_job_calls:
  assumes "cancel_job B job_path c = (ret, c')"
  shows "\<exists>cs. cli_calls c' = cli_calls c @ cs \<and> (cs = [] \<or> (\<exists>path ok. cs = [(Cancel_job, path, ok)]))"
  using assms
  by (auto simp: cancel_job_def proxy_for_def Let_def dest!: ask_calls call_calls split: prod.splits sum.splits)

lemma add_documents_calls:
  assumes "add_documents B job_id documents c = Some (ret, c')"
  shows "\<exists>n failed. cli_calls c' = cli_calls c @ adds (''/org/freedesktop/printerd/job/'' @ job_id) n failed
    \<and> ret = (if 0 < n then 0 else 1)"
proof -
  let ?path = "''/org/freedesktop/printerd/job/'' @ job_id"
  obtain r c1 where r: "proxy_for B ?path c = (r, c1)" by fastforce
  have k: "cli_calls c1 = cli_calls c" using r by (simp add: proxy_for_def ask_calls)
  show ?thesis
  proof (cases r)
    case (Inl m)
    with assms r k have "cli_calls c' = cli_calls c @ adds ?path 0 False \<and> ret = 1"
      by (auto simp: add_documents_def Let_def adds_def)
    then show ?thesis by (intro exI [of _ "0::nat"] exI [of _ False]) simp
  next
    case (Inr u)
    with assms r obtain added where a: "add_each B ?path documents Error_null False c1 = Some (added, c')"
      and ret: "ret = (if added then 0 else 1)"
      by (auto simp: add_documents_def Let_def)
    from add_each_calls [OF a] obtain n failed where
      "cli_calls c' = cli_calls c1 @ adds ?path n failed" "added \<longleftrightarrow> 0 < n" by auto
    with k ret show ?thesis by auto
  qed
qed

lemma finish_job_calls:
  assumes "finish_job B job_path failed c = (ret, c')"
  shows "\<exists>rest. cli_calls c' = cli_calls c @ rest
    \<and> (rest = [] \<or> failed = 0 \<and> (\<exists>ok. rest = [(Start_job, job_path, ok)])
        \<or> failed \<noteq> 0 \<and> (\<exists>path ok. rest = [(Cancel_job, path, ok)]))
    \<and> ret = (if (Start_job, job_path, True) \<in> set rest then 0 else 1)"
proof (cases "failed = 0")
  case False
  obtain cret where "cancel_job B job_path c = (cret, snd (cancel_job B job_path c))" by (metis prod.collapse)
  from cancel_job_calls [OF this] obtain cs where
    "cli_calls (snd (cancel_job B job_path c)) = cli_calls c @ cs" "cs = [] \<or> (\<exists>path ok. cs = [(Cancel_job, path, ok)])" by blast
  then show ?thesis using assms False by (intro exI [of _ cs]) (auto simp: finish_job_def)
next
  case True
  obtain r1 c1 where r1: "proxy_for B job_path c = (r1, c1)" by fastforce
  have k1: "cli_calls c1 = cli_calls c" using r1 by (simp add: proxy_for_def ask_calls)
  obtain r2 c2 where r2: "call Start_job job_path (bus_start B job_path) c1 = (r2, c2)" by fastforce
  note k2 = call_calls [OF r2]
  show ?thesis
  proof (cases r1)
    case (Inl m)
    with assms True r1 k1 show ?thesis by (intro exI [of _ "[]"]) (auto simp: finish_job_def)
  next
    case (Inr u)
    with assms True r1 r2 k1 k2 show ?thesis
      by (intro exI [of _ "[(Start_job, job_path, is_ok r2)]"]) (cases r2; auto simp: finish_job_def)
  qed
qed


text \<open>A bus on which every call succeeds.\<close>

definition echo_bus :: "unit bus" where
  "echo_bus =
     \<lparr>bus_proxy = (\<lambda>b p e. (Inr (), e)), bus_get_printers = (\<lambda>e. (Inr [], e)), bus_get_devices = (\<lambda>e. (Inr [], e)),
      bus_create_printer = (\<lambda>n us e. (Inr ''/p'', e)), bus_device_create_printer = (\<lambda>p n e. (Inr ''/p'', e)),
      bus_delete_printer = (\<lambda>p e. (Inr (), e)), bus_create_job = (\<lambda>p n e. (Inr ''/job/1'', e)),
      bus_add_document = (\<lambda>p fd e. (Inr (), e)), bus_start = (\<lambda>p e. (Inr (), e)), bus_cancel = (\<lambda>p e. (Inr (), e)),
      bus_open = (\<lambda>f e. (Inr 3, e)), bus_fd_list_append = (\<lambda>fd e. (True, e))\<rparr>"

definition idle_cli :: "unit cli" where
  "idle_cli = \<lparr>cli_env = (), cli_bus = Bus_system, cli_out = [], cli_err = [], cli_closed = [], cli_calls = []\<rparr>"

lemma echo_print: "print_files echo_bus ''p'' [''f''] idle_cli = Some (0,
    idle_cli\<lparr>cli_out := [''Job path is /job/1'' @ newline], cli_closed := [3], cli_calls :=
      [(Create_job, ''/org/freedesktop/printerd/printer/p'', True), (Add_document, ''/org/freedesktop/printerd/job/1'', True),
       (Start_job, ''/job/1'', True)]\<rparr>)"
  by (simp add: print_files_def add_documents_def finish_job_def proxy_for_def call_def ask_def echo_bus_def idle_cli_def
      doc_strrchr_def close_cli_def g_print_def newline_def)


text \<open>How many arguments each command takes, counting the program and the command.\<close>

definition well_used :: "string list \<Rightarrow> bool" where
  "well_used argv \<longleftrightarrow> 2 \<le> length argv \<and>
     (argv ! 1 \<in> {''get-printers'', ''get-devices''} \<and> length argv = 2
      \<or> argv ! 1 \<in> {''print-files'', ''add-documents''} \<and> 4 \<le> length argv
      \<or> argv ! 1 = ''create-printer'' \<and> length argv = 4
      \<or> argv ! 1 \<in> {''delete-printer'', ''cancel-job''} \<and> length argv = 3)"

text \<open>A command line that cannot be parsed, or that names no command or gives it the wrong number
  of arguments, makes no method call and exits with 1.\<close>

theorem main_rejects_bad_usage:
  assumes "\<And>session argv. parsed = Inr (session, argv) \<Longrightarrow> \<not> well_used argv"
  shows "\<exists>c'. main_cli G B help parsed c = Some (1, c') \<and> cli_calls c' = cli_calls c"
proof (cases parsed)
  case (Inl m)
  then show ?thesis by (simp add: main_cli_def)
next
  case (Inr r)
  obtain session argv where r: "r = (session, argv)" by fastforce
  with assms Inr have w: "\<not> well_used argv" by simp
  let ?c0 = "if session then c\<lparr>cli_bus := Bus_session\<rparr> else c"
  obtain x c1 where x: "proxy_for B cli_manager_path ?c0 = (x, c1)" by fastforce
  then have k: "cli_calls c1 = cli_calls c" by (auto simp: proxy_for_def dest!: ask_calls)
  show ?thesis
  proof (cases "length argv < 2")
    case True
    then show ?thesis by (simp add: main_cli_def Inr r Let_def)
  next
    case False
    show ?thesis
    proof (cases x)
      case (Inl m)
      with False x k show ?thesis by (simp add: main_cli_def Inr r Let_def)
    next
      case xr: (Inr u)
      let ?m = "main_cli G B help parsed c"
      have "?m = Some (1, g_print help c1) \<or> (\<exists>m. ?m = Some (1, g_printerr m c1))"
      proof (cases "argv ! 1 \<in> {''get-printers'', ''get-devices'', ''print-files'', ''create-printer'', ''delete-printer'',
          ''cancel-job'', ''add-documents''}")
        case True
        then have "?m = Some (1, g_print help c1)"
          using False x w by (elim insertE emptyE) (simp_all add: main_cli_def Inr r xr Let_def well_used_def)
        then show ?thesis ..
      next
        case other: False
        then have "\<exists>m. ?m = Some (1, g_printerr m c1)"
          using False x by (simp add: main_cli_def Inr r xr Let_def) blast
        then show ?thesis ..
      qed
      with k show ?thesis by auto
    qed
  qed
qed

theorem main_rejects_bad_usage_witness:
  "\<exists>c'. main_cli glib_doc echo_bus [] (Inr (False, [''pd-cli'', ''print-files'', ''p''])) idle_cli = Some (1, c') \<and> cli_calls c' = []"
  using main_rejects_bad_usage [of "Inr (False, [''pd-cli'', ''print-files'', ''p''])" glib_doc echo_bus "[]" idle_cli]
  by (simp add: well_used_def idle_cli_def)

end
