(* ===== verification/Pd_Print.thy ===== *)
theory Pd_Print
  imports Pd_Bus Pd_Cli
begin

text \<open>
  The command line client of Pd_Cli run against the daemon of the other theories: the bus is
  instantiated with the handlers of the daemon. The proxies of GDBus can always be made; a call
  on a path without a suitable object, and one during which the daemon dies, fail.
\<close>

subsection \<open>The daemon as a bus\<close>

text \<open>
  What surrounds one run of the client: the daemon, the caller as the daemon sees it, PolicyKit,
  the spool, the files that can be opened, the descriptor that arrives in the daemon for one
  that was sent, and the order in which hash tables list their entries.
\<close>

record desk =
  dk_world :: world
  dk_user :: unix_user_env
  dk_daemon :: daemon_env
  dk_spool :: spool_env
  dk_open :: "string \<Rightarrow> string + int"
  dk_received :: "int \<Rightarrow> int"
  dk_order :: "string list \<Rightarrow> string list"

definition no_reply :: string where
  "no_reply = ''Message recipient disconnected from message bus without replying''"

definition no_object :: string where
  "no_object = ''No such object path''"

text \<open>The reply as the caller gets it: a value, or the message of an error.\<close>

definition reply_of :: "(dbus_value \<Rightarrow> 'a option) \<Rightarrow> reply list \<Rightarrow> string + 'a" where
  "reply_of conv rs =
     (case rs of
        [] \<Rightarrow> Inl no_reply
      | r # _ \<Rightarrow> (case r of
          Reply_value v \<Rightarrow> (case conv v of None \<Rightarrow> Inl no_reply | Some x \<Rightarrow> Inr x)
        | Reply_error c m \<Rightarrow> Inl m
        | Reply_gerror \<Rightarrow> Inl ''GError''))"

definition run :: "(dbus_value \<Rightarrow> 'a option) \<Rightarrow> (desk \<Rightarrow> (world \<times> reply list) option) \<Rightarrow> desk \<Rightarrow> (string + 'a) \<times> desk" where
  "run conv f e =
     (case f e of
        None \<Rightarrow> (Inl no_reply, e)
      | Some (w, rs) \<Rightarrow> (reply_of conv rs, e\<lparr>dk_world := w\<rparr>))"

definition no_value :: "dbus_value \<Rightarrow> unit option" where
  "no_value v = Some ()"

definition path_value :: "dbus_value \<Rightarrow> string option" where
  "path_value v = (case v of Path_value p \<Rightarrow> Some p | Job_value p _ \<Rightarrow> Some p | _ \<Rightarrow> None)"

definition paths_value :: "dbus_value \<Rightarrow> string list option" where
  "paths_value v = (case v of Paths_value ps \<Rightarrow> Some ps | _ \<Rightarrow> None)"

text \<open>A call on the object of a job: the handler gets the job and yields its new state.\<close>

definition on_job :: "string \<Rightarrow> (desk \<Rightarrow> job \<Rightarrow> (job \<times> reply list) option) \<Rightarrow> desk \<Rightarrow> (string + unit) \<times> desk" where
  "on_job path f e =
     (case w_exported (dk_world e) path of
        Some (Obj_job j) \<Rightarrow>
          (case w_jobs (dk_world e) j of
             None \<Rightarrow> (Inl no_object, e)
           | Some job \<Rightarrow>
               run no_value (\<lambda>e. map_option (\<lambda>(job', rs). (upd_job j (\<lambda>_. job') (dk_world e), rs)) (f e job)) e)
      | _ \<Rightarrow> (Inl no_object, e))"

definition daemon_bus :: "glib \<Rightarrow> ppd_open \<Rightarrow> desk bus" where
  "daemon_bus G ppd =
     \<lparr>bus_proxy = (\<lambda>bus path e. (Inr (), e)),
      bus_get_printers = run paths_value (\<lambda>e. Some (dk_world e, pd_manager_impl_get_printers (dk_order e) (dk_world e))),
      bus_get_devices = run paths_value (\<lambda>e. Some (dk_world e, pd_manager_impl_get_devices G id (dk_world e))),
      bus_create_printer = (\<lambda>name uris. run path_value (\<lambda>e.
        pd_manager_impl_create_printer G ppd (dk_daemon e) [] name [] [] uris [] (dk_world e))),
      bus_device_create_printer = (\<lambda>path name e.
        (case w_exported (dk_world e) path of
           Some (Obj_device a) \<Rightarrow>
             (case w_devices (dk_world e) a of
                None \<Rightarrow> (Inl no_object, e)
              | Some dev \<Rightarrow> run path_value (\<lambda>e.
                  pd_device_impl_create_printer G ppd (dk_daemon e) dev name [] [] [] (dk_world e)) e)
         | _ \<Rightarrow> (Inl no_object, e))),
      bus_delete_printer = (\<lambda>path. run no_value (\<lambda>e. pd_manager_impl_delete_printer G path (dk_world e))),
      bus_create_job = (\<lambda>path name e.
        (case printer_at (dk_world e) path of
           None \<Rightarrow> (Inl no_object, e)
         | Some p \<Rightarrow> run path_value (\<lambda>e.
             pd_printer_impl_create_job G (dk_daemon e) (dk_user e) p name [] (dk_world e)) e)),
      bus_add_document = (\<lambda>path fd. on_job path (\<lambda>e job.
        Some (pd_job_impl_add_document (dk_daemon e) (dk_user e)
          (Some \<lparr>fl_length = 1, fl_get = (\<lambda>h. (dk_received e fd, False))\<rparr>) [] 0 job))),
      bus_start = (\<lambda>path. on_job path (\<lambda>e job.
        pd_job_impl_start (dk_daemon e) (dk_user e) (dk_spool e)
          (Option.bind (pd_engine_get_printer_by_path G (jb_printer job) (dk_world e)) (w_printers (dk_world e))) job)),
      bus_cancel = (\<lambda>path. on_job path (\<lambda>e job. Some (pd_job_impl_cancel (dk_daemon e) (dk_user e) job))),
      bus_open = (\<lambda>f e. (dk_open e f, e)),
      bus_fd_list_append = (\<lambda>fd e. (True, e))\<rparr>"

subsection \<open>Single calls\<close>

definition job_at :: "desk \<Rightarrow> string \<Rightarrow> nat \<Rightarrow> job \<Rightarrow> bool" where
  "job_at e path j job \<longleftrightarrow> w_exported (dk_world e) path = Some (Obj_job j) \<and> w_jobs (dk_world e) j = Some job"

abbreviation set_job :: "nat \<Rightarrow> job \<Rightarrow> desk \<Rightarrow> desk" where
  "set_job j job e \<equiv> e\<lparr>dk_world := upd_job j (\<lambda>_. job) (dk_world e)\<rparr>"

definition may_add :: "desk \<Rightarrow> job \<Rightarrow> bool" where
  "may_add e job \<longleftrightarrow> allowed (dk_daemon e) (dk_user e) ''org.freedesktop.printerd.job-add'' job"

lemma set_job_same [simp]: "job_at e path j job \<Longrightarrow> set_job j job e = e"
proof -
  assume "job_at e path j job"
  then have "(w_jobs (dk_world e))(j := map_option (\<lambda>_. job) (w_jobs (dk_world e) j)) = w_jobs (dk_world e)"
    by (auto simp: job_at_def)
  then show ?thesis by (simp add: upd_job_def)
qed

lemma job_at_set: "job_at e path j job \<Longrightarrow> job_at (set_job j job' e) path j job'"
  by (simp add: job_at_def)

lemma reply_simps [simp]:
  "reply_of conv [Reply_error code m] = Inl m" "reply_of no_value [Reply_value v] = Inr ()"
  "reply_of path_value [Reply_value (Job_value p us)] = Inr p" "reply_of path_value [Reply_value (Path_value p)] = Inr p"
  "reply_of paths_value [Reply_value (Paths_value ps)] = Inr ps"
  by (simp_all add: reply_of_def no_value_def path_value_def paths_value_def)

lemma on_job_run: "job_at e path j job \<Longrightarrow> f e job = Some (job', rs) \<Longrightarrow>
    on_job path f e = (reply_of no_value rs, set_job j job' e)"
  by (simp add: on_job_def job_at_def run_def)

text \<open>The first document is taken, a second one refused.\<close>

lemma daemon_add_document:
  assumes "job_at e path j job" and "may_add e job" and "document_filename job = None"
    and "0 \<le> dk_received e fd"
  shows "bus_add_document (daemon_bus G ppd) path fd e =
    (if document_fd job = -1 then (Inr (), set_job j (job\<lparr>document_fd := dk_received e fd\<rparr>) e)
     else (Inl ''No more documents allowed'', e))"
proof (cases "document_fd job = -1")
  case True
  with assms(2-4) have "pd_job_impl_add_document (dk_daemon e) (dk_user e)
      (Some \<lparr>fl_length = 1, fl_get = (\<lambda>h. (dk_received e fd, False))\<rparr>) [] 0 job
    = (job\<lparr>document_fd := dk_received e fd\<rparr>, [Reply_value Unit_value])"
    by (simp add: may_add_def add_document_allowed note_format_def)
  with True show ?thesis by (simp add: daemon_bus_def on_job_run [OF assms(1)])
next
  case False
  with assms(2-4) have "pd_job_impl_add_document (dk_daemon e) (dk_user e)
      (Some \<lparr>fl_length = 1, fl_get = (\<lambda>h. (dk_received e fd, False))\<rparr>) [] 0 job
    = (job, [Reply_error PD_ERROR_FAILED ''No more documents allowed''])"
    by (simp add: may_add_def add_document_allowed)
  with False show ?thesis by (simp add: daemon_bus_def on_job_run [OF assms(1)] set_job_same [OF assms(1)])
qed

text \<open>Every file can be opened, and the descriptors that arrive are descriptors.\<close>

definition files_ok :: "desk \<Rightarrow> bool" where
  "files_ok e \<longleftrightarrow> (\<forall>f. \<exists>fd. dk_open e f = Inr fd) \<and> (\<forall>fd. 0 \<le> dk_received e fd)"

lemma daemon_bus_simps [simp]:
  "bus_proxy (daemon_bus G ppd) b path e = (Inr (), e)" "bus_open (daemon_bus G ppd) f e = (dk_open e f, e)"
  "bus_fd_list_append (daemon_bus G ppd) fd e = (True, e)"
  by (simp_all add: daemon_bus_def)

lemma proxy_daemon [simp]: "proxy_for (daemon_bus G ppd) path c = (Inr (), c)"
  by (simp add: proxy_for_def ask_def)

text \<open>The loop over the documents: with one document it succeeds, with two it complains, with more it reads a freed error.\<close>

lemma add_more_documents:
  assumes "job_at (cli_env c) path j job" and "may_add (cli_env c) job" and "document_filename job = None"
    and "document_fd job \<noteq> -1" and "files_ok (cli_env c)"
  shows "case docs of
      [] \<Rightarrow> add_each (daemon_bus G ppd) path docs Error_null True c = Some (True, c)
    | [f] \<Rightarrow> \<exists>c'. add_each (daemon_bus G ppd) path docs Error_null True c = Some (True, c')
          \<and> cli_env c' = cli_env c \<and> cli_out c' = cli_out c
          \<and> cli_err c' = cli_err c @ [''Error adding document: '' @ ''No more documents allowed'' @ newline]
    | _ \<Rightarrow> add_each (daemon_bus G ppd) path docs Error_null True c = None"
proof -
  let ?B = "daemon_bus G ppd"
  have add: "bus_add_document ?B path fd (cli_env c) = (Inl ''No more documents allowed'', cli_env c)" for fd
    using daemon_add_document [OF assms(1-3), of fd G ppd] assms(4,5) by (simp add: files_ok_def)
  have opened: "\<exists>fd. dk_open (cli_env c) f = Inr fd" for f using assms(5) by (simp add: files_ok_def)
  show ?thesis
  proof (cases docs)
    case (Cons f fs)
    obtain fd where fd: "dk_open (cli_env c) f = Inr fd" using opened by blast
    show ?thesis
    proof (cases fs)
      case Nil
      with Cons fd show ?thesis by (simp add: ask_def call_def add g_printerr_def close_cli_def)
    next
      case (Cons g gs)
      obtain fd' where "dk_open (cli_env c) g = Inr fd'" using opened by blast
      with \<open>docs = f # fs\<close> Cons fd show ?thesis by (simp add: ask_def call_def add)
    qed
  qed simp
qed

text \<open>What must hold around a run: an idle printer that accepts jobs, an authorized caller, a working spool.\<close>

definition can_print :: "glib \<Rightarrow> desk \<Rightarrow> string \<Rightarrow> nat \<Rightarrow> string \<Rightarrow> bool" where
  "can_print G e i p spool_name \<longleftrightarrow>
     reg_inv (dk_world e) \<and> w_exported (dk_world e) (printer_path_of i) = Some (Obj_printer p)
     \<and> (is_session (dk_daemon e) \<or> authority (dk_daemon e) ''org.freedesktop.printerd.job-add'' True = Polkit_result True)
     \<and> files_ok e
     \<and> (\<exists>printer spoolfd. w_printers (dk_world e) p = Some printer
          \<and> (\<forall>k. lookup_string (prn_supported printer) k = None) \<and> distinct (map fst (prn_defaults printer))
          \<and> sp_open_tmp (dk_spool e) = Some (spoolfd, spool_name)
          \<and> (let format = lookup_string (prn_defaults printer) ''document-format'' in
              spooled (dk_spool e) format \<and> final_type (dk_spool e) spool_name format = Some ''application/pdf''))"

definition same_desk :: "desk \<Rightarrow> desk \<Rightarrow> bool" where
  "same_desk e e' \<longleftrightarrow> dk_user e' = dk_user e \<and> dk_daemon e' = dk_daemon e \<and> dk_spool e' = dk_spool e
     \<and> dk_open e' = dk_open e \<and> dk_received e' = dk_received e \<and> dk_order e' = dk_order e"

definition queued :: "desk \<Rightarrow> nat \<Rightarrow> job \<Rightarrow> desk \<Rightarrow> bool" where
  "queued e p job e' \<longleftrightarrow>
     (let w = dk_world e; w' = dk_world e' in
      reg_inv w' \<and> w_jobs w' = (w_jobs w)(w_next w \<mapsto> job) \<and> queue w' = (queue w)(p := queue w p @ [w_next w])
      \<and> same_desk e e' \<and> w_exported w' (job_path_of (w_next_job_id w)) = Some (Obj_job (w_next w)))"

lemma queued_set_job:
  assumes "queued e p job e'" and "jb_id job' = jb_id job" and "jb_printer job' = jb_printer job"
  shows "queued e p job' (set_job (w_next (dk_world e)) job' e')"
proof -
  have j: "w_jobs (dk_world e') (w_next (dk_world e)) = Some job" and inv: "reg_inv (dk_world e')"
    using assms(1) by (simp_all add: queued_def Let_def)
  have "reg_inv (upd_job (w_next (dk_world e)) (\<lambda>_. job') (dk_world e'))"
    using inv j assms(2,3) by (intro reg_inv_upd_job) simp_all
  then show ?thesis
    using assms(1) j by (auto simp: queued_def same_desk_def Let_def fun_eq_iff)
qed

lemma queued_job_at: "queued e p job e' \<Longrightarrow> job_at e' (job_path_of (w_next_job_id (dk_world e))) (w_next (dk_world e)) job"
  by (simp add: queued_def job_at_def Let_def)

lemma daemon_create_job:
  assumes "glib_contract G" and "can_print G e i p spool_name"
  obtains e1 job where "bus_create_job (daemon_bus G ppd) (printer_path_of i) name e
      = (Inr (job_path_of (w_next_job_id (dk_world e))), e1)"
    and "queued e p job e1" and "jb_id job = w_next_job_id (dk_world e)" and "job_ok job" and "document_fd job = -1" and "document_filename job = None"
    and "document_mimetype job = None" and "may_add e1 job" and "jb_state job = PD_JOB_STATE_PENDING_HELD"
    and "requested_type (Option.bind (pd_engine_get_printer_by_path G (jb_printer job) (dk_world e1)) (w_printers (dk_world e1))) job
      = Option.bind (w_printers (dk_world e) p) (\<lambda>printer. lookup_string (prn_defaults printer) ''document-format'')"
proof -
  let ?w = "dk_world e"
  from assms(2) obtain printer where pr: "w_printers ?w p = Some printer" "\<forall>k. lookup_string (prn_supported printer) k = None"
      "distinct (map fst (prn_defaults printer))"
    and inv: "reg_inv ?w" and ex: "w_exported ?w (printer_path_of i) = Some (Obj_printer p)"
    and auth: "is_session (dk_daemon e) \<or> authority (dk_daemon e) ''org.freedesktop.printerd.job-add'' True = Polkit_result True"
    by (auto simp: can_print_def)
  obtain i' prn where i': "printer_path_of i = printer_path_of i'" "map_of (w_id_to_printer ?w) i' = Some p"
      "w_printers ?w p = Some prn" "prn_id prn = Some i'"
    by (rule registered_printer [OF inv ex])
  then have ids: "i' = i" "prn = printer" "prn_id printer = Some i" using pr(1) by simp_all
  have ns: "CHR ''/'' \<notin> set i"
  proof -
    from inv have "printers_ok ?w" by (simp add: reg_inv_def)
    moreover have "printer_id ?w p = Some i" using pr(1) ids(3) by (simp add: printer_id_def)
    ultimately have "set i \<subseteq> set path_chars" using pr(1) unfolding printers_ok_def by (metis option.distinct(1) option.inject)
    then show ?thesis using path_chars_no_slash by blast
  qed
  let ?job = "new_job G (dk_user e) printer name [] (w_next_job_id ?w)"
  obtain w1 where w1: "pd_printer_impl_create_job G (dk_daemon e) (dk_user e) p name [] ?w
      = Some (w1, [Reply_value (Job_value (job_path_of (w_next_job_id ?w)) [])])"
    and v: "w_jobs w1 = (w_jobs ?w)(w_next ?w \<mapsto> ?job)" "queue w1 = (queue ?w)(p := queue ?w p @ [w_next ?w])"
      "w_exported w1 = (w_exported ?w)(job_path_of (w_next_job_id ?w) \<mapsto> Obj_job (w_next ?w))" "reg_inv w1"
      "w_printers w1 = (w_printers ?w)(p \<mapsto> printer\<lparr>prn_jobs := prn_jobs printer @ [w_next ?w]\<rparr>)"
      "w_id_to_printer w1 = w_id_to_printer ?w" "originating_user ?job = Some (pd_get_unix_user (dk_user e))"
    using create_job_allowed [OF assms(1) inv pr, of "[]" "dk_daemon e" "dk_user e" name] auth by auto
  have fields: "document_fd ?job = -1" "document_filename ?job = None" "document_mimetype ?job = None"
    by (simp_all add: new_job_def pd_job_impl_set_attribute_def pd_job_impl_init_def)
  have "pd_engine_get_printer_by_path G (printer_path_of i) w1 = Some p"
    unfolding get_printer_by_path_of [OF assms(1) ns] v(6) using i'(2) ids(1) by simp
  then have ty: "requested_type (Option.bind (pd_engine_get_printer_by_path G (jb_printer ?job) w1) (w_printers w1)) ?job
      = lookup_string (prn_defaults printer) ''document-format''"
    using v(5) ids(3) by (simp add: requested_type_def fields new_job_fields(2) fmt_s_def)
  show ?thesis
  proof (rule that [of "e\<lparr>dk_world := w1\<rparr>" ?job])
    show "bus_create_job (daemon_bus G ppd) (printer_path_of i) name e
        = (Inr (job_path_of (w_next_job_id ?w)), e\<lparr>dk_world := w1\<rparr>)"
      using ex w1 by (simp add: daemon_bus_def printer_at_def run_def)
    show "queued e p ?job (e\<lparr>dk_world := w1\<rparr>)" using v by (simp add: queued_def same_desk_def Let_def)
    show "may_add (e\<lparr>dk_world := w1\<rparr>) ?job" using v(7) auth by (simp add: may_add_def allowed_def)
  qed (simp_all add: fields new_job_fields(1,3,4) ty pr(1))
qed

lemma daemon_start:
  assumes "job_at e path j job" and "may_add e job" and "job_ok job" and "document_fd job \<noteq> -1"
    and "sp_open_tmp (dk_spool e) = Some (spoolfd, spool_name)"
    and "requested_type (Option.bind (pd_engine_get_printer_by_path G (jb_printer job) (dk_world e)) (w_printers (dk_world e))) job = format"
    and "spooled (dk_spool e) format" and "final_type (dk_spool e) spool_name format = Some ''application/pdf''"
  obtains job' where "bus_start (daemon_bus G ppd) path e = (Inr (), set_job j job' e)"
    and "jb_state job' = PD_JOB_STATE_PENDING" and "document_filename job' = Some spool_name" and "job_ok job'"
    and "jb_id job' = jb_id job" and "jb_printer job' = jb_printer job"
proof -
  let ?printer = "Option.bind (pd_engine_get_printer_by_path G (jb_printer job) (dk_world e)) (w_printers (dk_world e))"
  have al: "allowed (dk_daemon e) (dk_user e) ''org.freedesktop.printerd.job-add'' job" using assms(2) by (simp add: may_add_def)
  have inv: "job_inv job" using assms(3) by (simp add: job_ok_def)
  obtain job2 where st: "pd_job_impl_start (dk_daemon e) (dk_user e) (dk_spool e) ?printer job
        = Some (start_result (dk_spool e) (requested_type ?printer job) spool_name job2)"
      and f: "document_filename job2 = Some spool_name"
    by (rule start_allowed [OF al inv assms(4,5), where printer = ?printer]) blast
  let ?job' = "pd_job_set_state PD_JOB_STATE_PENDING (pd_job_impl_remove_state_reason job2 ''job-incoming'')"
  have r: "pd_job_impl_start (dk_daemon e) (dk_user e) (dk_spool e) ?printer job = Some (?job', [Reply_value Unit_value])"
    using st assms(6-8) by (simp add: start_result_def)
  show ?thesis
  proof (rule that [of ?job'])
    show "bus_start (daemon_bus G ppd) path e = (Inr (), set_job j ?job' e)"
      using on_job_run [OF assms(1), of _ ?job' "[Reply_value Unit_value]"] r by (simp add: daemon_bus_def)
    show "jb_state ?job' = PD_JOB_STATE_PENDING" by (simp add: pd_job_set_state_def)
    show "document_filename ?job' = Some spool_name" using f by simp
  qed (use start_method_effect [OF assms(3) r] in auto)
qed

text \<open>A client that has the first document of a new job taken goes on with the others and starts the job.\<close>

lemma first_document:
  assumes "job_at (cli_env c) path j job" and "may_add (cli_env c) job" and "document_filename job = None"
    and "document_fd job = -1" and "dk_open (cli_env c) f = Inr fd" and "0 \<le> dk_received (cli_env c) fd"
  obtains c1 where "add_each (daemon_bus G ppd) path (f # fs) Error_null False c
      = add_each (daemon_bus G ppd) path fs Error_null True c1"
    and "cli_env c1 = set_job j (job\<lparr>document_fd := dk_received (cli_env c) fd\<rparr>) (cli_env c)"
    and "cli_out c1 = cli_out c" and "cli_err c1 = cli_err c"
proof -
  have "bus_add_document (daemon_bus G ppd) path fd (cli_env c)
      = (Inr (), set_job j (job\<lparr>document_fd := dk_received (cli_env c) fd\<rparr>) (cli_env c))"
    using daemon_add_document [OF assms(1-3,6), of G ppd] assms(4) by simp
  with assms(5) show ?thesis
    by (intro that [of "c\<lparr>cli_env := set_job j (job\<lparr>document_fd := dk_received (cli_env c) fd\<rparr>) (cli_env c),
        cli_calls := cli_calls c @ [(Add_document, path, True)], cli_closed := cli_closed c @ [fd]\<rparr>"])
      (simp_all add: ask_def call_def close_cli_def)
qed

lemma by_path_upd_job [simp]: "pd_engine_get_printer_by_path G path (upd_job j f w) = pd_engine_get_printer_by_path G path w"
  by (simp add: pd_engine_get_printer_by_path_def split: option.split)

lemma with_document:
  assumes "document_filename job = None"
  shows "job_ok job \<Longrightarrow> job_ok (job\<lparr>document_fd := x\<rparr>)" "may_add e (job\<lparr>document_fd := x\<rparr>) = may_add e job"
    "requested_type prn (job\<lparr>document_fd := x\<rparr>) = requested_type prn job"
proof -
  have "never_started (job\<lparr>document_fd := x\<rparr>) = never_started job" by (simp add: never_started_def)
  moreover have "job_inv job \<Longrightarrow> job_inv (job\<lparr>document_fd := x\<rparr>)" using assms by (simp add: job_inv_def)
  ultimately show "job_ok job \<Longrightarrow> job_ok (job\<lparr>document_fd := x\<rparr>)" by (simp add: job_ok_def)
qed (simp_all add: may_add_def allowed_def originating_user_def requested_type_def)

lemma same_desk_may_add: "same_desk e e' \<Longrightarrow> may_add e' job = may_add e job" "same_desk e e' \<Longrightarrow> files_ok e' = files_ok e"
  by (simp_all add: same_desk_def may_add_def files_ok_def)

text \<open>The end of a run, for a new job that has its document.\<close>

lemma finish_print:
  assumes "can_print G e i p spool_name" and "queued e p job (cli_env c)" and "may_add (cli_env c) job" and "job_ok job"
    and "document_fd job \<noteq> -1" and "path = job_path_of (w_next_job_id (dk_world e))"
    and "requested_type (Option.bind (pd_engine_get_printer_by_path G (jb_printer job) (dk_world (cli_env c))) (w_printers (dk_world (cli_env c)))) job
      = Option.bind (w_printers (dk_world e) p) (\<lambda>printer. lookup_string (prn_defaults printer) ''document-format'')"
  shows "\<exists>c' job'. finish_job (daemon_bus G ppd) path 0 c = (0, c') \<and> queued e p job' (cli_env c')
      \<and> jb_state job' = PD_JOB_STATE_PENDING \<and> document_filename job' = Some spool_name \<and> job_ok job' \<and> jb_id job' = jb_id job
      \<and> cli_out c' = cli_out c @ [''Job path is '' @ path @ newline] \<and> cli_err c' = cli_err c"
proof -
  from assms(1) obtain printer spoolfd where pr: "w_printers (dk_world e) p = Some printer"
    and sp: "sp_open_tmp (dk_spool e) = Some (spoolfd, spool_name)"
      "spooled (dk_spool e) (lookup_string (prn_defaults printer) ''document-format'')"
      "final_type (dk_spool e) spool_name (lookup_string (prn_defaults printer) ''document-format'') = Some ''application/pdf''"
    by (auto simp: can_print_def Let_def)
  have same: "dk_spool (cli_env c) = dk_spool e" using assms(2) by (simp add: queued_def same_desk_def Let_def)
  have at: "job_at (cli_env c) path (w_next (dk_world e)) job" unfolding assms(6) by (rule queued_job_at [OF assms(2)])
  have ty: "requested_type (Option.bind (pd_engine_get_printer_by_path G (jb_printer job) (dk_world (cli_env c))) (w_printers (dk_world (cli_env c)))) job
      = lookup_string (prn_defaults printer) ''document-format''" using assms(7) pr by simp
  obtain job' where st: "bus_start (daemon_bus G ppd) path (cli_env c) = (Inr (), set_job (w_next (dk_world e)) job' (cli_env c))"
    and j: "jb_state job' = PD_JOB_STATE_PENDING" "document_filename job' = Some spool_name" "job_ok job'"
      "jb_id job' = jb_id job" "jb_printer job' = jb_printer job"
    by (rule daemon_start [OF at assms(3-5) _ ty]) (use sp same in simp_all)
  let ?c' = "g_print (''Job path is '' @ path @ newline) (c\<lparr>cli_env := set_job (w_next (dk_world e)) job' (cli_env c),
      cli_calls := cli_calls c @ [(Start_job, path, True)]\<rparr>)"
  have "finish_job (daemon_bus G ppd) path 0 c = (0, ?c')" by (simp add: finish_job_def call_def ask_def st)
  moreover have "queued e p job' (cli_env ?c')" using queued_set_job [OF assms(2) j(4,5)] by simp
  ultimately show ?thesis using j by (intro exI [of _ ?c'] exI [of _ job']) (simp add: g_print_def)
qed


definition office_desk :: desk where
  "office_desk =
     \<lparr>dk_world = office, dk_user = lp_user ''lp'', dk_daemon = lp_daemon, dk_spool = lp_spool,
      dk_open = (\<lambda>f. Inr 3), dk_received = (\<lambda>fd. 7), dk_order = rev\<rparr>"

definition shell :: "desk cli" where
  "shell = \<lparr>cli_env = office_desk, cli_bus = Bus_system, cli_out = [], cli_err = [], cli_closed = [], cli_calls = []\<rparr>"

lemma office_can_print: "can_print glib_doc (cli_env shell) ''Laser'' 0 ''/tmp/spool''"
proof -
  have "\<forall>k. lookup_string (prn_supported laser) k = None" by (simp add: init_supported_lookup)
  moreover have "distinct (map fst (prn_defaults laser))" by (simp add: pd_printer_impl_init_def)
  moreover have "lookup_string (prn_defaults laser) ''document-format'' = Some ''application/octet-stream''"
    by (simp add: pd_printer_impl_init_def lookup_string_def)
  ultimately show ?thesis
    by (simp add: can_print_def shell_def office_desk_def files_ok_def Let_def)
qed


text \<open>The command get-printers prints the identifier of every registered printer once, on a line
  of its own, and nothing else.\<close>

theorem get_printers_prints_ids:
  assumes "glib_contract G" and "reg_inv (dk_world (cli_env c))" and "\<And>xs. mset (dk_order (cli_env c) xs) = mset xs"
  shows "\<exists>ids. get_printers G (daemon_bus G ppd) c = (0, c\<lparr>cli_out := cli_out c @ map (\<lambda>i. i @ newline) ids\<rparr>)
    \<and> distinct ids \<and> set ids = {i. \<exists>p. printer_id (dk_world (cli_env c)) p = Some i}"
proof -
  let ?w = "dk_world (cli_env c)"
  let ?ids = "pd_engine_dup_printer_ids (dk_order (cli_env c)) ?w"
  from assms(2) have P: "printers_ok ?w" by (simp add: reg_inv_def)
  note ids = dup_printer_ids [OF P, of "dk_order (cli_env c)", OF assms(3)]
  have clean: "CHR ''/'' \<notin> set i" if "i \<in> set ?ids" for i
  proof -
    from that ids(3) obtain p where p: "printer_id ?w p = Some i" by blast
    then have "w_printers ?w p \<noteq> None" by (cases "w_printers ?w p") (simp_all add: printer_id_def)
    with P p have "set i \<subseteq> set path_chars" unfolding printers_ok_def by (metis option.inject)
    then show ?thesis using path_chars_no_slash by blast
  qed
  have pr: "print_ids G (map printer_path_of ks) c' = c'\<lparr>cli_out := cli_out c' @ map (\<lambda>i. i @ newline) ks\<rparr>"
    if "set ks \<subseteq> set ?ids" for ks c'
    using that
  proof (induction ks arbitrary: c')
    case (Cons i ks)
    have "g_strrstr G (printer_path_of i) ''/'' = Some (CHR ''/'' # i)"
      using strrchr_append [of "CHR ''/''" i "''/org/freedesktop/printerd/printer''"] clean [of i] Cons.prems
      by (simp add: glib_contract.strrstr [OF assms(1)] printer_path_of_def)
    with Cons show ?case by (simp add: print_ids_def g_print_def)
  qed (simp add: print_ids_def)
  have "get_printers G (daemon_bus G ppd) c = (0, print_ids G (map printer_path_of ?ids) c)"
    by (simp add: get_printers_def ask_def daemon_bus_def run_def pd_manager_impl_get_printers_def)
  then have "get_printers G (daemon_bus G ppd) c = (0, c\<lparr>cli_out := cli_out c @ map (\<lambda>i. i @ newline) ?ids\<rparr>)"
    unfolding pr [OF subset_refl] .
  with ids(1,3) show ?thesis by blast
qed

theorem get_printers_prints_ids_witness:
  "\<exists>c'. get_printers glib_doc (daemon_bus glib_doc (\<lambda>_. None)) shell = (0, c')"
  using get_printers_prints_ids [OF glib_doc_contract, of shell "\<lambda>_. None"] by (auto simp: shell_def office_desk_def)

end
