(* ===== verification/Pd_Service.thy ===== *)
theory Pd_Service
  imports Pd_Bus
begin

text \<open>
  The methods of the daemon behind their object paths: which handlers the four interfaces install
  (the iface_init functions of src/pd-manager-impl.c, src/pd-printer-impl.c, src/pd-device-impl.c
  and src/pd-job-impl.c), and the types of their replies in src/data/org.freedesktop.printerd.xml.
\<close>

subsection \<open>Calls\<close>

text \<open>The methods that have a handler, with their arguments as far as a handler looks at them.\<close>

datatype bus_call =
    GetDevices
  | GetPrinters
  | CreatePrinter attrs string string string "string list" attrs
  | DeletePrinter string
  | SetDeviceUris "string list"
  | UpdateDefaults attrs
  | UpdateDriver attrs
  | CreateJob string attrs
  | AddDocument attrs int "fd_list option"
  | Start
  | Cancel
  | DeviceCreatePrinter string string string attrs

text \<open>
  What surrounds a call: libcups, PolicyKit, the caller, the spool, and the order in which the
  hash tables list their entries. GDBus refuses a call that finds no handler.
\<close>

record service =
  sv_ppd :: ppd_open
  sv_daemon :: daemon_env
  sv_user :: unix_user_env
  sv_spool :: spool_env
  sv_printer_order :: "string list \<Rightarrow> string list"
  sv_device_order :: "nat list \<Rightarrow> nat list"

definition no_handler :: "world \<Rightarrow> (world \<times> reply list) option" where
  "no_handler w = Some (w, [Reply_gerror])"

fun pd_manager_iface_init :: "glib \<Rightarrow> service \<Rightarrow> bus_call \<Rightarrow> world \<Rightarrow> (world \<times> reply list) option" where
  "pd_manager_iface_init G s GetPrinters w = Some (w, pd_manager_impl_get_printers (sv_printer_order s) w)"
| "pd_manager_iface_init G s GetDevices w = Some (w, pd_manager_impl_get_devices G (sv_device_order s) w)"
| "pd_manager_iface_init G s (CreatePrinter options name description location device_uris defaults) w =
     pd_manager_impl_create_printer G (sv_ppd s) (sv_daemon s) options name description location device_uris defaults w"
| "pd_manager_iface_init G s (DeletePrinter printer_path) w = pd_manager_impl_delete_printer G printer_path w"
| "pd_manager_iface_init G s _ w = no_handler w"

definition on_printer :: "nat \<Rightarrow> (printer \<Rightarrow> printer \<times> reply list) \<Rightarrow> world \<Rightarrow> (world \<times> reply list) option" where
  "on_printer p f w =
     (case w_printers w p of
        None \<Rightarrow> None
      | Some printer \<Rightarrow> (let (printer', rs) = f printer in Some (upd_printer p (\<lambda>_. printer') w, rs)))"

fun pd_printer_iface_init :: "glib \<Rightarrow> service \<Rightarrow> nat \<Rightarrow> bus_call \<Rightarrow> world \<Rightarrow> (world \<times> reply list) option" where
  "pd_printer_iface_init G s p (SetDeviceUris device_uris) w =
     on_printer p (pd_printer_impl_set_device_uris (sv_daemon s) device_uris) w"
| "pd_printer_iface_init G s p (UpdateDefaults defaults) w =
     on_printer p (pd_printer_impl_update_defaults (sv_daemon s) defaults) w"
| "pd_printer_iface_init G s p (CreateJob name attributes) w =
     pd_printer_impl_create_job G (sv_daemon s) (sv_user s) p name attributes w"
| "pd_printer_iface_init G s p (UpdateDriver options) w =
     on_printer p (pd_printer_impl_handle_update_driver G (sv_ppd s) options) w"
| "pd_printer_iface_init G s p _ w = no_handler w"

definition handle_job :: "nat \<Rightarrow> (job \<Rightarrow> (job \<times> reply list) option) \<Rightarrow> world \<Rightarrow> (world \<times> reply list) option" where
  "handle_job j f w =
     (case w_jobs w j of
        None \<Rightarrow> None
      | Some job \<Rightarrow> map_option (\<lambda>(job', rs). (upd_job j (\<lambda>_. job') w, rs)) (f job))"

fun pd_job_iface_init :: "glib \<Rightarrow> service \<Rightarrow> nat \<Rightarrow> bus_call \<Rightarrow> world \<Rightarrow> (world \<times> reply list) option" where
  "pd_job_iface_init G s j (AddDocument options handle fds) w =
     handle_job j (\<lambda>job. Some (pd_job_impl_add_document (sv_daemon s) (sv_user s) fds options handle job)) w"
| "pd_job_iface_init G s j Start w =
     handle_job j (\<lambda>job. pd_job_impl_start (sv_daemon s) (sv_user s) (sv_spool s)
       (Option.bind (pd_engine_get_printer_by_path G (jb_printer job) w) (w_printers w)) job) w"
| "pd_job_iface_init G s j Cancel w =
     handle_job j (\<lambda>job. Some (pd_job_impl_cancel (sv_daemon s) (sv_user s) job)) w"
| "pd_job_iface_init G s j _ w = no_handler w"

fun pd_device_iface_init :: "glib \<Rightarrow> service \<Rightarrow> nat \<Rightarrow> bus_call \<Rightarrow> world \<Rightarrow> (world \<times> reply list) option" where
  "pd_device_iface_init G s a (DeviceCreatePrinter name description location defaults) w =
     (case w_devices w a of
        None \<Rightarrow> None
      | Some device \<Rightarrow>
          pd_device_impl_create_printer G (sv_ppd s) (sv_daemon s) device name description location defaults w)"
| "pd_device_iface_init G s a _ w = no_handler w"

definition serve :: "glib \<Rightarrow> service \<Rightarrow> string \<Rightarrow> bus_call \<Rightarrow> world \<Rightarrow> (world \<times> reply list) option" where
  "serve G s path call w =
     (case w_exported w path of
        None \<Rightarrow> no_handler w
      | Some Obj_manager \<Rightarrow> pd_manager_iface_init G s call w
      | Some (Obj_printer p) \<Rightarrow> pd_printer_iface_init G s p call w
      | Some (Obj_job j) \<Rightarrow> pd_job_iface_init G s j call w
      | Some (Obj_device a) \<Rightarrow> pd_device_iface_init G s a call w)"

subsection \<open>The types of the replies\<close>

text \<open>
  An argument of the D-Bus type o is an object path. The paths made from an empty identifier are
  not, but they are replied: path_arg allows them, and nothing else.
\<close>

definition path_arg :: "string \<Rightarrow> bool" where
  "path_arg p \<longleftrightarrow> object_path p \<or> p = printer_path_of [] \<or> p = device_path_of []"

fun returns :: "bus_call \<Rightarrow> dbus_value \<Rightarrow> bool" where
  "returns GetDevices v = (case v of Paths_value ps \<Rightarrow> list_all path_arg ps | _ \<Rightarrow> False)"
| "returns GetPrinters v = (case v of Paths_value ps \<Rightarrow> list_all path_arg ps | _ \<Rightarrow> False)"
| "returns (CreatePrinter _ _ _ _ _ _) v = (case v of Path_value p \<Rightarrow> path_arg p | _ \<Rightarrow> False)"
| "returns (DeviceCreatePrinter _ _ _ _) v = (case v of Path_value p \<Rightarrow> path_arg p | _ \<Rightarrow> False)"
| "returns (CreateJob _ _) v = (case v of Job_value p unsupported \<Rightarrow> object_path p | _ \<Rightarrow> False)"
| "returns _ v = (v = Unit_value)"

fun well_typed :: "bus_call \<Rightarrow> reply \<Rightarrow> bool" where
  "well_typed call (Reply_value v) = returns call v"
| "well_typed call _ = True"

definition answers :: "bus_call \<Rightarrow> reply list \<Rightarrow> bool" where
  "answers call rs \<longleftrightarrow> (\<exists>r. rs = [r] \<and> well_typed call r)"

lemma answersI [intro]: "well_typed call r \<Longrightarrow> answers call [r]"
  by (simp add: answers_def)

lemma error_typed: "is_error r \<Longrightarrow> well_typed call r"
  by (cases r) simp_all

lemma error_answers: "is_error r \<Longrightarrow> answers call [r]"
  by (simp add: answers_def error_typed)

lemma path_arg_of:
  assumes "set i \<subseteq> set path_chars"
  shows "path_arg (printer_path_of i)" and "path_arg (device_path_of i)"
proof -
  have "CHR ''/'' \<notin> set i" using assms path_chars_no_slash by blast
  with assms show "path_arg (printer_path_of i)" "path_arg (device_path_of i)"
    by (cases "i = []"; simp add: path_arg_def object_path_of)+
qed

subsection \<open>The handlers of printers and devices\<close>

lemma authorization_cases:
  obtains (granted) "pd_daemon_check_authorization_sync d msg a as = (True, [])"
  | (refused) r where "pd_daemon_check_authorization_sync d msg a as = (False, [r])" and "is_error r"
proof -
  obtain ok rs where c: "pd_daemon_check_authorization_sync d msg a as = (ok, rs)" by fastforce
  then show ?thesis
    by (cases ok) (auto simp: pd_daemon_check_authorization_sync_def intro: granted refused
        split: if_splits polkit_answer.splits bool.splits)
qed

text \<open>What a handler may change of a printer.\<close>

definition same_printer :: "printer \<Rightarrow> printer \<Rightarrow> bool" where
  "same_printer a b \<longleftrightarrow> prn_id b = prn_id a \<and> prn_jobs b = prn_jobs a \<and> prn_job_outgoing b = prn_job_outgoing a"

lemma same_printer_refl [simp]: "same_printer a a"
  by (simp add: same_printer_def)

lemma set_device_uris_effect:
  "\<exists>b r. pd_printer_impl_set_device_uris d uris a = (b, [r]) \<and> same_printer a b \<and> well_typed (SetDeviceUris us) r"
  by (rule authorization_cases [where d = d and msg = "''Authentication is required to modify a printer''"
        and a = "''org.freedesktop.printerd.all-edit''" and as = "[''org.freedesktop.printerd.printer-modify'']"])
    (auto simp: pd_printer_impl_set_device_uris_def same_printer_def error_typed)

lemma update_defaults_effect:
  "\<exists>b r. pd_printer_impl_update_defaults d defaults a = (b, [r]) \<and> same_printer a b \<and> well_typed (UpdateDefaults ds) r"
  by (rule authorization_cases [where d = d and msg = "''Authentication is required to modify a printer''"
        and a = "''org.freedesktop.printerd.all-edit''" and as = "[''org.freedesktop.printerd.printer-modify'']"])
    (auto simp: pd_printer_impl_update_defaults_def pd_printer_impl_do_update_defaults_def same_printer_def error_typed)

lemma update_driver_effect:
  "\<exists>b r. pd_printer_impl_handle_update_driver G ppd_open options a = (b, [r]) \<and> same_printer a b \<and> well_typed (UpdateDriver os) r"
  using set_driver_frame [of G ppd_open _ a]
  by (auto simp: pd_printer_impl_handle_update_driver_def pd_printer_impl_handle_complete_update_driver_def same_printer_def
      split: option.split) (metis prod.collapse)+

lemma on_printer_effect:
  assumes "on_printer p f w = Some (w', rs)" and "\<And>a. \<exists>b r. f a = (b, [r]) \<and> same_printer a b \<and> well_typed call r"
  shows "\<exists>g. w' = upd_printer p g w \<and> (\<forall>a. w_printers w p = Some a \<longrightarrow> same_printer a (g a))" and "answers call rs"
proof -
  from assms(1) obtain a where a: "w_printers w p = Some a" by (auto simp: on_printer_def split: option.splits)
  moreover from assms(2) obtain b r where f: "f a = (b, [r])" "same_printer a b" "well_typed call r" by blast
  ultimately have w': "w' = upd_printer p (\<lambda>_. b) w" "rs = [r]" using assms(1) by (auto simp: on_printer_def)
  show "\<exists>g. w' = upd_printer p g w \<and> (\<forall>a. w_printers w p = Some a \<longrightarrow> same_printer a (g a))"
    using w'(1) a f(2) by (intro exI [of _ "\<lambda>_. b"]) simp
  show "answers call rs" using f(3) w'(2) by blast
qed

lemma finish_printer_effect:
  assumes "w_printers w p = Some prn" and "prn_id prn = Some i"
  obtains g where "finish_printer G uris defaults p w = (upd_printer p g w, [Reply_value (Path_value (printer_path_of i))])"
    and "same_printer prn (g prn)"
proof -
  let ?g = "\<lambda>prn. snd (pd_printer_impl_get_id G (pd_printer_impl_do_update_defaults defaults (prn\<lparr>prn_device_uris := uris\<rparr>)))"
  have g: "prn_id (?g prn) = Some i" "same_printer prn (?g prn)"
    using assms(2) by (simp_all add: pd_printer_impl_get_id_def pd_printer_impl_do_update_defaults_def same_printer_def)
  show ?thesis
  proof (rule that [of ?g])
    show "finish_printer G uris defaults p w = (upd_printer p ?g w, [Reply_value (Path_value (printer_path_of i))])"
      using assms(1) g(1) by (simp add: finish_printer_def Let_def fmt_s_def)
  qed (fact g(2))
qed

text \<open>A world with one more printer, which was finished by the handler.\<close>

definition with_printer :: "world \<Rightarrow> world \<Rightarrow> bool" where
  "with_printer w w' \<longleftrightarrow> (\<exists>objid prn g. w' = upd_printer (w_next w) g (entered objid prn w)
     \<and> map_of (w_id_to_printer w) objid = None \<and> set objid \<subseteq> set path_chars
     \<and> prn_id prn = Some objid \<and> prn_jobs prn = [] \<and> same_printer prn (g prn))"

lemma added_printer_effect:
  assumes "glib_contract G"
    and "pd_engine_add_printer G ppd_open options name description location ieee1284_id w = Some (Inr p, w1)"
    and "finish_printer G uris defaults p w1 = (w', rs)"
  shows "with_printer w w' \<and> (\<exists>i. rs = [Reply_value (Path_value (printer_path_of i))] \<and> path_arg (printer_path_of i))"
proof -
  obtain objid prn where e: "w1 = entered objid prn w" "p = w_next w"
    "choose_id (w_id_to_printer w) (doc_strcanon name path_chars CHR ''_'') = Some objid"
    "set objid \<subseteq> set path_chars" "prn_id prn = Some objid" "prn_jobs prn = []"
    by (rule add_printer_entered [OF assms(1,2)])
  have "w_printers w1 p = Some prn" by (simp add: e(1,2) entered_def)
  then obtain g where "finish_printer G uris defaults p w1 = (upd_printer p g w1, [Reply_value (Path_value (printer_path_of objid))])"
    "same_printer prn (g prn)"
    using finish_printer_effect [OF _ e(5)] by metis
  with assms(3) e choose_id_free [OF e(3)] path_arg_of(1) [OF e(4)] show ?thesis
    unfolding with_printer_def by auto
qed

subsection \<open>What a call does\<close>

text \<open>The seven ways in which a call changes the world.\<close>

inductive effect :: "glib \<Rightarrow> world \<Rightarrow> world \<Rightarrow> bool" for G where
  effect_none: "effect G w w"
| effect_printer: "(\<And>a. w_printers w p = Some a \<Longrightarrow> same_printer a (g a)) \<Longrightarrow> effect G w (upd_printer p g w)"
| effect_document: "w_jobs w j = Some job \<Longrightarrow>
    effect G w (upd_job j (\<lambda>_. fst (pd_job_impl_add_document d u fds options h job)) w)"
| effect_start: "w_jobs w j = Some job \<Longrightarrow> pd_job_impl_start d u sp printer job = Some (job', rs) \<Longrightarrow>
    effect G w (upd_job j (\<lambda>_. job') w)"
| effect_cancel: "w_jobs w j = Some job \<Longrightarrow> effect G w (upd_job j (\<lambda>_. fst (pd_job_impl_cancel d u job)) w)"
| effect_add: "with_printer w w' \<Longrightarrow> effect G w w'"
| effect_remove: "pd_engine_remove_printer G path w = Some (ok, w') \<Longrightarrow> effect G w w'"
| effect_create: "pd_printer_impl_complete_create_job G u p name attributes w = Some (w', rs) \<Longrightarrow> effect G w w'"

abbreviation served :: "glib \<Rightarrow> bus_call \<Rightarrow> world \<Rightarrow> world \<Rightarrow> reply list \<Rightarrow> bool" where
  "served G call w w' rs \<equiv> effect G w w' \<and> answers call rs"

lemma no_handler_served: "no_handler w = Some (w', rs) \<Longrightarrow> served G call w w' rs"
  by (auto simp: no_handler_def intro: effect_none)

lemma create_printer_served:
  assumes "glib_contract G"
    and "pd_manager_impl_create_printer G ppd_open d options name description location uris defaults w = Some (w', rs)"
  shows "served G (CreatePrinter os n de l us ds) w w' rs"
proof (cases rule: authorization_cases [where d = d and msg = "''Authentication is required to add a printer''"
      and a = "''org.freedesktop.printerd.all-edit''" and as = "[''org.freedesktop.printerd.printer-add'']"])
  case granted
  obtain r w1 where a: "pd_engine_add_printer G ppd_open (Some options) name description location None w = Some (r, w1)"
    using assms(2) granted
    by (auto simp: pd_manager_impl_create_printer_def pd_manager_impl_complete_create_printer_def split: option.splits)
  show ?thesis
  proof (cases r)
    case (Inl m)
    then have "w1 = w" using add_printer_error a by blast
    with assms(2) granted a Inl show ?thesis
      by (auto simp: pd_manager_impl_create_printer_def pd_manager_impl_complete_create_printer_def intro: effect_none)
  next
    case (Inr p)
    then have f: "finish_printer G uris defaults p w1 = (w', rs)" using assms(2) granted a
      by (auto simp: pd_manager_impl_create_printer_def pd_manager_impl_complete_create_printer_def)
    from added_printer_effect [OF assms(1) a [unfolded Inr] f] show ?thesis by (auto intro: effect_add)
  qed
next
  case (refused r)
  with assms(2) show ?thesis by (auto simp: pd_manager_impl_create_printer_def error_typed intro: effect_none)
qed

lemma device_create_printer_served:
  assumes "glib_contract G"
    and "pd_device_impl_create_printer G ppd_open d device name description location defaults w = Some (w', rs)"
  shows "served G (DeviceCreatePrinter n de l ds) w w' rs"
proof (cases rule: authorization_cases [where d = d and msg = "''Authentication is required to add a printer''"
      and a = "''org.freedesktop.printerd.all-edit''" and as = "[''org.freedesktop.printerd.printer-add'']"])
  case granted
  obtain p w1 where a: "pd_engine_add_printer G ppd_open None name description location (dev_ieee1284_id device) w = Some (Inr p, w1)"
    "finish_printer G [dev_uri device] defaults p w1 = (w', rs)"
    using assms(2) granted
    by (auto simp: pd_device_impl_create_printer_def pd_device_impl_complete_create_printer_def split: option.splits sum.splits)
  from added_printer_effect [OF assms(1) a] show ?thesis by (auto intro: effect_add)
next
  case (refused r)
  with assms(2) show ?thesis by (auto simp: pd_device_impl_create_printer_def error_typed intro: effect_none)
qed

lemma create_job_served:
  assumes "pd_printer_impl_create_job G d u p name attributes w = Some (w', rs)"
  shows "served G (CreateJob n at) w w' rs"
proof (cases rule: authorization_cases [where d = d and msg = "''Authentication is required to add a job''"
      and a = "''org.freedesktop.printerd.job-add''" and as = "[]"])
  case granted
  then have c: "pd_printer_impl_complete_create_job G u p name attributes w = Some (w', rs)"
    using assms by (auto simp: pd_printer_impl_create_job_def)
  then obtain unsupported where "rs = [Reply_value (Job_value (job_path_of (w_next_job_id w)) unsupported)]"
    by (rule create_job_cases)
  with c show ?thesis by (auto intro: effect_create)
next
  case (refused r)
  with assms show ?thesis by (auto simp: pd_printer_impl_create_job_def error_typed intro: effect_none)
qed

lemma delete_printer_served:
  assumes "pd_manager_impl_delete_printer G path w = Some (w', rs)"
  shows "served G (DeletePrinter p) w w' rs"
  using assms by (auto simp: pd_manager_impl_delete_printer_def intro: effect_remove)

lemma printer_served:
  assumes "pd_printer_iface_init G s p call w = Some (w', rs)"
  shows "served G call w w' rs"
proof (cases call)
  case (SetDeviceUris uris)
  with assms have "on_printer p (pd_printer_impl_set_device_uris (sv_daemon s) uris) w = Some (w', rs)" by simp
  from on_printer_effect [OF this set_device_uris_effect] SetDeviceUris show ?thesis by (auto intro: effect_printer)
next
  case (UpdateDefaults defaults)
  with assms have "on_printer p (pd_printer_impl_update_defaults (sv_daemon s) defaults) w = Some (w', rs)" by simp
  from on_printer_effect [OF this update_defaults_effect] UpdateDefaults show ?thesis by (auto intro: effect_printer)
next
  case (UpdateDriver options)
  with assms have "on_printer p (pd_printer_impl_handle_update_driver G (sv_ppd s) options) w = Some (w', rs)" by simp
  from on_printer_effect [OF this update_driver_effect] UpdateDriver show ?thesis by (auto intro: effect_printer)
next
  case (CreateJob name attributes)
  with assms show ?thesis using create_job_served by simp
qed (use assms in \<open>simp_all add: no_handler_served\<close>)

text \<open>A method of a job answers once, with an error or with no value.\<close>

lemma add_document_answer:
  "answers (AddDocument os k fs) (snd (pd_job_impl_add_document d u fds options h job))"
proof (cases "allowed d u ''org.freedesktop.printerd.job-add'' job")
  case True
  then show ?thesis by (auto simp: add_document_allowed split: option.split)
next
  case False
  with add_document_refused [OF False, of fds options h] show ?thesis by (auto simp: error_answers)
qed

lemma start_answer:
  assumes "job_inv job" and "pd_job_impl_start d u sp printer job = Some (job', rs)"
  shows "answers Start rs"
  using assms(1)
proof (cases rule: start_cases [where d = d and u = u and sp = sp and printer = printer])
  case (started spoolfd spool_name)
  obtain job2 where "pd_job_impl_start d u sp printer job = Some (start_result sp (requested_type printer job) spool_name job2)"
    by (rule start_allowed [OF started(1) assms(1) started(2,3)])
  with assms(2) show ?thesis by (auto simp: start_result_def split: if_splits)
qed (use assms(2) in \<open>auto simp: error_typed\<close>)

lemma cancel_answer: "answers Cancel (snd (pd_job_impl_cancel d u job))"
proof (cases "allowed d u ''org.freedesktop.printerd.job-cancel'' job")
  case True
  then show ?thesis by (auto simp: cancel_allowed cancel_by_user_def)
next
  case False
  with cancel_refused [OF False] show ?thesis by (auto simp: error_answers)
qed

lemma job_served:
  assumes "pd_job_iface_init G s j call w = Some (w', rs)" and "\<And>job. w_jobs w j = Some job \<Longrightarrow> job_inv job"
  shows "served G call w w' rs"
proof (cases call)
  case (AddDocument options h fds)
  with assms(1) obtain job where job: "w_jobs w j = Some job" by (auto simp: handle_job_def split: option.splits)
  let ?r = "pd_job_impl_add_document (sv_daemon s) (sv_user s) fds options h job"
  have "w' = upd_job j (\<lambda>_. fst ?r) w" "rs = snd ?r"
    using assms(1) AddDocument job by (auto simp: handle_job_def split_beta)
  with AddDocument add_document_answer effect_document [OF job] show ?thesis by auto
next
  case Start
  with assms(1) obtain job where job: "w_jobs w j = Some job" by (auto simp: handle_job_def split: option.splits)
  with assms(1) Start obtain job' where "pd_job_impl_start (sv_daemon s) (sv_user s) (sv_spool s)
      (Option.bind (pd_engine_get_printer_by_path G (jb_printer job) w) (w_printers w)) job = Some (job', rs)"
    and "w' = upd_job j (\<lambda>_. job') w" by (auto simp: handle_job_def)
  with Start start_answer [OF assms(2) [OF job]] effect_start [OF job] show ?thesis by auto
next
  case Cancel
  with assms(1) obtain job where job: "w_jobs w j = Some job" by (auto simp: handle_job_def split: option.splits)
  let ?r = "pd_job_impl_cancel (sv_daemon s) (sv_user s) job"
  have "w' = upd_job j (\<lambda>_. fst ?r) w" "rs = snd ?r"
    using assms(1) Cancel job by (auto simp: handle_job_def split_beta)
  with Cancel cancel_answer effect_cancel [OF job] show ?thesis by auto
qed (use assms(1) in \<open>simp_all add: no_handler_served\<close>)

text \<open>The lists of the manager: with the registries consistent, every path is one.\<close>

lemma get_printers_answer:
  assumes "printers_ok w" and "\<And>xs. mset (ord xs) = mset xs"
  shows "answers GetPrinters (pd_manager_impl_get_printers ord w)"
proof -
  have "path_arg (printer_path_of i)" if "i \<in> set (pd_engine_dup_printer_ids ord w)" for i
  proof -
    from that dup_printer_ids(3) [OF assms] obtain p where p: "printer_id w p = Some i" by blast
    then have "w_printers w p \<noteq> None" by (cases "w_printers w p") (simp_all add: printer_id_def)
    with assms(1) p have "set i \<subseteq> set path_chars" unfolding printers_ok_def by (metis option.inject)
    then show ?thesis by (rule path_arg_of(1))
  qed
  then show ?thesis by (auto simp: pd_manager_impl_get_printers_def list_all_iff)
qed

lemma get_devices_answer:
  assumes "devices_ok w" and "\<And>xs. mset (ord xs) = mset xs"
  shows "answers GetDevices (pd_manager_impl_get_devices G ord w)"
proof -
  have "path_arg (device_path_at G w a)" if "a \<in> set (pd_engine_get_devices ord w)" for a
  proof -
    have "a \<in> set (map snd (w_path_to_device w))"
      using that mset_eq_setD [OF assms(2)] by (simp add: pd_engine_get_devices_def)
    then obtain k where "(k, a) \<in> set (w_path_to_device w)" by auto
    moreover have "table_ok (w_path_to_device w)" using assms(1) by (simp add: devices_ok_def)
    ultimately have "map_of (w_path_to_device w) k = Some a" by simp
    with assms(1) obtain dev i where dev: "w_devices w a = Some dev" "dev_id dev = Some i" "set i \<subseteq> set path_chars"
      unfolding devices_ok_def by blast
    from path_arg_of(2) [OF dev(3)] dev(1) device_get_id_same [OF dev(2), of G] show ?thesis
      by (simp add: device_path_at_def fmt_s_def)
  qed
  then show ?thesis by (auto simp: pd_manager_impl_get_devices_def list_all_iff)
qed

definition service_ok :: "service \<Rightarrow> bool" where
  "service_ok s \<longleftrightarrow> (\<forall>xs. mset (sv_printer_order s xs) = mset xs) \<and> (\<forall>xs. mset (sv_device_order s xs) = mset xs)"

lemma serve_served:
  assumes "glib_contract G" and "reg_inv w" and "service_ok s" and "\<And>j job. w_jobs w j = Some job \<Longrightarrow> job_inv job"
    and "serve G s path call w = Some (w', rs)"
  shows "served G call w w' rs"
proof -
  have man: "served G call w w' rs" if "pd_manager_iface_init G s call w = Some (w', rs)"
  proof (cases call)
    case GetDevices
    with that get_devices_answer [of w "sv_device_order s" G] assms(2,3) show ?thesis
      by (auto simp: reg_inv_def service_ok_def intro: effect_none)
  next
    case GetPrinters
    with that get_printers_answer [of w "sv_printer_order s"] assms(2,3) show ?thesis
      by (auto simp: reg_inv_def service_ok_def intro: effect_none)
  next
    case (CreatePrinter options name description location uris defaults)
    with that create_printer_served [OF assms(1)] show ?thesis by simp
  next
    case (DeletePrinter p)
    with that delete_printer_served show ?thesis by simp
  qed (use that in \<open>simp_all add: no_handler_served\<close>)
  have dev: "served G call w w' rs" if "pd_device_iface_init G s a call w = Some (w', rs)" for a
  proof (cases call)
    case (DeviceCreatePrinter name description location defaults)
    with that obtain dev where "pd_device_impl_create_printer G (sv_ppd s) (sv_daemon s) dev name description location defaults w = Some (w', rs)"
      by (auto split: option.splits)
    with DeviceCreatePrinter device_create_printer_served [OF assms(1)] show ?thesis by blast
  qed (use that in \<open>simp_all add: no_handler_served\<close>)
  show ?thesis
  proof (cases "w_exported w path")
    case None
    with assms(5) show ?thesis by (simp add: serve_def no_handler_served)
  next
    case (Some obj)
    then show ?thesis
      using assms(5) man dev printer_served job_served [OF _ assms(4)] by (cases obj) (auto simp: serve_def)
  qed
qed

end
