(* ===== verification/Pd_Job_Reasons.thy ===== *)
theory Pd_Job_Reasons
  imports Pd_Job_Frame
begin

text \<open>
  The reason job-outgoing, by which the engine knows that a job is being sent to its printer:
  only the start of a job sets it, and every other operation keeps or drops it.
\<close>

abbreviation job_outgoing :: string where
  "job_outgoing \<equiv> ''job-outgoing''"

definition outgoing :: "job \<Rightarrow> bool" where
  "outgoing job \<longleftrightarrow> job_outgoing \<in> set (jb_state_reasons job)"

subsection \<open>Predicates on the reasons that other reasons do not affect\<close>

text \<open>
  A predicate on the list of reasons that survives the addition and removal of every reason but
  job-outgoing survives every operation on the job that leaves job-outgoing alone.
\<close>

locale other_reasons =
  fixes P :: "string list \<Rightarrow> bool"
  assumes keeps_add: "P rs \<Longrightarrow> x \<noteq> job_outgoing \<Longrightarrow> P (reasons_add x rs)"
    and keeps_remove: "P rs \<Longrightarrow> x \<noteq> job_outgoing \<Longrightarrow> P (reasons_remove x rs)"
begin

abbreviation holds :: "job \<Rightarrow> bool" where
  "holds job \<equiv> P (jb_state_reasons job)"

lemma add: "holds job \<Longrightarrow> x \<noteq> job_outgoing \<Longrightarrow> holds (pd_job_impl_add_state_reason job x)"
  by (simp add: job_reasons.reasons_after_add keeps_add)

lemma remove: "holds job \<Longrightarrow> x \<noteq> job_outgoing \<Longrightarrow> holds (pd_job_impl_remove_state_reason job x)"
  by (simp add: job_reasons.reasons_after_remove keeps_remove)

lemma check: "holds job \<Longrightarrow> holds (snd (pd_job_impl_check_job_transforming job))"
  by (simp add: pd_job_impl_check_job_transforming_def remove)

lemma cancel: "holds job \<Longrightarrow> r \<noteq> job_outgoing \<Longrightarrow> holds (pd_job_impl_do_cancel_with_reason s r job)"
  by (cases rule: cancel_cases [of s r job]) (simp_all add: add check)

lemma state_notify: "holds job \<Longrightarrow> holds (pd_job_impl_job_state_notify job)"
  by (simp add: pd_job_impl_job_state_notify_def remove)

lemma process_watch:
  assumes "holds job" and "r = Backend \<Longrightarrow> P (reasons_remove job_outgoing (jb_state_reasons job))"
  shows "holds (pd_job_impl_process_watch_cb r st job)"
proof -
  let ?j = "map_jp r exit_process job"
  have "holds (if r \<noteq> Backend then snd (pd_job_impl_check_job_transforming ?j)
      else pd_job_impl_remove_state_reason ?j job_outgoing)"
    using assms by (simp add: check job_reasons.reasons_after_remove)
  then show ?thesis by (auto simp: process_watch_unfold Let_def)
qed

lemma watch_channel: "watch_channel r fd w job = Some j \<Longrightarrow> holds job \<Longrightarrow> holds j"
  by (auto simp: watch_channel_Some split: if_splits)

lemma sources: "holds (clear_source r i job) = holds job" "holds (set_channel r i c job) = holds job"
  by (simp_all add: clear_source_def set_channel_def)

lemma data_in: "data_io_cb_in this outcome job = Some (j, keep) \<Longrightarrow> holds job \<Longrightarrow> holds j"
  by (auto simp: data_io_cb_in_def Let_def sources intro: cancel dest!: watch_channel
      split: read_outcome.splits if_splits)

lemma data_sent: "data_sent this next n job = Some (j, keep) \<Longrightarrow> holds job \<Longrightarrow> holds j"
  by (auto simp: data_sent_def Let_def sources dest!: watch_channel split: if_splits)

lemma data_out: "data_io_cb_out this outcome job = Some (j, keep) \<Longrightarrow> holds job \<Longrightarrow> holds j"
  by (auto simp: data_io_cb_out_def sources intro: cancel check data_sent
      split: write_outcome.splits option.splits if_splits)

lemma message: "message_io_cb G this fd ls st job = (j, rs, keep) \<Longrightarrow> holds job \<Longrightarrow> holds j"
  by (auto simp: message_io_cb_def Let_def sources add split: line_end.splits)

lemma document: "holds job \<Longrightarrow> holds (fst (pd_job_impl_add_document d u fds options h job))"
  by (auto simp: pd_job_impl_add_document_def Let_def split: option.split prod.split)

lemma cancel_method: "holds job \<Longrightarrow> holds (fst (pd_job_impl_cancel d u job))"
proof (cases "allowed d u ''org.freedesktop.printerd.job-cancel'' job")
  case True
  assume "holds job"
  with True show ?thesis by (simp add: cancel_allowed cancel_by_user_def cancel check)
next
  case False
  assume "holds job"
  with cancel_refused [OF False] show ?thesis by auto
qed

lemma start_method:
  assumes "holds job" and "job_inv job" and "pd_job_impl_start d u sp printer job = Some (j, rs)"
  shows "holds j"
  using assms(2)
proof (cases rule: start_cases [where d = d and u = u and sp = sp and printer = printer])
  case (started spoolfd spool_name)
  obtain job2 where "pd_job_impl_start d u sp printer job = Some (start_result sp (requested_type printer job) spool_name job2)"
    and "jb_state_reasons job2 = jb_state_reasons job"
    by (rule start_allowed [OF started(1) assms(2) started(2,3)])
  with assms(1,3) show ?thesis
    by (auto simp: start_result_def cancel remove split: if_splits)
qed (use assms in auto)

end

text \<open>The two instances: job-outgoing is not set, and it comes first.\<close>

definition outgoing_first :: "job \<Rightarrow> bool" where
  "outgoing_first job \<longleftrightarrow> (\<exists>rs. jb_state_reasons job = job_outgoing # rs)"

interpretation unset: other_reasons "\<lambda>rs. job_outgoing \<notin> set rs"
  by unfold_locales (auto simp: reasons_add_def dest: set_takeWhileD)

interpretation first: other_reasons "\<lambda>rs. \<exists>rs'. rs = job_outgoing # rs'"
  by unfold_locales (auto simp: reasons_add_def reasons_remove_def)

end
