(* ===== verification/Pd_Job_Ending.thy ===== *)
theory Pd_Job_Ending
  imports Pd_Job_Reasons
begin

text \<open>
  The end of a job whose backend was started: every process of it that runs is watched, none is
  ever started again, and when none runs any more the job is terminal for good and is not
  outgoing. Every operation on such a job keeps this.
\<close>

subsection \<open>Jobs that are being sent\<close>

definition sent_ok :: "job \<Rightarrow> bool" where
  "sent_ok job \<longleftrightarrow> (\<forall>r\<in>running_refs job. jp_process_watch (get_jp r job))
     \<and> (running_refs job = {} \<longrightarrow> job_terminal (jb_state job))
     \<and> (\<not> running (backend job) \<longrightarrow> \<not> outgoing job)"

definition ends_ok :: "job \<Rightarrow> bool" where
  "ends_ok job \<longleftrightarrow> (jp_started (backend job) \<longrightarrow> sent_ok job)"

text \<open>What an operation does to a job whose backend was started.\<close>

definition winds :: "job \<Rightarrow> job \<Rightarrow> bool" where
  "winds job j \<longleftrightarrow> jp_started (backend j) = jp_started (backend job)
     \<and> (jp_started (backend job) \<and> sent_ok job \<longrightarrow> sent_ok j \<and> running_refs j \<subseteq> running_refs job
     \<and> (job_terminal (jb_state job) \<longrightarrow> job_terminal (jb_state j)))"

lemma winds_refl: "winds job job"
  by (simp add: winds_def)

lemma winds_trans: "winds a b \<Longrightarrow> winds b c \<Longrightarrow> winds a c"
  unfolding winds_def by blast

lemma winds_unsent: "\<not> jp_started (backend job) \<Longrightarrow> \<not> jp_started (backend j) \<Longrightarrow> winds job j"
  by (simp add: winds_def)

lemma winds_ends: "winds job j \<Longrightarrow> ends_ok job \<Longrightarrow> ends_ok j"
  by (auto simp: winds_def ends_ok_def)

lemma never_started_ends: "never_started job \<Longrightarrow> ends_ok job"
  by (simp add: ends_ok_def never_started_def fresh_process_def)

lemma ends_ok_upd [simp]: "ends_ok (job\<lparr>jb_watched_reasons := a\<rparr>) = ends_ok job"
proof -
  have r: "valid_ref x (job\<lparr>jb_watched_reasons := a\<rparr>) = valid_ref x job" "get_jp x (job\<lparr>jb_watched_reasons := a\<rparr>) = get_jp x job" for x
    by (cases x; simp)+
  show ?thesis by (simp add: ends_ok_def sent_ok_def running_refs_def outgoing_def r)
qed

text \<open>A job that was just started: everything runs and is watched, or the backend was not started.\<close>

lemma all_up_ends: "all_up G env job j \<Longrightarrow> ends_ok j"
proof -
  assume "all_up G env job j"
  then have a: "valid_ref r j \<Longrightarrow> running (get_jp r j) \<and> jp_process_watch (get_jp r j)" for r by (simp add: all_up_def)
  from a [of Backend] have b: "running (backend j)" by simp
  then have "Backend \<in> running_refs j" by (simp add: Backend_running)
  then have "running_refs j \<noteq> {}" by blast
  moreover have "\<forall>r\<in>running_refs j. jp_process_watch (get_jp r j)" using a by (simp add: running_refs_def)
  ultimately show ?thesis using b by (simp add: ends_ok_def sent_ok_def)
qed

subsection \<open>Operations that leave the processes alone\<close>

definition process_status :: "pd_job_process \<Rightarrow> bool \<times> bool \<times> bool" where
  "process_status jp = (jp_started jp, jp_finished jp, jp_process_watch jp)"

definition processes :: "job \<Rightarrow> (bool \<times> bool \<times> bool) list \<times> bool \<times> bool \<times> bool" where
  "processes job = (map process_status (filterchain job), process_status (backend job))"

lemma processes_refs:
  assumes "processes j = processes job"
  shows "valid_ref r j = valid_ref r job"
    and "valid_ref r job \<Longrightarrow> process_status (get_jp r j) = process_status (get_jp r job)"
proof -
  from assms have m: "map process_status (filterchain j) = map process_status (filterchain job)"
    and b: "process_status (backend j) = process_status (backend job)" by (simp_all add: processes_def)
  from m have l: "length (filterchain j) = length (filterchain job)" by (rule map_eq_imp_length_eq)
  then show "valid_ref r j = valid_ref r job" by (cases r) simp_all
  show "process_status (get_jp r j) = process_status (get_jp r job)" if "valid_ref r job"
  proof (cases r)
    case (Filter k)
    with that l have "k < length (filterchain j)" "k < length (filterchain job)" by simp_all
    with m Filter show ?thesis by (metis get_jp.simps(2) nth_map)
  qed (simp add: b)
qed

lemma processes_running:
  assumes "processes j = processes job"
  shows "running_refs j = running_refs job"
    and "r \<in> running_refs job \<Longrightarrow> jp_process_watch (get_jp r j) = jp_process_watch (get_jp r job)"
    and "jp_started (backend j) = jp_started (backend job)" and "running (backend j) = running (backend job)"
  using processes_refs [OF assms] assms
  by (auto simp: running_refs_def running_def process_status_def processes_def)

lemma windsI:
  assumes "processes j = processes job"
    and "job_terminal (jb_state job) \<Longrightarrow> job_terminal (jb_state j)"
    and "job_outgoing \<notin> set (jb_state_reasons job) \<Longrightarrow> job_outgoing \<notin> set (jb_state_reasons j)"
  shows "winds job j"
  using assms(2,3) processes_running [OF assms(1)]
  unfolding winds_def sent_ok_def outgoing_def by auto

lemma processes_map_jp:
  "(\<And>jp. process_status (f jp) = process_status jp) \<Longrightarrow> processes (map_jp r f job) = processes job"
proof (cases r)
  case (Filter k)
  assume f: "\<And>jp. process_status (f jp) = process_status jp"
  have "map process_status (xs[k := f (xs ! k)]) = map process_status xs" for xs :: "pd_job_process list"
  proof (rule nth_equalityI)
    show "map process_status (xs[k := f (xs ! k)]) ! i = map process_status xs ! i"
      if "i < length (map process_status (xs[k := f (xs ! k)]))" for i
      using that f by (cases "i = k") simp_all
  qed simp
  with Filter show ?thesis by (simp add: processes_def backend_map_jp filterchain_map_jp)
qed (simp add: processes_def backend_map_jp filterchain_map_jp)

lemma processes_sources [simp]:
  "processes (clear_source r i job) = processes job" "processes (set_channel r i c job) = processes job"
  "processes (stop_backend_input job) = processes job"
  by (simp_all add: clear_source_def set_channel_def processes_map_jp process_status_def)
    (simp add: stop_backend_input_def processes_def process_status_def close_stdin_def)

lemma processes_upd [simp]:
  "processes (job\<lparr>jb_syscalls := a\<rparr>) = processes job" "processes (job\<lparr>pending_job_state := s\<rparr>) = processes job"
  "processes (job\<lparr>bufsent := n\<rparr>) = processes job" "processes (job\<lparr>buflen := n\<rparr>) = processes job"
  "processes (job\<lparr>buffer := bs\<rparr>) = processes job" "processes (job\<lparr>jb_watched_impl := w\<rparr>) = processes job"
  "processes (job\<lparr>jb_watched_engine := w\<rparr>) = processes job" "processes (job\<lparr>jb_watched_printer := w\<rparr>) = processes job"
  "processes (job\<lparr>jb_watched_reasons := w\<rparr>) = processes job" "processes (job\<lparr>jb_notify_state := w\<rparr>) = processes job"
  "processes (job\<lparr>jb_notify_reasons := w\<rparr>) = processes job"
  by (simp_all add: processes_def)

lemma processes_reasons [simp]:
  "processes (pd_job_set_state s job) = processes job" "processes (pd_job_impl_add_state_reason job x) = processes job"
  "processes (pd_job_impl_remove_state_reason job x) = processes job"
  "processes (snd (pd_job_impl_check_job_transforming job)) = processes job"
  "processes (pd_job_impl_job_state_notify job) = processes job"
  by (simp_all add: processes_def) (simp add: pd_job_impl_job_state_notify_def)

lemma processes_cancel [simp]: "processes (pd_job_impl_do_cancel_with_reason s r job) = processes job"
  by (cases rule: cancel_cases [of s r job]) simp_all

lemma processes_watch_channel: "watch_channel r fd w job = Some j \<Longrightarrow> processes j = processes job"
  by (auto simp: watch_channel_Some process_status_def intro!: processes_map_jp split: if_splits)

lemma processes_data_in: "data_io_cb_in this outcome job = Some (j, keep) \<Longrightarrow> processes j = processes job"
  by (auto simp: data_io_cb_in_def Let_def dest!: processes_watch_channel split: read_outcome.splits if_splits)

lemma processes_data_sent: "data_sent this next n job = Some (j, keep) \<Longrightarrow> processes j = processes job"
  by (auto simp: data_sent_def Let_def dest!: processes_watch_channel split: if_splits)

lemma processes_data_out: "data_io_cb_out this outcome job = Some (j, keep) \<Longrightarrow> processes j = processes job"
  by (auto simp: data_io_cb_out_def dest!: processes_data_sent split: write_outcome.splits option.splits if_splits)

lemma processes_message: "message_io_cb G this fd ls st job = (j, rs, keep) \<Longrightarrow> processes j = processes job"
  by (auto simp: message_io_cb_def Let_def split: line_end.splits)

lemma processes_document [simp]: "processes (fst (pd_job_impl_add_document d u fds options h job)) = processes job"
  by (auto simp: processes_def pd_job_impl_add_document_def Let_def note_format_def split: option.split prod.split)

lemma winds_cancel:
  assumes "job_terminal s" and "r \<noteq> job_outgoing"
  shows "winds job (pd_job_impl_do_cancel_with_reason s r job)"
  using cancel_state [of s r job] assms by (intro windsI unset.cancel) auto

lemma winds_check: "winds job (snd (pd_job_impl_check_job_transforming job))"
  by (rule windsI) (simp_all add: unset.check)

lemma winds_data_in: "data_io_cb_in this outcome job = Some (j, keep) \<Longrightarrow> winds job j"
  by (rule windsI) (auto dest: processes_data_in data_in_state unset.data_in)

lemma winds_data_out: "data_io_cb_out this outcome job = Some (j, keep) \<Longrightarrow> winds job j"
  by (rule windsI) (auto dest: processes_data_out data_out_state unset.data_out)

lemma message_state: "message_io_cb G this fd ls st job = (j, rs, keep) \<Longrightarrow> jb_state j \<in> {jb_state job, PD_JOB_STATE_CANCELED}"
  by (auto simp: message_io_cb_def Let_def split: line_end.splits)

lemma winds_message: "message_io_cb G this fd ls st job = (j, rs, keep) \<Longrightarrow> winds job j"
  by (rule windsI) (auto dest: processes_message message_state unset.message)

lemma winds_state_notify: "winds job (pd_job_impl_job_state_notify job)"
  by (rule windsI) (simp_all add: unset.state_notify, simp add: pd_job_impl_job_state_notify_def)

lemma winds_upd:
  "winds job (job\<lparr>jb_watched_engine := a\<rparr>)" "winds job (job\<lparr>jb_watched_printer := b\<rparr>)"
  "winds job (job\<lparr>jb_watched_engine := a, jb_watched_printer := b\<rparr>)"
  "winds job (job\<lparr>jb_notify_state := a\<rparr>)" "winds job (job\<lparr>jb_notify_reasons := a\<rparr>)"
  "winds job (job\<lparr>jb_watched_reasons := a\<rparr>)"
  by (rule windsI; simp)+

subsection \<open>The exit of a process\<close>

lemma process_watch_reasons:
  "job_outgoing \<notin> set (jb_state_reasons job) \<Longrightarrow>
     job_outgoing \<notin> set (jb_state_reasons (pd_job_impl_process_watch_cb r st job))"
  by (rule unset.process_watch) simp_all

lemma backend_exit_not_outgoing: "\<not> outgoing (pd_job_impl_process_watch_cb Backend st job)"
  by (auto simp: outgoing_def process_watch_unfold Let_def job_reasons.reasons_after_remove reasons_remove_def)

lemma winds_process_watch:
  assumes inv: "job_inv job" and v: "valid_ref r job"
  shows "winds job (pd_job_impl_process_watch_cb r st job)"
proof (cases "jp_started (backend job)")
  case True
  let ?j = "pd_job_impl_process_watch_cb r st job"
  have R: "running_refs ?j = running_refs job - {r}" by (rule process_watch_running [OF v])
  have "job_terminal (pending_job_state job)" using inv True by (simp add: job_inv_def)
  then have p: "job_terminal (pending_job_state ?j)" by simp
  have s: "jb_state ?j = (if running_refs ?j = {} then pending_job_state ?j else jb_state job)"
    using process_watch_state [OF v, of st] True R by simp
  have g: "get_jp x ?j = get_jp x job" if "x \<noteq> r" for x using that v by simp
  show ?thesis
    unfolding winds_def
  proof (intro impI conjI)
    show "jp_started (backend ?j) = jp_started (backend job)" by simp
    assume ok: "jp_started (backend job) \<and> sent_ok job"
    show "running_refs ?j \<subseteq> running_refs job" using R by blast
    show "job_terminal (jb_state ?j)" if "job_terminal (jb_state job)" using that s p by simp
    have "\<not> outgoing ?j" if "\<not> running (backend ?j)"
    proof (cases "r = Backend")
      case False
      then have "get_jp Backend ?j = get_jp Backend job" by (intro g) simp
      then have "backend ?j = backend job" by (simp only: get_jp.simps)
      with that ok have "\<not> outgoing job" by (simp add: sent_ok_def)
      then show ?thesis using process_watch_reasons by (simp add: outgoing_def)
    qed (simp add: backend_exit_not_outgoing)
    then show "sent_ok ?j" using ok s p R g by (auto simp: sent_ok_def)
  qed
qed (simp add: winds_unsent)

subsection \<open>The methods\<close>

lemma winds_document: "winds job (fst (pd_job_impl_add_document d u fds options h job))"
  by (rule windsI) (simp, auto simp: pd_job_impl_add_document_def Let_def note_format_def split: option.split prod.split)

lemma winds_cancel_method: "winds job (fst (pd_job_impl_cancel d u job))"
proof (cases "allowed d u ''org.freedesktop.printerd.job-cancel'' job")
  case True
  have c: "winds j (fst (cancel_by_user j))" for j by (simp add: cancel_by_user_def winds_cancel)
  show ?thesis using c winds_refl winds_check winds_trans [OF winds_check c] by (simp add: cancel_allowed [OF True])
next
  case False
  with cancel_refused [OF False] show ?thesis by (auto intro: winds_refl)
qed

end
