(* ===== verification/Pd_Job_Sending.thy ===== *)
theory Pd_Job_Sending
  imports Pd_Job_Ending
begin

text \<open>
  Two kinds of jobs that no operation ever gets out of: a spooled job that is no longer pending
  and was never started is never started, and a job that was aborted while its processes were
  set up keeps job-outgoing. What every operation but the start of a job leaves alone.
\<close>

subsection \<open>Jobs that never leave their condition\<close>

text \<open>A spooled job that is past PENDING and was never started: Start refuses it, and the engine starts only pending jobs.\<close>

definition passed_over :: "job \<Rightarrow> bool" where
  "passed_over job \<longleftrightarrow> document_filename job \<noteq> None \<and> jb_state job \<noteq> PD_JOB_STATE_PENDING \<and> never_started job"

text \<open>A job whose backend could not be started: job-outgoing was set before, and nothing will remove it.\<close>

definition start_failed :: "job \<Rightarrow> bool" where
  "start_failed job \<longleftrightarrow> document_filename job \<noteq> None \<and> jb_state job \<noteq> PD_JOB_STATE_PENDING
     \<and> \<not> jp_started (backend job) \<and> outgoing_first job"

subsection \<open>What every operation but the start of a job leaves alone\<close>

definition tame :: "job \<Rightarrow> job \<Rightarrow> bool" where
  "tame job j \<longleftrightarrow> job_ok j \<and> jb_id j = jb_id job \<and> jb_printer j = jb_printer job
     \<and> (jb_watched_reasons j \<longrightarrow> jb_watched_reasons job)
     \<and> (outgoing j \<longrightarrow> outgoing job \<and> (jb_watched_reasons job \<longrightarrow> jb_watched_reasons j))
     \<and> (never_started job \<longrightarrow> never_started j) \<and> (passed_over job \<longrightarrow> passed_over j) \<and> (start_failed job \<longrightarrow> start_failed j)
     \<and> winds job j"

text \<open>For a spooled job, which keeps its spool file, this comes down to these facts.\<close>

lemma tameI:
  assumes "job_ok job" and "job_ok j" and "jb_id j = jb_id job" and "jb_printer j = jb_printer job"
    and "jb_watched_reasons j = jb_watched_reasons job"
    and "job_outgoing \<notin> set (jb_state_reasons job) \<Longrightarrow> job_outgoing \<notin> set (jb_state_reasons j)"
    and "never_started job \<Longrightarrow> never_started j"
    and "document_filename job \<noteq> None \<Longrightarrow> document_filename j = document_filename job
      \<and> (jb_state job \<noteq> PD_JOB_STATE_PENDING \<longrightarrow> jb_state j \<noteq> PD_JOB_STATE_PENDING)"
    and "document_filename job \<noteq> None \<Longrightarrow> outgoing_first job \<Longrightarrow> \<not> jp_started (backend job)
      \<Longrightarrow> outgoing_first j \<and> \<not> jp_started (backend j)"
    and "winds job j"
  shows "tame job j"
  unfolding tame_def
proof (intro conjI impI)
  show "passed_over j" if "passed_over job" using that assms(7,8) unfolding passed_over_def by metis
  show "start_failed j" if "start_failed job" using that assms(8,9) unfolding start_failed_def by metis
  show "outgoing job" if "outgoing j" using that assms(6) unfolding outgoing_def by blast
qed (use assms in simp_all)

lemma tame_refl: "job_ok job \<Longrightarrow> tame job job"
  by (simp add: tame_def winds_refl)

lemma tame_trans: "tame a b \<Longrightarrow> tame b c \<Longrightarrow> tame a c"
  unfolding tame_def using winds_trans by metis

text \<open>Callbacks reach only jobs that were started; for those never_started is no concern.\<close>

lemma tame_callback:
  assumes "job_ok job" and "\<not> never_started job" and "job_ok j" and "jkey j = jkey job"
    and "jb_watched_reasons j = jb_watched_reasons job"
    and "job_outgoing \<notin> set (jb_state_reasons job) \<Longrightarrow> job_outgoing \<notin> set (jb_state_reasons j)"
    and "jb_state j = jb_state job \<or> jb_state j \<noteq> PD_JOB_STATE_PENDING"
    and "outgoing_first job \<Longrightarrow> \<not> jp_started (backend job) \<Longrightarrow> outgoing_first j"
    and "jp_started (backend j) = jp_started (backend job)" and "winds job j"
  shows "tame job j"
  using assms by (intro tameI) (auto simp: jkey_def)

subsection \<open>The callbacks\<close>

lemma cancel_started [simp]:
  "jp_started (backend (pd_job_impl_do_cancel_with_reason s r job)) = jp_started (backend job)"
  by (cases rule: cancel_cases [of s r job]) simp_all

lemma watch_channel_started: "watch_channel r fd w job = Some j \<Longrightarrow> jp_started (backend j) = jp_started (backend job)"
  by (auto simp: watch_channel_Some split: if_splits)

lemma sources_started [simp]:
  "jp_started (backend (clear_source r i job)) = jp_started (backend job)"
  "jp_started (backend (set_channel r i c job)) = jp_started (backend job)"
  by (simp_all add: clear_source_def set_channel_def)

lemma data_in_started: "data_io_cb_in this outcome job = Some (j, keep) \<Longrightarrow> jp_started (backend j) = jp_started (backend job)"
  by (auto simp: data_io_cb_in_def Let_def dest!: watch_channel_started split: read_outcome.splits if_splits)

lemma data_sent_started: "data_sent this next n job = Some (j, keep) \<Longrightarrow> jp_started (backend j) = jp_started (backend job)"
  by (auto simp: data_sent_def Let_def dest!: watch_channel_started split: if_splits)

lemma data_out_started: "data_io_cb_out this outcome job = Some (j, keep) \<Longrightarrow> jp_started (backend j) = jp_started (backend job)"
  by (auto simp: data_io_cb_out_def dest!: data_sent_started split: write_outcome.splits option.splits if_splits)

lemma jkey_watched: "jkey j = jkey job \<Longrightarrow> jb_watched_reasons j = jb_watched_reasons job"
  by (simp add: jkey_def)

lemma outgoing_firstI: "outgoing_first job \<Longrightarrow> \<exists>rs. jb_state_reasons job = job_outgoing # rs"
  by (simp add: outgoing_first_def)

lemma tame_process_watch:
  assumes ok: "job_ok job" and r: "valid_ref r job" and w: "jp_process_watch (get_jp r job)"
  shows "tame job (pd_job_impl_process_watch_cb r st job)"
proof (rule tame_callback [OF ok])
  from ok have i: "job_inv job" by (simp add: job_ok_def)
  from job_inv_process_ok [OF i r] w have s: "jp_started (get_jp r job)" by (simp add: process_ok_def running_def)
  show "\<not> never_started job" using never_started_unwatched(1) [OF _ r] w by blast
  show "job_ok (pd_job_impl_process_watch_cb r st job)" by (rule job_ok_process_watch [OF assms])
  show "job_outgoing \<notin> set (jb_state_reasons (pd_job_impl_process_watch_cb r st job))"
    if "job_outgoing \<notin> set (jb_state_reasons job)"
    using that by (intro unset.process_watch) simp_all
  show "jb_state (pd_job_impl_process_watch_cb r st job) = jb_state job
      \<or> jb_state (pd_job_impl_process_watch_cb r st job) \<noteq> PD_JOB_STATE_PENDING"
    by (rule process_watch_not_pending [OF i r s])
  show "outgoing_first (pd_job_impl_process_watch_cb r st job)" if "outgoing_first job" "\<not> jp_started (backend job)"
    using that s unfolding outgoing_first_def by (intro first.process_watch) auto
  show "jb_watched_reasons (pd_job_impl_process_watch_cb r st job) = jb_watched_reasons job"
    by (rule jkey_watched [OF jkey_process_watch])
  show "winds job (pd_job_impl_process_watch_cb r st job)" by (rule winds_process_watch [OF i r])
qed simp_all

lemma tame_data_in:
  assumes "job_ok job" and "data_io_cb_in this outcome job = Some (j, keep)" and "valid_ref this job"
    and "jp_io_source (get_jp this job) i \<noteq> None" and "read_ok outcome"
  shows "tame job j"
proof (rule tame_callback [OF assms(1)])
  show "\<not> never_started job" using never_started_unwatched(2) [OF _ assms(3)] assms(4) by auto
  show "job_ok j" using assms(5) by (intro job_ok_data_in [OF assms(2,1,3,4)]) simp
  show k: "jkey j = jkey job" by (rule jkey_data_in [OF assms(2)])
  show "jb_watched_reasons j = jb_watched_reasons job" by (rule jkey_watched [OF k])
  show "job_outgoing \<notin> set (jb_state_reasons j)" if "job_outgoing \<notin> set (jb_state_reasons job)"
    by (rule unset.data_in [OF assms(2) that])
  show "jp_started (backend j) = jp_started (backend job)" by (rule data_in_started [OF assms(2)])
  show "winds job j" by (rule winds_data_in [OF assms(2)])
  show "jb_state j = jb_state job \<or> jb_state j \<noteq> PD_JOB_STATE_PENDING" using data_in_state [OF assms(2)] by auto
  show "outgoing_first j" if "outgoing_first job"
    using first.data_in [OF assms(2)] that by (simp add: outgoing_first_def)
qed

lemma tame_data_out:
  assumes "job_ok job" and "data_io_cb_out this outcome job = Some (j, keep)" and "valid_ref this job"
    and "jp_io_source (get_jp this job) i \<noteq> None" and "write_ok outcome job"
  shows "tame job j"
proof (rule tame_callback [OF assms(1)])
  show "\<not> never_started job" using never_started_unwatched(2) [OF _ assms(3)] assms(4) by auto
  show "job_ok j" by (rule job_ok_data_out [OF assms(2,1,3-5)])
  show k: "jkey j = jkey job" by (rule jkey_data_out [OF assms(2)])
  show "jb_watched_reasons j = jb_watched_reasons job" by (rule jkey_watched [OF k])
  show "job_outgoing \<notin> set (jb_state_reasons j)" if "job_outgoing \<notin> set (jb_state_reasons job)"
    by (rule unset.data_out [OF assms(2) that])
  show "jp_started (backend j) = jp_started (backend job)" by (rule data_out_started [OF assms(2)])
  show "winds job j" by (rule winds_data_out [OF assms(2)])
  show "jb_state j = jb_state job \<or> jb_state j \<noteq> PD_JOB_STATE_PENDING" using data_out_state [OF assms(2)] by auto
  show "outgoing_first j" if "outgoing_first job"
    using first.data_out [OF assms(2)] that by (simp add: outgoing_first_def)
qed

lemma message_started: "message_io_cb G this fd ls st job = (j, rs, keep) \<Longrightarrow> jp_started (backend j) = jp_started (backend job)"
  by (auto simp: message_io_cb_def Let_def split: line_end.splits)

lemma tame_message:
  assumes "job_ok job" and "message_io_cb G this fd ls st job = (j, rs, keep)" and "valid_ref this job"
    and "jp_io_source (get_jp this job) fd \<noteq> None"
  shows "tame job j"
proof (rule tame_callback [OF assms(1)])
  show "\<not> never_started job" using never_started_unwatched(2) [OF _ assms(3)] assms(4) by auto
  show "job_ok j" by (rule job_ok_message [OF assms(2,1,3,4)])
  show k: "jkey j = jkey job" by (rule jkey_message [OF assms(2)])
  show "jb_watched_reasons j = jb_watched_reasons job" by (rule jkey_watched [OF k])
  show "job_outgoing \<notin> set (jb_state_reasons j)" if "job_outgoing \<notin> set (jb_state_reasons job)"
    by (rule unset.message [OF assms(2) that])
  show "jp_started (backend j) = jp_started (backend job)" by (rule message_started [OF assms(2)])
  show "winds job j" by (rule winds_message [OF assms(2)])
  show "jb_state j = jb_state job \<or> jb_state j \<noteq> PD_JOB_STATE_PENDING" using message_state [OF assms(2)] by auto
  show "outgoing_first j" if "outgoing_first job"
    using first.message [OF assms(2)] that by (simp add: outgoing_first_def)
qed

subsection \<open>The methods and the handlers\<close>

lemma never_started_document:
  "never_started job \<Longrightarrow> never_started (fst (pd_job_impl_add_document d u fds options h job))"
  by (auto simp: pd_job_impl_add_document_def Let_def note_format_def never_started_def split: option.split prod.split)

lemma document_frame:
  "jb_state (fst (pd_job_impl_add_document d u fds options h job)) = jb_state job"
  "document_filename (fst (pd_job_impl_add_document d u fds options h job)) = document_filename job"
  "backend (fst (pd_job_impl_add_document d u fds options h job)) = backend job"
  by (auto simp: pd_job_impl_add_document_def Let_def note_format_def split: option.split prod.split)

lemma tame_add_document: "job_ok job \<Longrightarrow> tame job (fst (pd_job_impl_add_document d u fds options h job))"
  by (rule tameI) (simp_all add: job_ok_add_document document_effect document_frame never_started_document unset.document
      outgoing_first_def first.document winds_document)

lemma never_started_cancel:
  assumes "never_started job" and "r \<noteq> job_outgoing" and "r \<noteq> ''job-transforming''"
  shows "never_started (pd_job_impl_do_cancel_with_reason s r job)"
proof (cases rule: cancel_cases [of s r job])
  case (killing j)
  with never_started_idle [OF assms(1)] show ?thesis by blast
qed (use assms in simp_all)

lemma tame_cancel:
  assumes "job_ok job" and "job_terminal s" and "r \<noteq> job_outgoing" and "r \<noteq> ''job-transforming''"
  shows "tame job (pd_job_impl_do_cancel_with_reason s r job)"
proof (rule tameI [OF assms(1) job_ok_cancel [OF assms]])
  have k: "jkey (pd_job_impl_do_cancel_with_reason s r job) = jkey job" by simp
  then show "jb_id (pd_job_impl_do_cancel_with_reason s r job) = jb_id job"
    "jb_printer (pd_job_impl_do_cancel_with_reason s r job) = jb_printer job"
    "jb_watched_reasons (pd_job_impl_do_cancel_with_reason s r job) = jb_watched_reasons job"
    by (simp_all only: jkey_def prod.inject)
  show "never_started (pd_job_impl_do_cancel_with_reason s r job)" if "never_started job"
    using never_started_cancel that assms by blast
  have "s \<noteq> PD_JOB_STATE_PENDING" using assms(2) by auto
  with cancel_state [of s r job]
  show "document_filename (pd_job_impl_do_cancel_with_reason s r job) = document_filename job
      \<and> (jb_state job \<noteq> PD_JOB_STATE_PENDING \<longrightarrow> jb_state (pd_job_impl_do_cancel_with_reason s r job) \<noteq> PD_JOB_STATE_PENDING)"
    by auto
qed (use assms in \<open>simp_all add: unset.cancel outgoing_first_def first.cancel winds_cancel\<close>)

lemma tame_check: "job_ok job \<Longrightarrow> tame job (snd (pd_job_impl_check_job_transforming job))"
proof (rule tameI)
  have "jkey (snd (pd_job_impl_check_job_transforming job)) = jkey job" by simp
  then show "jb_id (snd (pd_job_impl_check_job_transforming job)) = jb_id job"
    "jb_printer (snd (pd_job_impl_check_job_transforming job)) = jb_printer job"
    "jb_watched_reasons (snd (pd_job_impl_check_job_transforming job)) = jb_watched_reasons job"
    by (simp_all only: jkey_def prod.inject)
qed (simp_all add: unset.check outgoing_first_def first.check winds_check)

lemma tame_cancel_method: "job_ok job \<Longrightarrow> tame job (fst (pd_job_impl_cancel d u job))"
proof (cases "allowed d u ''org.freedesktop.printerd.job-cancel'' job")
  case True
  assume ok: "job_ok job"
  have c: "tame job (fst (cancel_by_user j))" if "tame job j" for j
  proof -
    from that have "job_ok j" by (simp add: tame_def)
    then have "tame j (fst (cancel_by_user j))" by (simp add: cancel_by_user_def tame_cancel)
    with that show ?thesis by (rule tame_trans)
  qed
  show ?thesis
    using c [OF tame_refl [OF ok]] c [OF tame_check [OF ok]] tame_check [OF ok] tame_refl [OF ok]
    by (simp add: cancel_allowed [OF True])
next
  case False
  assume "job_ok job"
  with cancel_refused [OF False] show ?thesis by (auto intro: tame_refl)
qed

lemma never_started_start:
  assumes "never_started job" and "job_inv job" and "pd_job_impl_start d u sp printer job = Some (j, rs)"
  shows "never_started j"
  using assms(2)
proof (cases rule: start_cases [where d = d and u = u and sp = sp and printer = printer])
  case (started spoolfd spool_name)
  obtain job2 where j2: "pd_job_impl_start d u sp printer job = Some (start_result sp (requested_type printer job) spool_name job2)"
    "jb_state_reasons job2 = jb_state_reasons job" "unspooled job2 = unspooled job"
    by (rule start_allowed [OF started(1) assms(2) started(2,3)])
  have "never_started job2" using never_started_cong [OF j2(3,2)] assms(1) by simp
  with j2(1) assms(3) show ?thesis by (auto simp: start_result_def never_started_cancel split: if_splits)
qed (use assms in auto)

text \<open>Start refuses a job that has a spool file already.\<close>

lemma start_spooled:
  assumes "job_ok job" and "document_filename job \<noteq> None" and "pd_job_impl_start d u sp printer job = Some (j, rs)"
  shows "j = job"
proof -
  from assms(1) have i: "job_inv job" by (simp add: job_ok_def)
  with assms(2) have "document_fd job = -1" by (auto simp: job_inv_def)
  with i show ?thesis
    by (cases rule: start_cases [where d = d and u = u and sp = sp and printer = printer]) (use assms(3) in auto)
qed

lemma tame_start_method:
  assumes "job_ok job" and "pd_job_impl_start d u sp printer job = Some (j, rs)"
  shows "tame job j"
proof -
  from assms(1) have i: "job_inv job" by (simp add: job_ok_def)
  show ?thesis
  proof (rule tameI [OF assms(1)])
    show "never_started j" if "never_started job" by (rule never_started_start [OF that i assms(2)])
    show "winds job j"
    proof (cases "document_filename job")
      case None
      with assms(1) have "never_started job" by (simp add: job_ok_def)
      with never_started_start [OF this i assms(2)] show ?thesis
        by (intro winds_unsent) (simp_all add: never_started_def fresh_process_def)
    next
      case Some
      with start_spooled [OF assms(1) _ assms(2)] show ?thesis by (simp add: winds_refl)
    qed
  qed (use start_method_effect [OF assms] unset.start_method [OF _ i assms(2)] start_spooled [OF assms(1) _ assms(2)] in auto)
qed

lemma tame_state_notify: "job_ok job \<Longrightarrow> tame job (pd_job_impl_job_state_notify job)"
proof (rule tameI)
  have k: "jkey (pd_job_impl_job_state_notify job) = jkey job" by simp
  then show "jb_id (pd_job_impl_job_state_notify job) = jb_id job" "jb_printer (pd_job_impl_job_state_notify job) = jb_printer job"
    "jb_watched_reasons (pd_job_impl_job_state_notify job) = jb_watched_reasons job"
    by (simp_all only: jkey_def prod.inject)
  show "never_started job \<Longrightarrow> never_started (pd_job_impl_job_state_notify job)"
  proof -
    assume n: "never_started job"
    let ?j = "pd_job_impl_remove_state_reason (pd_job_impl_remove_state_reason job ''job-incoming'') ''processing-to-stop-point''"
    have "never_started ?j" using n by simp
    then have "never_started (?j\<lparr>jb_watched_impl := False\<rparr>)" unfolding never_started_def by simp
    with n show ?thesis by (simp add: pd_job_impl_job_state_notify_def)
  qed
  show "document_filename (pd_job_impl_job_state_notify job) = document_filename job
      \<and> (jb_state job \<noteq> PD_JOB_STATE_PENDING \<longrightarrow> jb_state (pd_job_impl_job_state_notify job) \<noteq> PD_JOB_STATE_PENDING)"
    and "outgoing_first job \<Longrightarrow> \<not> jp_started (backend job)
      \<Longrightarrow> outgoing_first (pd_job_impl_job_state_notify job) \<and> \<not> jp_started (backend (pd_job_impl_job_state_notify job))"
    using first.state_notify by (simp_all add: outgoing_first_def) (simp_all add: pd_job_impl_job_state_notify_def)
qed (simp_all add: unset.state_notify winds_state_notify)

text \<open>Fields that none of this looks at.\<close>

lemma tame_upd:
  assumes "job_ok job"
  shows "tame job (job\<lparr>jb_watched_engine := x\<rparr>)" and "tame job (job\<lparr>jb_watched_printer := x\<rparr>)"
    and "tame job (job\<lparr>jb_watched_engine := x, jb_watched_printer := y\<rparr>)"
    and "tame job (job\<lparr>jb_notify_state := x\<rparr>)" and "tame job (job\<lparr>jb_notify_reasons := x\<rparr>)"
  using assms by (auto intro!: tameI winds_upd simp: outgoing_first_def never_started_def)

text \<open>The engine stops watching a job that is not outgoing.\<close>

lemma tame_unwatch: "job_ok job \<Longrightarrow> \<not> outgoing job \<Longrightarrow> tame job (job\<lparr>jb_watched_reasons := False\<rparr>)"
  by (auto simp: tame_def outgoing_def passed_over_def start_failed_def outgoing_first_def never_started_def winds_upd)

text \<open>A pending job that becomes PROCESSING without being sent.\<close>

lemma pending_never_started: "job_ok job \<Longrightarrow> jb_state job = PD_JOB_STATE_PENDING \<Longrightarrow> never_started job"
  by (simp add: job_ok_def)

lemma winds_processing: "jb_state job = PD_JOB_STATE_PENDING \<Longrightarrow> winds job (pd_job_set_state PD_JOB_STATE_PROCESSING job)"
  by (rule windsI) simp_all

lemma tame_processing: "job_ok job \<Longrightarrow> jb_state job = PD_JOB_STATE_PENDING \<Longrightarrow> tame job (pd_job_set_state PD_JOB_STATE_PROCESSING job)"
proof (rule tameI)
  have k: "jkey (pd_job_set_state PD_JOB_STATE_PROCESSING job) = jkey job" by simp
  then show "jb_id (pd_job_set_state PD_JOB_STATE_PROCESSING job) = jb_id job"
    "jb_printer (pd_job_set_state PD_JOB_STATE_PROCESSING job) = jb_printer job"
    "jb_watched_reasons (pd_job_set_state PD_JOB_STATE_PROCESSING job) = jb_watched_reasons job"
    by (simp_all only: jkey_def prod.inject)
qed (simp_all add: job_ok_set_state outgoing_first_def winds_processing)

lemma pending_passed_over:
  assumes "job_ok job" and "jb_state job = PD_JOB_STATE_PENDING"
  shows "passed_over (pd_job_set_state PD_JOB_STATE_PROCESSING job)"
  using assms by (simp add: passed_over_def job_ok_def)

subsection \<open>The start of a job\<close>

lemma startable_pending:
  assumes "job_ok job" and "jb_state job = PD_JOB_STATE_PENDING"
  shows "startable (pd_job_set_state PD_JOB_STATE_PROCESSING job)"
  using assms by (simp add: startable_def job_ok_def never_started_def) (simp add: pd_job_set_state_def)

text \<open>Without other reasons job-outgoing is the first one, so a start that fails is never repaired.\<close>

lemma start_sending_fails_or_runs:
  assumes "job_ok job" and "jb_state job = PD_JOB_STATE_PENDING" and "jb_state_reasons job = []" and "os_ok env"
    and "j = pd_job_impl_start_sending G env printer (pd_job_set_state PD_JOB_STATE_PROCESSING job)"
  shows "outgoing j \<and> (jb_state j = PD_JOB_STATE_ABORTED \<and> start_failed j
      \<or> all_up G env (pd_job_set_state PD_JOB_STATE_PROCESSING job) j)"
proof -
  let ?job = "pd_job_set_state PD_JOB_STATE_PROCESSING job"
  have rs: "jb_state_reasons ?job = []" using assms(3) by simp
  note c = start_sending_cases [OF startable_pending [OF assms(1,2)] assms(4,5), unfolded rs]
  then have f: "outgoing_first j" by (auto simp: outgoing_first_def)
  have "jkey j = jkey ?job" by (simp add: assms(5))
  then have "document_filename j \<noteq> None" using assms(1,2) by (simp add: jkey_def job_ok_def)
  with c f show ?thesis by (auto simp: start_failed_def outgoing_def)
qed

end
