(* ===== verification/Pd_System.thy ===== *)
theory Pd_System
  imports Pd_Service Pd_Job_Sending
begin

text \<open>
  The daemon as a transition system: method calls, events of udev, exits of processes, data and
  messages on their pipes, and the notifications that objects emit after their properties were
  set. The invariant of its reachable states, and what becomes of a job that the engine passes
  over and of a queue whose job could not be started.
\<close>

subsection \<open>Steps\<close>

text \<open>
  A handler freezes the notifications of its object, and they are emitted when it is done. The
  handlers of a signal run in the order in which they were connected: for the state of a job,
  its own, that of the engine and that of the printer. One that was disconnected does not run.
\<close>

definition emit_job_state :: "glib \<Rightarrow> os_env \<Rightarrow> nat \<Rightarrow> world \<Rightarrow> world" where
  "emit_job_state G env j w =
     (case w_jobs w j of
        None \<Rightarrow> w
      | Some job \<Rightarrow>
          (let w0 = upd_job j (jb_notify_state_update (\<lambda>_. False)) w;
               w1 = (if jb_watched_impl job then upd_job j pd_job_impl_job_state_notify w0 else w0);
               w2 = (if jb_watched_engine job then pd_engine_job_state_notify G env j w1 else w1) in
           if jb_watched_printer job then pd_printer_impl_job_state_notify j w2 else w2))"

definition emit_job_reasons :: "nat \<Rightarrow> world \<Rightarrow> world" where
  "emit_job_reasons j w =
     (case w_jobs w j of
        None \<Rightarrow> w
      | Some job \<Rightarrow>
          (let w0 = upd_job j (jb_notify_reasons_update (\<lambda>_. False)) w in
           if jb_watched_reasons job then pd_engine_job_state_reasons_notify j w0 else w0))"

definition emit_printer_state :: "glib \<Rightarrow> os_env \<Rightarrow> nat \<Rightarrow> world \<Rightarrow> world" where
  "emit_printer_state G env p w =
     (case w_printers w p of
        None \<Rightarrow> w
      | Some printer \<Rightarrow>
          (let w0 = upd_printer p (prn_notify_state_update (\<lambda>_. False)) w in
           if prn_watched printer then pd_engine_printer_state_notify G env p w0 else w0))"

text \<open>The signals of a job for the state reasons of its printer.\<close>

fun emit_printer_reason :: "nat \<Rightarrow> printer_reason \<Rightarrow> world \<Rightarrow> world" where
  "emit_printer_reason p (Add_printer_state_reason r) w = pd_printer_impl_job_add_state_reason r p w"
| "emit_printer_reason p (Remove_printer_state_reason r) w = pd_printer_impl_job_remove_state_reason r p w"

text \<open>
  A callback runs while its source is installed. What the system says of the number of bytes read
  and written is in read_ok and write_ok; pipes have proper descriptors (os_ok).
\<close>

inductive daemon_step :: "glib \<Rightarrow> world \<Rightarrow> world \<Rightarrow> bool" for G where
  step_call: "service_ok s \<Longrightarrow> serve G s path call w = Some (w', rs) \<Longrightarrow> daemon_step G w w'"
| step_uevent: "daemon_step G w (pd_engine_handle_uevent G action u w)"
| step_exit: "w_jobs w j = Some job \<Longrightarrow> valid_ref r job \<Longrightarrow> jp_process_watch (get_jp r job) \<Longrightarrow>
    daemon_step G w (upd_job j (pd_job_impl_process_watch_cb r status) w)"
| step_read: "w_jobs w j = Some job \<Longrightarrow> valid_ref r job \<Longrightarrow> jp_io_source (get_jp r job) STDOUT_FILENO = Some Data_in \<Longrightarrow>
    read_ok outcome \<Longrightarrow> data_io_cb_in r outcome job = Some (job', keep) \<Longrightarrow> daemon_step G w (upd_job j (\<lambda>_. job') w)"
| step_write: "w_jobs w j = Some job \<Longrightarrow> valid_ref r job \<Longrightarrow> jp_io_source (get_jp r job) STDIN_FILENO = Some Data_out \<Longrightarrow>
    write_ok outcome job \<Longrightarrow> data_io_cb_out r outcome job = Some (job', keep) \<Longrightarrow> daemon_step G w (upd_job j (\<lambda>_. job') w)"
| step_message: "w_jobs w j = Some job \<Longrightarrow> valid_ref r job \<Longrightarrow> jp_io_source (get_jp r job) fd = Some Message_in \<Longrightarrow>
    message_io_cb G r fd read_lines status job = (job', emitted, keep) \<Longrightarrow> j \<in> set (queue w p) \<Longrightarrow>
    daemon_step G w (fold (emit_printer_reason p) emitted (upd_job j (\<lambda>_. job') w))"
| step_job_state: "w_jobs w j = Some job \<Longrightarrow> jb_notify_state job \<Longrightarrow> os_ok env \<Longrightarrow> daemon_step G w (emit_job_state G env j w)"
| step_job_reasons: "w_jobs w j = Some job \<Longrightarrow> jb_notify_reasons job \<Longrightarrow> daemon_step G w (emit_job_reasons j w)"
| step_printer_state: "w_printers w p = Some prn \<Longrightarrow> prn_notify_state prn \<Longrightarrow> os_ok env \<Longrightarrow>
    daemon_step G w (emit_printer_state G env p w)"

abbreviation daemon_steps :: "glib \<Rightarrow> world \<Rightarrow> world \<Rightarrow> bool" where
  "daemon_steps G \<equiv> (daemon_step G)\<^sup>*\<^sup>*"

subsection \<open>The invariant\<close>

definition watched :: "world \<Rightarrow> nat \<Rightarrow> bool" where
  "watched w j \<longleftrightarrow> (case w_jobs w j of None \<Rightarrow> False | Some job \<Rightarrow> jb_watched_reasons job)"

definition sending :: "world \<Rightarrow> nat \<Rightarrow> bool" where
  "sending w p \<longleftrightarrow> (case w_printers w p of None \<Rightarrow> False | Some prn \<Rightarrow> prn_job_outgoing prn)"

text \<open>A job with the reason job-outgoing is watched by the engine, and one that is being sent will end.\<close>

definition job_kept :: "job \<Rightarrow> bool" where
  "job_kept job \<longleftrightarrow> job_ok job \<and> (outgoing job \<longrightarrow> jb_watched_reasons job) \<and> ends_ok job"

definition jobs_ok :: "world \<Rightarrow> bool" where
  "jobs_ok w \<longleftrightarrow> (\<forall>j job. w_jobs w j = Some job \<longrightarrow> job_kept job)"

lemma tame_kept: "tame a b \<Longrightarrow> job_kept a \<Longrightarrow> job_kept b"
  unfolding tame_def job_kept_def using winds_ends by metis

text \<open>A printer has at most one watched job, and is marked while it has one.\<close>

definition outgoing_ok :: "world \<Rightarrow> bool" where
  "outgoing_ok w \<longleftrightarrow> (\<forall>p j. j \<in> set (queue w p) \<and> watched w j \<longrightarrow>
     sending w p \<and> (\<forall>k\<in>set (queue w p). watched w k \<longrightarrow> k = j))"

definition daemon_ok :: "world \<Rightarrow> bool" where
  "daemon_ok w \<longleftrightarrow> reg_inv w \<and> jobs_ok w \<and> outgoing_ok w"

text \<open>
  What one step can do to a job: it is tamely changed, or it was pending and its printer was not
  sending. New jobs were never started; while its printer exists a job stays in its queue, and only there.
\<close>

definition evolves :: "world \<Rightarrow> world \<Rightarrow> bool" where
  "evolves w w' \<longleftrightarrow> daemon_ok w' \<and> w_next w \<le> w_next w'
     \<and> (\<forall>p<w_next w. w_printers w' p \<noteq> None \<longrightarrow> w_printers w p \<noteq> None \<and> set (queue w p) \<subseteq> set (queue w' p))
     \<and> (\<forall>p. \<forall>j\<in>set (queue w' p). j \<in> set (queue w p) \<or> w_next w \<le> j)
     \<and> (\<forall>j job'. w_jobs w' j = Some job' \<longrightarrow>
          (case w_jobs w j of
             None \<Rightarrow> w_next w \<le> j \<and> never_started job'
           | Some job \<Rightarrow> tame job job'
               \<or> jb_state job = PD_JOB_STATE_PENDING \<and> (\<forall>p. j \<in> set (queue w p) \<longrightarrow> \<not> sending w p)))"

lemma outgoing_ok_mono:
  assumes "outgoing_ok w"
    and "\<And>p j. j \<in> set (queue w' p) \<Longrightarrow> watched w' j \<Longrightarrow> j \<in> set (queue w p) \<and> watched w j \<and> (sending w p \<longrightarrow> sending w' p)"
  shows "outgoing_ok w'"
  unfolding outgoing_ok_def
proof (intro allI impI conjI ballI)
  fix p j assume "j \<in> set (queue w' p) \<and> watched w' j"
  then have b: "j \<in> set (queue w p)" "watched w j" "sending w p \<longrightarrow> sending w' p" using assms(2) by blast+
  with assms(1) have c: "sending w p" "\<forall>k\<in>set (queue w p). watched w k \<longrightarrow> k = j" unfolding outgoing_ok_def by blast+
  with b(3) show "sending w' p" by blast
  show "k = j" if "k \<in> set (queue w' p)" "watched w' k" for k using that assms(2) c(2) by blast
qed

lemma daemon_okD:
  assumes "daemon_ok w" shows "reg_inv w" and "jobs_ok w" and "outgoing_ok w"
  using assms by (simp_all add: daemon_ok_def)

lemma job_okD: "daemon_ok w \<Longrightarrow> w_jobs w j = Some job \<Longrightarrow> job_ok job"
  by (simp add: daemon_ok_def jobs_ok_def job_kept_def)

text \<open>Tame changes of a job, and changes of a printer that keep its identifier, queue and mark.\<close>

lemma evolves_job:
  assumes ok: "daemon_ok w" and t: "\<And>job. w_jobs w j = Some job \<Longrightarrow> tame job (f job)"
  shows "evolves w (upd_job j f w)"
proof -
  note inv = daemon_okD [OF ok]
  have "reg_inv (upd_job j f w)" by (rule reg_inv_upd_job [OF inv(1)]) (use t in \<open>simp add: tame_def\<close>)
  moreover have "jobs_ok (upd_job j f w)"
    using inv(2) t unfolding jobs_ok_def by (auto intro: tame_kept)
  moreover have "watched (upd_job j f w) k \<Longrightarrow> watched w k" for k
    using t by (auto simp: watched_def tame_def split: option.splits if_splits)
  then have "outgoing_ok (upd_job j f w)"
    by (intro outgoing_ok_mono [OF inv(3)]) (simp_all add: sending_def)
  moreover have "tame a a" if "w_jobs w k = Some a" for k a using job_okD [OF ok that] by (rule tame_refl)
  ultimately show ?thesis using t by (auto simp: evolves_def daemon_ok_def split: option.split)
qed

lemma evolves_printer:
  assumes ok: "daemon_ok w" and s: "\<And>a. w_printers w p = Some a \<Longrightarrow> same_printer a (f a)"
  shows "evolves w (upd_printer p f w)"
proof -
  note inv = daemon_okD [OF ok]
  have q: "queue (upd_printer p f w) = queue w" using s by (simp add: same_printer_def)
  have "reg_inv (upd_printer p f w)" by (rule reg_inv_upd_printer [OF inv(1)]) (use s in \<open>simp add: same_printer_def\<close>)
  moreover have "jobs_ok (upd_printer p f w)" using inv(2) by (simp add: jobs_ok_def)
  moreover have "sending (upd_printer p f w) k = sending w k" for k
    using s by (auto simp: sending_def same_printer_def split: option.splits)
  then have "outgoing_ok (upd_printer p f w)"
    by (intro outgoing_ok_mono [OF inv(3)]) (simp_all add: q watched_def)
  moreover have "tame a a" if "w_jobs w k = Some a" for k a using job_okD [OF ok that] by (rule tame_refl)
  ultimately show ?thesis by (auto simp: evolves_def daemon_ok_def q split: option.split)
qed

lemma evolves_refl: "daemon_ok w \<Longrightarrow> evolves w w"
  by (auto simp: evolves_def split: option.split intro: tame_refl job_okD)

text \<open>Changes elsewhere: the jobs, the printers and their queues stay.\<close>

lemma evolves_elsewhere:
  assumes ok: "daemon_ok w" and "reg_inv w'" and "w_jobs w' = w_jobs w" and "w_printers w' = w_printers w" and "w_next w \<le> w_next w'"
  shows "evolves w w'"
proof -
  have v: "queue w' = queue w" "watched w' = watched w" "sending w' = sending w"
    using assms(3,4) by (simp_all add: queue_def watched_def sending_def fun_eq_iff)
  with outgoing_ok_mono [of w w'] daemon_okD(3) [OF ok] have "outgoing_ok w'" by simp
  then have "daemon_ok w'" using ok assms(2,3) by (simp add: daemon_ok_def jobs_ok_def job_kept_def)
  moreover have "tame a a" if "w_jobs w k = Some a" for k a using job_okD [OF ok that] by (rule tame_refl)
  ultimately show ?thesis using assms(3-5) v by (auto simp: evolves_def split: option.split)
qed

lemma device_add_frame:
  assumes "pd_engine_device_add G u w = (a, w')"
  shows "w_jobs w' = w_jobs w \<and> w_printers w' = w_printers w \<and> w_next w \<le> w_next w'"
  using assms by (auto simp: pd_engine_device_add_def Let_def split: option.splits prod.splits)

lemma uevent_frame:
  "w_jobs (pd_engine_handle_uevent G action u w) = w_jobs w \<and> w_printers (pd_engine_handle_uevent G action u w) = w_printers w
    \<and> w_next w \<le> w_next (pd_engine_handle_uevent G action u w)"
  using device_add_frame [of G u w]
  by (auto simp: pd_engine_handle_uevent_def pd_engine_device_remove_def Let_def split: option.split prod.split)

lemma evolves_uevent:
  assumes "glib_contract G" and "daemon_ok w"
  shows "evolves w (pd_engine_handle_uevent G action u w)"
  using reg_inv_uevent [OF assms(1) daemon_okD(1) [OF assms(2)]] uevent_frame [of G action u w]
  by (intro evolves_elsewhere [OF assms(2)]) simp_all

text \<open>A new printer, a removed printer, a new job.\<close>

lemma evolves_entered:
  assumes ok: "daemon_ok w" and "map_of (w_id_to_printer w) objid = None" and "set objid \<subseteq> set path_chars"
    and prn: "prn_id prn = Some objid" "prn_jobs prn = []"
  shows "evolves w (entered objid prn w)"
proof -
  note inv = daemon_okD [OF ok]
  have F: "fresh_ok w" using inv(1) by (simp add: reg_inv_def)
  note v = entered_views [OF F prn]
  have nq: "queue w (w_next w) = []" using F by (simp add: queue_def fresh_ok_def)
  have "reg_inv (entered objid prn w)" by (rule reg_inv_entered [OF inv(1)]) (fact assms)+
  moreover have "jobs_ok (entered objid prn w)" using inv(2) by (simp add: jobs_ok_def v)
  moreover have "outgoing_ok (entered objid prn w)"
  proof (rule outgoing_ok_mono [OF inv(3)])
    fix p j assume a: "j \<in> set (queue (entered objid prn w) p)" "watched (entered objid prn w) j"
    then have "p \<noteq> w_next w" using nq by (auto simp: v)
    then have "sending (entered objid prn w) p = sending w p" by (simp add: sending_def v)
    with a show "j \<in> set (queue w p) \<and> watched w j \<and> (sending w p \<longrightarrow> sending (entered objid prn w) p)"
      by (simp add: v watched_def)
  qed
  moreover have "tame a a" if "w_jobs w k = Some a" for k a using job_okD [OF ok that] by (rule tame_refl)
  ultimately show ?thesis by (auto simp: evolves_def daemon_ok_def v split: option.split)
qed

lemma tame_same_job: "same_job a b \<Longrightarrow> job_ok a \<Longrightarrow> tame a b"
  by (auto simp: same_job_def tame_upd(3))

lemma remove_printer_gone:
  assumes "reg_inv w" and "pd_engine_remove_printer G path w = Some (ok, w')"
  shows "w' = w \<or> (\<exists>i p calls. map_of (w_id_to_printer w) i = Some p \<and> gone i p calls w w')"
proof (cases "w_exported w path")
  case None
  with assms show ?thesis by (simp add: pd_engine_remove_printer_def)
next
  case (Some obj)
  then obtain p where "obj = Obj_printer p"
    using assms(2) by (cases obj) (simp_all add: pd_engine_remove_printer_def)
  with Some have e: "w_exported w path = Some (Obj_printer p)" by simp
  obtain i prn where i: "path = printer_path_of i" "i \<noteq> []" "map_of (w_id_to_printer w) i = Some p"
      "w_printers w p = Some prn" "prn_id prn = Some i"
    by (rule registered_printer [OF assms(1) e])
  from remove_printer_cases [OF assms(1) e i, of G] assms(2) i(3) show ?thesis
    by (auto split: option.splits)
qed

lemma evolves_gone:
  assumes ok: "daemon_ok w" and i: "map_of (w_id_to_printer w) i = Some p" and g: "gone i p calls w w'"
  shows "evolves w w'"
proof -
  note inv = daemon_okD [OF ok]
  from g have v: "w_printers w' = (w_printers w)(p := None)" "w_next w' = w_next w" by (simp_all add: gone_def)
  have j: "\<exists>a. w_jobs w k = Some a \<and> tame a b" if b: "w_jobs w' k = Some b" for k b
  proof -
    from b g have "k \<notin> set (queue w p)" unfolding gone_def by (metis option.distinct(1))
    with g have "rel_option same_job (w_jobs w k) (w_jobs w' k)" unfolding gone_def by metis
    with b obtain a where "w_jobs w k = Some a" "same_job a b" by (auto elim: option.rel_cases)
    with tame_same_job job_okD [OF ok] show ?thesis by blast
  qed
  have "reg_inv w'" by (rule reg_inv_gone [OF inv(1) i g])
  moreover have "jobs_ok w'"
    unfolding jobs_ok_def
  proof (intro allI impI)
    fix k b assume "w_jobs w' k = Some b"
    with j obtain a where "w_jobs w k = Some a" "tame a b" by blast
    with inv(2) show "job_kept b" unfolding jobs_ok_def using tame_kept by blast
  qed
  moreover have "outgoing_ok w'"
  proof (rule outgoing_ok_mono [OF inv(3)])
    fix q k assume a: "k \<in> set (queue w' q)" "watched w' k"
    then obtain b where b: "w_jobs w' k = Some b" "jb_watched_reasons b" by (auto simp: watched_def split: option.splits)
    with j obtain c where "w_jobs w k = Some c" "tame c b" by blast
    with b(2) have "watched w k" by (simp add: watched_def tame_def)
    moreover have "q \<noteq> p" using a(1) by (auto simp: queue_def v)
    ultimately show "k \<in> set (queue w q) \<and> watched w k \<and> (sending w q \<longrightarrow> sending w' q)"
      using a(1) by (simp add: queue_def sending_def v)
  qed
  moreover have "set (queue w q) \<subseteq> set (queue w' q)" if "w_printers w' q \<noteq> None" for q
    using that by (auto simp: queue_def v split: if_splits)
  moreover have "w_printers w q \<noteq> None" if "w_printers w' q \<noteq> None" for q
    using that by (auto simp: v split: if_splits)
  moreover have "k \<in> set (queue w q)" if "k \<in> set (queue w' q)" for q k
    using that by (auto simp: queue_def v split: if_splits)
  moreover have "case w_jobs w k of None \<Rightarrow> w_next w \<le> k \<and> never_started b
      | Some a \<Rightarrow> tame a b \<or> jb_state a = PD_JOB_STATE_PENDING \<and> (\<forall>p. k \<in> set (queue w p) \<longrightarrow> \<not> sending w p)"
    if "w_jobs w' k = Some b" for k b
    using j [OF that] by auto
  ultimately show ?thesis unfolding evolves_def daemon_ok_def v(2) by blast
qed

lemma new_job_ok:
  "job_ok (new_job G u printer name attributes n)" "never_started (new_job G u printer name attributes n)"
  "\<not> outgoing (new_job G u printer name attributes n)" "\<not> jb_watched_reasons (new_job G u printer name attributes n)"
proof -
  show ok: "job_ok (new_job G u printer name attributes n)" by (rule new_job_fields(4))
  have "document_filename (new_job G u printer name attributes n) = None" "\<not> jb_watched_reasons (new_job G u printer name attributes n)"
    by (simp_all add: new_job_def pd_job_impl_set_attribute_def pd_job_impl_init_def)
  with ok show n: "never_started (new_job G u printer name attributes n)" "\<not> jb_watched_reasons (new_job G u printer name attributes n)"
    by (simp_all add: job_ok_def)
  then show "\<not> outgoing (new_job G u printer name attributes n)" by (simp add: never_started_def outgoing_def)
qed

lemma evolves_create:
  assumes ok: "daemon_ok w" and c: "pd_printer_impl_complete_create_job G u p name attributes w = Some (w', rs)"
  shows "evolves w w'"
proof -
  note inv = daemon_okD [OF ok]
  let ?a = "w_next w" and ?n = "w_next_job_id w"
  obtain printer unsupported where prn: "w_printers w p = Some printer"
    and w': "w' = export (job_path_of ?n) (Obj_job ?a)
      (w\<lparr>w_next := Suc ?a, w_next_job_id := ?n + 1,
         w_jobs := (w_jobs w)(?a \<mapsto> new_job G u printer name attributes ?n),
         w_printers := (w_printers w)(p \<mapsto> printer\<lparr>prn_jobs := prn_jobs printer @ [?a]\<rparr>)\<rparr>)"
    by (rule create_job_cases [OF c])
  have F: "fresh_ok w" using inv(1) by (simp add: reg_inv_def)
  then have na: "w_jobs w ?a = None" by (simp add: fresh_ok_def)
  have v: "w_jobs w' = (w_jobs w)(?a \<mapsto> new_job G u printer name attributes ?n)" "w_next w' = Suc ?a"
    "w_printers w' = (w_printers w)(p \<mapsto> printer\<lparr>prn_jobs := prn_jobs printer @ [?a]\<rparr>)" by (simp_all add: w')
  have q: "queue w' k = (if k = p then queue w p @ [?a] else queue w k)" for k using prn by (simp add: queue_def v)
  have s: "sending w' k = sending w k" for k using prn by (simp add: sending_def v)
  have wt: "watched w' k \<longleftrightarrow> k \<noteq> ?a \<and> watched w k" for k by (simp add: watched_def v new_job_ok)
  have "reg_inv w'" by (rule reg_inv_create_job [OF inv(1) c])
  moreover have "jobs_ok w'" using inv(2) new_job_ok never_started_ends [OF new_job_ok(2)] unfolding jobs_ok_def job_kept_def v by simp
  moreover have "outgoing_ok w'"
    by (rule outgoing_ok_mono [OF inv(3)]) (auto simp: q s wt split: if_splits)
  moreover have "tame a a" if "w_jobs w k = Some a" for k a using job_okD [OF ok that] by (rule tame_refl)
  ultimately show ?thesis
    using new_job_ok(2) na prn by (auto simp: evolves_def daemon_ok_def v q split: option.split)
qed

subsection \<open>Starting a job\<close>

lemma queue_live:
  assumes "reg_inv w" and "j \<in> set (queue w p)"
  obtains prn job where "w_printers w p = Some prn" and "w_jobs w j = Some job" and "j \<in> set (prn_jobs prn)"
proof -
  from assms(1) have "queues_ok w" by (simp add: reg_inv_def)
  with assms(2) obtain n where "job_key w j = Some (n, printer_path_of (the (printer_id w p)))" unfolding queues_ok_def by blast
  then obtain job where "w_jobs w j = Some job" by (auto simp: job_key_def)
  moreover from assms(2) obtain prn where "w_printers w p = Some prn" "j \<in> set (prn_jobs prn)"
    by (cases "w_printers w p") (auto simp: queue_def)
  ultimately show ?thesis using that by blast
qed

lemma queue_unique: "reg_inv w \<Longrightarrow> j \<in> set (queue w p) \<Longrightarrow> j \<in> set (queue w q) \<Longrightarrow> p = q"
  by (rule queues_disjoint [of w j]) (simp_all add: reg_inv_def)

text \<open>The job as pd_engine_start_job hands it to pd_job_impl_start_sending.\<close>

definition sent_job :: "job \<Rightarrow> job" where
  "sent_job job = (pd_job_set_state PD_JOB_STATE_PROCESSING job)\<lparr>jb_watched_reasons := True\<rparr>"

lemma start_job_sends:
  assumes "w_printers w p = Some prn" and "w_jobs w j = Some job" and "\<not> prn_job_outgoing prn"
  obtains printer where "pd_engine_start_job G env p j w =
    upd_job j (\<lambda>_. pd_job_impl_start_sending G env printer (sent_job job))
      (upd_printer p (\<lambda>prn. (pd_printer_set_state PD_PRINTER_STATE_PROCESSING prn)\<lparr>prn_job_outgoing := True\<rparr>) w)"
proof -
  have "pd_job_impl_start_sending G env (Option.bind (pd_engine_get_printer_by_path G (jb_printer (sent_job job)) w3) (w_printers w3))
      (sent_job job) = pd_job_impl_start_sending G env (Option.bind (pd_engine_get_printer_by_path G (jb_printer job) w3) (w_printers w3))
      (sent_job job)" for w3
    by (simp add: sent_job_def pd_job_set_state_def)
  then show ?thesis using assms that
    by (simp add: pd_engine_start_job_def Let_def upd_job_def upd_printer_def pd_printer_set_state_def sent_job_def)
qed

lemma start_job_waits:
  assumes "w_printers w p = Some prn" and "prn_job_outgoing prn"
  shows "pd_engine_start_job G env p j w =
    upd_job j (pd_job_set_state PD_JOB_STATE_PROCESSING) (upd_printer p (pd_printer_set_state PD_PRINTER_STATE_PROCESSING) w)"
  using assms by (simp add: pd_engine_start_job_def Let_def pd_printer_set_state_def)

lemma evolves_sent:
  assumes ok: "daemon_ok w" and q: "j \<in> set (queue w p)" and job: "w_jobs w j = Some job" "jb_state job = PD_JOB_STATE_PENDING"
    and env: "os_ok env" and n: "\<not> sending w p"
  shows "evolves w (upd_job j (\<lambda>_. pd_job_impl_start_sending G env printer (sent_job job))
      (upd_printer p (\<lambda>prn. (pd_printer_set_state PD_PRINTER_STATE_PROCESSING prn)\<lparr>prn_job_outgoing := True\<rparr>) w))"
    (is "evolves w ?w'")
proof -
  let ?J = "pd_job_impl_start_sending G env printer (sent_job job)"
  let ?f = "\<lambda>prn. (pd_printer_set_state PD_PRINTER_STATE_PROCESSING prn)\<lparr>prn_job_outgoing := True\<rparr>"
  note inv = daemon_okD [OF ok]
  have ok_job: "job_ok (job\<lparr>jb_watched_reasons := True\<rparr>)" using job_okD [OF ok job(1)] by simp
  have sj: "sent_job job = pd_job_set_state PD_JOB_STATE_PROCESSING (job\<lparr>jb_watched_reasons := True\<rparr>)"
    by (simp add: sent_job_def pd_job_set_state_def)
  have J: "job_ok ?J" unfolding sj by (rule job_ok_start_sending [OF ok_job _ env]) (simp add: job)
  have "jb_state (job\<lparr>jb_watched_reasons := True\<rparr>) = PD_JOB_STATE_PENDING" using job(2) by simp
  from start_sending_cases [OF startable_pending [OF ok_job this] env refl, unfolded sj [symmetric]]
  have "\<not> jp_started (backend ?J) \<or> all_up G env (sent_job job) ?J" by blast
  then have E: "ends_ok ?J" using all_up_ends ends_ok_def by blast
  have "jkey ?J = jkey (sent_job job)" by simp
  then have k: "jb_id ?J = jb_id job" "jb_printer ?J = jb_printer job" "jb_watched_reasons ?J"
    by (simp_all add: jkey_def sent_job_def pd_job_set_state_def)
  have fq: "prn_id (?f a) = prn_id a" "prn_jobs (?f a) = prn_jobs a" for a by (simp_all add: pd_printer_set_state_def)
  then have qp: "queue (upd_printer p ?f w) = queue w" by simp
  then have qu: "queue ?w' = queue w" by simp
  have "reg_inv (upd_printer p ?f w)" using fq by (intro reg_inv_upd_printer [OF inv(1)]) simp
  then have "reg_inv ?w'" by (rule reg_inv_upd_job) (simp add: job k)
  moreover have "jobs_ok ?w'" using inv(2) J E k by (simp add: jobs_ok_def job_kept_def)
  moreover have "outgoing_ok ?w'"
    unfolding outgoing_ok_def qu
  proof (intro allI impI conjI ballI)
    fix r i assume a: "i \<in> set (queue w r) \<and> watched ?w' i"
    have idle: "\<not> watched w x" if "x \<in> set (queue w p)" for x using inv(3) n that unfolding outgoing_ok_def by blast
    have wt: "watched ?w' x \<longleftrightarrow> x = j \<or> watched w x" for x using k(3) job(1) by (simp add: watched_def)
    show "sending ?w' r"
    proof (cases "r = p")
      case True
      obtain prn job' where "w_printers w p = Some prn" by (rule queue_live [OF inv(1) q])
      then show ?thesis using True by (simp add: sending_def)
    next
      case False
      with a queue_unique [OF inv(1) q] have "i \<noteq> j" by blast
      with a wt inv(3) have "sending w r" unfolding outgoing_ok_def by blast
      with False show ?thesis by (simp add: sending_def)
    qed
    show "x = i" if x: "x \<in> set (queue w r)" "watched ?w' x" for x
    proof (cases "r = p")
      case True
      with a x(1) have "i \<in> set (queue w p)" "x \<in> set (queue w p)" by simp_all
      with idle have "\<not> watched w i" "\<not> watched w x" by blast+
      with a x(2) show ?thesis unfolding wt by blast
    next
      case False
      with queue_unique [OF inv(1) q] a x(1) have "i \<noteq> j" "x \<noteq> j" by blast+
      with a x wt inv(3) show ?thesis unfolding outgoing_ok_def by blast
    qed
  qed
  moreover have "tame a a" if "w_jobs w i = Some a" for i a using job_okD [OF ok that] by (rule tame_refl)
  moreover have "\<not> sending w r" if "j \<in> set (queue w r)" for r using n queue_unique [OF inv(1) q that] by simp
  ultimately show ?thesis using job by (auto simp: evolves_def daemon_ok_def qu qp split: option.split)
qed

lemma evolves_steps_ok: "evolves\<^sup>*\<^sup>* w w' \<Longrightarrow> daemon_ok w \<Longrightarrow> daemon_ok w'"
  by (induction rule: rtranclp_induct) (simp_all add: evolves_def)

lemma evolves_start_job:
  assumes ok: "daemon_ok w" and q: "j \<in> set (queue w p)" and job: "w_jobs w j = Some job" "jb_state job = PD_JOB_STATE_PENDING"
    and env: "os_ok env"
  shows "evolves\<^sup>*\<^sup>* w (pd_engine_start_job G env p j w)"
proof -
  obtain prn job' where prn: "w_printers w p = Some prn" by (rule queue_live [OF daemon_okD(1) [OF ok] q])
  show ?thesis
  proof (cases "prn_job_outgoing prn")
    case True
    let ?w1 = "upd_printer p (pd_printer_set_state PD_PRINTER_STATE_PROCESSING) w"
    have 1: "evolves w ?w1" by (rule evolves_printer [OF ok]) (simp add: same_printer_def pd_printer_set_state_def)
    then have ok1: "daemon_ok ?w1" by (simp add: evolves_def)
    have "evolves ?w1 (upd_job j (pd_job_set_state PD_JOB_STATE_PROCESSING) ?w1)"
      by (rule evolves_job [OF ok1]) (use job in \<open>auto intro: tame_processing job_okD [OF ok]\<close>)
    with 1 show ?thesis by (simp add: start_job_waits [OF prn True])
  next
    case False
    then have "\<not> sending w p" using prn by (simp add: sending_def)
    note e = evolves_sent [OF ok q job env this, where G = G]
    obtain printer where "pd_engine_start_job G env p j w = upd_job j (\<lambda>_. pd_job_impl_start_sending G env printer (sent_job job))
        (upd_printer p (\<lambda>prn. (pd_printer_set_state PD_PRINTER_STATE_PROCESSING prn)\<lparr>prn_job_outgoing := True\<rparr>) w)"
      by (rule start_job_sends [OF prn job(1) False])
    with e [of printer] have "evolves w (pd_engine_start_job G env p j w)" by simp
    then show ?thesis by (rule r_into_rtranclp)
  qed
qed

subsection \<open>Notifications\<close>

lemma job_in_queue:
  assumes "reg_inv w" and "w_jobs w j = Some job" and "printer_at w (jb_printer job) = Some p"
  shows "j \<in> set (queue w p)"
proof -
  from assms(1) have P: "printers_ok w" and Q: "queues_ok w" by (simp_all add: reg_inv_def)
  have key: "job_key w j = Some (jb_id job, jb_printer job)" using assms(2) by (simp add: job_key_def)
  with Q obtain q where q: "j \<in> set (queue w q)" unfolding queues_ok_def by blast
  with Q key have path: "jb_printer job = printer_path_of (the (printer_id w q))" unfolding queues_ok_def by fastforce
  from assms(3) have "w_exported w (jb_printer job) = Some (Obj_printer p)" by (simp add: printer_at_Some)
  then obtain i prn where i: "jb_printer job = printer_path_of i" "map_of (w_id_to_printer w) i = Some p"
    by (rule registered_printer [OF assms(1)])
  obtain prn' job' where "w_printers w q = Some prn'" by (rule queue_live [OF assms(1) q])
  with P obtain k where k: "printer_id w q = Some k" "map_of (w_id_to_printer w) k = Some q"
    unfolding printers_ok_def by (metis option.distinct(1))
  with path i(1) have "k = i" by simp
  with i(2) k(2) q show ?thesis by simp
qed

lemma evolves_then:
  assumes "evolves\<^sup>*\<^sup>* w w1" and "daemon_ok w1 \<Longrightarrow> evolves\<^sup>*\<^sup>* w1 w2" and "daemon_ok w"
  shows "evolves\<^sup>*\<^sup>* w w2"
  using assms(1) assms(2) [OF evolves_steps_ok [OF assms(1,3)]] by (rule rtranclp_trans)

lemma evolves_job_steps: "daemon_ok w \<Longrightarrow> (\<And>job. job_ok job \<Longrightarrow> tame job (f job)) \<Longrightarrow> evolves\<^sup>*\<^sup>* w (upd_job j f w)"
  by (rule r_into_rtranclp, rule evolves_job) (auto intro: job_okD)

lemma evolves_printer_steps: "daemon_ok w \<Longrightarrow> (\<And>a. same_printer a (f a)) \<Longrightarrow> evolves\<^sup>*\<^sup>* w (upd_printer p f w)"
  by (rule r_into_rtranclp, rule evolves_printer)

lemma evolves_engine_job_state:
  assumes ok: "daemon_ok w" and env: "os_ok env"
  shows "evolves\<^sup>*\<^sup>* w (pd_engine_job_state_notify G env j w)"
proof (cases "w_jobs w j")
  case (Some job)
  let ?w1 = "upd_job j (jb_watched_engine_update (\<lambda>_. False)) w"
  have u: "evolves\<^sup>*\<^sup>* w ?w1" by (rule evolves_job_steps [OF ok]) (rule tame_upd(1))
  show ?thesis
  proof (cases "printer_at w (jb_printer job)")
    case p: (Some p)
    have q: "j \<in> set (queue ?w1 p)" using job_in_queue [OF daemon_okD(1) [OF ok] Some p] by simp
    have s: "evolves\<^sup>*\<^sup>* w (pd_engine_start_job G env p j ?w1)" if "jb_state job = PD_JOB_STATE_PENDING"
    proof (rule evolves_then [OF u _ ok])
      assume "daemon_ok ?w1"
      then show "evolves\<^sup>*\<^sup>* ?w1 (pd_engine_start_job G env p j ?w1)"
        using q that Some env by (intro evolves_start_job [of _ _ _ "job\<lparr>jb_watched_engine := False\<rparr>"]) simp_all
    qed
    show ?thesis using Some p u s by (cases "jb_state job") (simp_all add: pd_engine_job_state_notify_def)
  qed (use Some in \<open>simp add: pd_engine_job_state_notify_def\<close>)
qed (simp add: pd_engine_job_state_notify_def)

lemma evolves_printer_job_state:
  assumes "daemon_ok w"
  shows "evolves\<^sup>*\<^sup>* w (pd_printer_impl_job_state_notify j w)"
proof -
  have "evolves\<^sup>*\<^sup>* w (upd_printer p (\<lambda>prn. if prn_state prn = PD_PRINTER_STATE_PROCESSING
      then pd_printer_set_state PD_PRINTER_STATE_IDLE prn else prn) w)" for p
    by (rule evolves_printer_steps [OF assms]) (simp add: same_printer_def pd_printer_set_state_def)
  then show ?thesis by (simp add: pd_printer_impl_job_state_notify_def split: option.split)
qed

lemma evolves_emit_job_state:
  assumes ok: "daemon_ok w" and env: "os_ok env"
  shows "evolves\<^sup>*\<^sup>* w (emit_job_state G env j w)"
proof (cases "w_jobs w j")
  case (Some job)
  let ?w0 = "upd_job j (jb_notify_state_update (\<lambda>_. False)) w"
  let ?w1 = "if jb_watched_impl job then upd_job j pd_job_impl_job_state_notify ?w0 else ?w0"
  let ?w2 = "if jb_watched_engine job then pd_engine_job_state_notify G env j ?w1 else ?w1"
  have 0: "evolves\<^sup>*\<^sup>* w ?w0" by (rule evolves_job_steps [OF ok]) (rule tame_upd(4))
  have 1: "evolves\<^sup>*\<^sup>* w ?w1"
    by (rule evolves_then [OF 0 _ ok]) (auto intro: evolves_job_steps tame_state_notify)
  have 2: "evolves\<^sup>*\<^sup>* w ?w2"
    by (rule evolves_then [OF 1 _ ok]) (auto intro: evolves_engine_job_state env)
  have "evolves\<^sup>*\<^sup>* w (if jb_watched_printer job then pd_printer_impl_job_state_notify j ?w2 else ?w2)"
    by (rule evolves_then [OF 2 _ ok]) (auto intro: evolves_printer_job_state)
  then show ?thesis by (simp add: emit_job_state_def Some Let_def)
qed (simp add: emit_job_state_def)

lemma evolves_engine_reasons:
  assumes ok: "daemon_ok w" and job: "w_jobs w j = Some job" "jb_watched_reasons job"
  shows "evolves\<^sup>*\<^sup>* w (pd_engine_job_state_reasons_notify j w)"
proof (cases "outgoing job \<or> printer_at w (jb_printer job) = None")
  case True
  then have "pd_engine_job_state_reasons_notify j w = w"
    by (auto simp: pd_engine_job_state_reasons_notify_def job outgoing_def list_ex_iff)
  then show ?thesis by simp
next
  case False
  then obtain p where p: "printer_at w (jb_printer job) = Some p" and n: "\<not> outgoing job" by blast
  let ?w1 = "upd_printer p (prn_job_outgoing_update (\<lambda>_. False)) w"
  let ?w' = "upd_job j (jb_watched_reasons_update (\<lambda>_. False)) ?w1"
  note inv = daemon_okD [OF ok]
  have e: "pd_engine_job_state_reasons_notify j w = ?w'"
    using n p by (simp add: pd_engine_job_state_reasons_notify_def job outgoing_def list_ex_iff)
  have q: "j \<in> set (queue w p)" by (rule job_in_queue [OF inv(1) job(1) p])
  have t: "tame job (job\<lparr>jb_watched_reasons := False\<rparr>)" by (rule tame_unwatch [OF job_okD [OF ok job(1)] n])
  have wt: "watched ?w' k \<longleftrightarrow> k \<noteq> j \<and> watched w k" for k using job(1) by (simp add: watched_def)
  have qu: "queue ?w' = queue w" by simp
  have "reg_inv ?w1" by (rule reg_inv_upd_printer [OF inv(1)]) simp
  then have "reg_inv ?w'" by (rule reg_inv_upd_job) simp
  moreover have "jobs_ok ?w'" using inv(2) n job(1) by (simp add: jobs_ok_def job_kept_def outgoing_def)
  moreover have "outgoing_ok ?w'"
  proof (rule outgoing_ok_mono [OF inv(3)])
    fix r k assume a: "k \<in> set (queue ?w' r)" "watched ?w' k"
    then have k: "k \<noteq> j" "watched w k" "k \<in> set (queue w r)" using wt qu by simp_all
    have "watched w j" using job by (simp add: watched_def)
    with inv(3) q k have "r \<noteq> p" unfolding outgoing_ok_def by blast
    then have "sending ?w' r = sending w r" by (simp add: sending_def)
    with k show "k \<in> set (queue w r) \<and> watched w k \<and> (sending w r \<longrightarrow> sending ?w' r)" by simp
  qed
  moreover have "tame a a" if "w_jobs w k = Some a" for k a using job_okD [OF ok that] by (rule tame_refl)
  ultimately have "evolves w ?w'" using t job by (auto simp: evolves_def daemon_ok_def split: option.split)
  then show ?thesis unfolding e by (rule r_into_rtranclp)
qed

lemma evolves_emit_job_reasons:
  assumes ok: "daemon_ok w"
  shows "evolves\<^sup>*\<^sup>* w (emit_job_reasons j w)"
proof (cases "w_jobs w j")
  case (Some job)
  let ?w0 = "upd_job j (jb_notify_reasons_update (\<lambda>_. False)) w"
  have 0: "evolves\<^sup>*\<^sup>* w ?w0" by (rule evolves_job_steps [OF ok]) (rule tame_upd(5))
  have "evolves\<^sup>*\<^sup>* w (if jb_watched_reasons job then pd_engine_job_state_reasons_notify j ?w0 else ?w0)"
    by (rule evolves_then [OF 0 _ ok]) (use Some in \<open>auto intro: evolves_engine_reasons\<close>)
  then show ?thesis by (simp add: emit_job_reasons_def Some Let_def)
qed (simp add: emit_job_reasons_def)

lemma next_job_pending:
  assumes "pd_printer_impl_get_next_job (job_state_of w) prn = Some j"
  shows "j \<in> set (prn_jobs prn) \<and> job_state_of w j = PD_JOB_STATE_PENDING"
proof -
  have "next_job_loop f xs = Some j \<Longrightarrow> j \<in> set xs \<and> f j = PD_JOB_STATE_PENDING" for f xs
    by (induction xs) (auto split: if_splits)
  with assms show ?thesis by (simp add: pd_printer_impl_get_next_job_def)
qed

lemma job_state_pending: "job_state_of w j = PD_JOB_STATE_PENDING \<Longrightarrow> \<exists>job. w_jobs w j = Some job \<and> jb_state job = PD_JOB_STATE_PENDING"
  by (simp add: job_state_of_def split: option.splits)

lemma evolves_engine_printer_state:
  assumes ok: "daemon_ok w" and env: "os_ok env"
  shows "evolves\<^sup>*\<^sup>* w (pd_engine_printer_state_notify G env p w)"
proof (cases "w_printers w p")
  case (Some prn)
  have "evolves\<^sup>*\<^sup>* w (pd_engine_start_job G env p j w)" if n: "pd_printer_impl_get_next_job (job_state_of w) prn = Some j" for j
  proof -
    from next_job_pending [OF n] Some have "j \<in> set (queue w p)" by (simp add: queue_def)
    moreover from next_job_pending [OF n] job_state_pending obtain job where
      "w_jobs w j = Some job" "jb_state job = PD_JOB_STATE_PENDING" by blast
    ultimately show ?thesis by (rule evolves_start_job [OF ok _ _ _ env])
  qed
  then show ?thesis by (simp add: pd_engine_printer_state_notify_def Some split: option.split)
qed (simp add: pd_engine_printer_state_notify_def)

lemma evolves_emit_printer_state:
  assumes ok: "daemon_ok w" and env: "os_ok env"
  shows "evolves\<^sup>*\<^sup>* w (emit_printer_state G env p w)"
proof (cases "w_printers w p")
  case (Some prn)
  let ?w0 = "upd_printer p (prn_notify_state_update (\<lambda>_. False)) w"
  have 0: "evolves\<^sup>*\<^sup>* w ?w0" by (rule evolves_printer_steps [OF ok]) (simp add: same_printer_def)
  have "evolves\<^sup>*\<^sup>* w (if prn_watched prn then pd_engine_printer_state_notify G env p ?w0 else ?w0)"
    by (rule evolves_then [OF 0 _ ok]) (auto intro: evolves_engine_printer_state env)
  then show ?thesis by (simp add: emit_printer_state_def Some Let_def)
qed (simp add: emit_printer_state_def)

lemma evolves_printer_reasons:
  assumes "daemon_ok w"
  shows "evolves\<^sup>*\<^sup>* w (fold (emit_printer_reason p) rs w)"
  using assms
proof (induction rs arbitrary: w)
  case (Cons r rs)
  have "evolves\<^sup>*\<^sup>* w (emit_printer_reason p r w)"
    by (cases r) (auto simp: pd_printer_impl_job_add_state_reason_def pd_printer_impl_job_remove_state_reason_def
        pd_printer_impl_add_state_reason_def pd_printer_impl_remove_state_reason_def same_printer_def
        intro!: evolves_printer_steps [OF Cons.prems])
  then show ?case by (simp add: evolves_then [OF _ Cons.IH Cons.prems])
qed simp

subsection \<open>Every step\<close>

lemma evolves_effect:
  assumes "glib_contract G" and ok: "daemon_ok w" and "effect G w w'"
  shows "evolves\<^sup>*\<^sup>* w w'"
  using assms(3)
proof cases
  case (effect_printer p g)
  then show ?thesis by (auto intro!: r_into_rtranclp [of evolves] evolves_printer [OF ok])
next
  case (effect_document j job d u fds options h)
  then show ?thesis by (auto intro!: r_into_rtranclp [of evolves] evolves_job [OF ok] tame_add_document job_okD [OF ok])
next
  case (effect_start j job d u sp printer job' rs)
  then show ?thesis by (auto intro!: r_into_rtranclp [of evolves] evolves_job [OF ok] intro: tame_start_method job_okD [OF ok])
next
  case (effect_cancel j job d u)
  then show ?thesis by (auto intro!: r_into_rtranclp [of evolves] evolves_job [OF ok] tame_cancel_method job_okD [OF ok])
next
  case effect_add
  then obtain objid prn g where n: "w' = upd_printer (w_next w) g (entered objid prn w)"
    "map_of (w_id_to_printer w) objid = None" "set objid \<subseteq> set path_chars" "prn_id prn = Some objid" "prn_jobs prn = []"
    "same_printer prn (g prn)" by (auto simp: with_printer_def)
  have 1: "evolves w (entered objid prn w)" by (rule evolves_entered [OF ok n(2-5)])
  then have "daemon_ok (entered objid prn w)" by (simp add: evolves_def)
  moreover have "w_printers (entered objid prn w) (w_next w) = Some prn" by (simp add: entered_def)
  ultimately have "evolves (entered objid prn w) w'" unfolding n(1) using n(6) by (intro evolves_printer) simp_all
  with 1 show ?thesis by (meson converse_rtranclp_into_rtranclp r_into_rtranclp)
next
  case (effect_remove path ok')
  from remove_printer_gone [OF daemon_okD(1) [OF ok] this] evolves_gone [OF ok] show ?thesis by (auto intro: r_into_rtranclp)
next
  case (effect_create u p name attributes rs)
  then show ?thesis by (intro r_into_rtranclp [of evolves] evolves_create [OF ok])
qed simp

lemma step_evolves:
  assumes "glib_contract G" and ok: "daemon_ok w" and "daemon_step G w w'"
  shows "evolves\<^sup>*\<^sup>* w w'"
  using assms(3)
proof cases
  case (step_call s path call rs)
  have "served G call w w' rs"
    by (rule serve_served [OF assms(1) daemon_okD(1) [OF ok] step_call(1) _ step_call(2)])
      (auto dest: job_okD [OF ok] simp: job_ok_def)
  then show ?thesis using evolves_effect [OF assms(1) ok] by blast
next
  case (step_uevent action u)
  then show ?thesis using evolves_uevent [OF assms(1) ok] by (auto intro: r_into_rtranclp)
next
  case (step_exit j job r status)
  then show ?thesis by (auto intro!: r_into_rtranclp [of evolves] evolves_job [OF ok] tame_process_watch job_okD [OF ok])
next
  case (step_read j job r outcome job' keep)
  then have "tame job job'" by (intro tame_data_in [OF job_okD [OF ok] step_read(6)]) auto
  with step_read show ?thesis by (auto intro!: r_into_rtranclp [of evolves] evolves_job [OF ok])
next
  case (step_write j job r outcome job' keep)
  then have "tame job job'" by (intro tame_data_out [OF job_okD [OF ok] step_write(6)]) auto
  with step_write show ?thesis by (auto intro!: r_into_rtranclp [of evolves] evolves_job [OF ok])
next
  case (step_message j job r fd read_lines status job' emitted keep p)
  then have "tame job job'" by (intro tame_message [OF job_okD [OF ok] step_message(5)]) auto
  with step_message have "evolves w (upd_job j (\<lambda>_. job') w)" by (auto intro!: evolves_job [OF ok])
  then have "evolves\<^sup>*\<^sup>* w (upd_job j (\<lambda>_. job') w)" by (rule r_into_rtranclp)
  from evolves_then [OF this evolves_printer_reasons ok] step_message show ?thesis by simp
next
  case (step_job_state j job env)
  then show ?thesis using evolves_emit_job_state [OF ok] by simp
next
  case (step_job_reasons j job)
  then show ?thesis using evolves_emit_job_reasons [OF ok] by simp
next
  case (step_printer_state p prn env)
  then show ?thesis using evolves_emit_printer_state [OF ok] by simp
qed

lemma daemon_ok_start: "glib_contract G \<Longrightarrow> daemon_ok (pd_engine_start G us)"
proof -
  assume G: "glib_contract G"
  have "w_jobs (fold (pd_engine_handle_uevent G ''add'') us w) = w_jobs w" for w
    using uevent_frame [of G "''add''"] by (induction us arbitrary: w) simp_all
  then have n: "w_jobs (pd_engine_start G us) j = None" for j by (simp add: pd_engine_start_def empty_world_def)
  have "outgoing_ok (pd_engine_start G us)" by (simp add: outgoing_ok_def watched_def n)
  then show ?thesis using reg_inv_start [OF G] by (simp add: daemon_ok_def jobs_ok_def n)
qed

interpretation daemon: invariant_system "\<lambda>w w'. glib_contract G \<and> daemon_step G w w'"
    "\<lambda>w. glib_contract G \<and> (\<exists>us. w = pd_engine_start G us)" daemon_ok for G
  by unfold_locales (use daemon_ok_start evolves_steps_ok step_evolves in blast)+

subsection \<open>What lasts\<close>

lemma steps_evolve:
  assumes "glib_contract G" and "daemon_steps G w w'" and "daemon_ok w"
  shows "evolves\<^sup>*\<^sup>* w w'"
  using assms(2)
proof (induction rule: rtranclp_induct)
  case (step w1 w2)
  from step_evolves [OF assms(1) evolves_steps_ok [OF step.IH assms(3)] step.hyps(2)] step.IH show ?case by simp
qed simp

lemma reachable_ok: "glib_contract G \<Longrightarrow> daemon_steps G (pd_engine_start G us) w \<Longrightarrow> daemon_ok w"
  using daemon.reachable_inv [of G "pd_engine_start G us" w] by auto

lemma reachable_steps_ok: "glib_contract G \<Longrightarrow> daemon_steps G (pd_engine_start G us) w \<Longrightarrow> daemon_steps G w w' \<Longrightarrow> daemon_ok w'"
  using reachable_ok steps_evolve evolves_steps_ok by blast

lemma live_below: "daemon_ok w \<Longrightarrow> w_jobs w j = Some job \<Longrightarrow> j < w_next w"
  "daemon_ok w \<Longrightarrow> w_printers w p = Some prn \<Longrightarrow> p < w_next w"
  by (rule ccontr, simp add: daemon_ok_def reg_inv_def fresh_ok_def)+

lemma lasts:
  assumes "evolves\<^sup>*\<^sup>* w w'" and ok: "daemon_ok w" and job: "w_jobs w j = Some job" "P job"
    and t: "\<And>a b. P a \<Longrightarrow> tame a b \<Longrightarrow> P b" and n: "\<And>a. P a \<Longrightarrow> job_ok a \<Longrightarrow> jb_state a \<noteq> PD_JOB_STATE_PENDING"
  shows "w_jobs w' j = Some job' \<Longrightarrow> P job'"
proof -
  have "daemon_ok w' \<and> w_next w \<le> w_next w' \<and> (\<forall>job'. w_jobs w' j = Some job' \<longrightarrow> P job')"
    using assms(1)
  proof (induction rule: rtranclp_induct)
    case (step w1 w2)
    then have 1: "w_next w1 \<le> w_next w2" "daemon_ok w1" "daemon_ok w2" by (simp_all add: evolves_def)
    have "P b" if b: "w_jobs w2 j = Some b" for b
    proof (cases "w_jobs w1 j")
      case None
      with b step.hyps(2) have "w_next w1 \<le> j" unfolding evolves_def by fastforce
      with live_below(1) [OF ok job(1)] step.IH show ?thesis by simp
    next
      case (Some a)
      with step.IH have a: "P a" by blast
      with n job_okD [OF 1(2) Some] have "jb_state a \<noteq> PD_JOB_STATE_PENDING" by blast
      with Some b step.hyps(2) have "tame a b" unfolding evolves_def by fastforce
      with a show ?thesis by (rule t)
    qed
    with 1 step.IH show ?case by auto
  qed (use job ok in simp)
  then show "w_jobs w' j = Some job' \<Longrightarrow> P job'" by blast
qed

lemma passed_over_lasts:
  assumes "evolves\<^sup>*\<^sup>* w w'" and "daemon_ok w" and "w_jobs w j = Some job" and "passed_over job"
  shows "\<forall>job'. w_jobs w' j = Some job' \<longrightarrow> passed_over job'"
  using lasts [where P = passed_over, OF assms] by (auto simp: tame_def passed_over_def)

lemma start_failed_sending:
  assumes "daemon_ok w" and "j \<in> set (queue w p)" and "w_jobs w j = Some job" and "start_failed job"
  shows "sending w p"
proof -
  from assms(4) have "outgoing job" by (auto simp: start_failed_def outgoing_first_def outgoing_def)
  with assms(1,3) have "watched w j" by (simp add: daemon_ok_def jobs_ok_def job_kept_def watched_def)
  with assms(1,2) show ?thesis unfolding daemon_ok_def outgoing_ok_def by blast
qed

text \<open>The queue p is blocked by the job j: no other job of it was started since w0.\<close>

definition blocked :: "world \<Rightarrow> nat \<Rightarrow> nat \<Rightarrow> world \<Rightarrow> bool" where
  "blocked w0 p j w \<longleftrightarrow> j \<in> set (queue w p) \<and> (\<exists>a. w_jobs w j = Some a \<and> start_failed a)
     \<and> (\<forall>k\<in>set (queue w p). \<forall>b. w_jobs w k = Some b \<longrightarrow>
          (\<exists>old. w_jobs w0 k = Some old \<and> \<not> never_started old) \<or> never_started b)"

lemma blocked_step:
  assumes ok: "daemon_ok w1" and e: "evolves w1 w2" and b: "blocked w0 p j w1" and p: "w_printers w2 p \<noteq> None" "p < w_next w1"
  shows "blocked w0 p j w2"
proof -
  from e have ok2: "daemon_ok w2" by (simp add: evolves_def)
  from b obtain a where a: "j \<in> set (queue w1 p)" "w_jobs w1 j = Some a" "start_failed a" by (auto simp: blocked_def)
  have j2: "j \<in> set (queue w2 p)" using e p a(1) unfolding evolves_def by blast
  obtain prn a2 where a2: "w_jobs w2 j = Some a2" by (rule queue_live [OF daemon_okD(1) [OF ok2] j2])
  have "jb_state a \<noteq> PD_JOB_STATE_PENDING" using a(3) by (simp add: start_failed_def)
  with a(2) a2 e have "tame a a2" unfolding evolves_def by fastforce
  with a(3) have f: "start_failed a2" by (simp add: tame_def)
  have s: "sending w1 p" by (rule start_failed_sending [OF ok a])
  have "(\<exists>old. w_jobs w0 k = Some old \<and> \<not> never_started old) \<or> never_started c"
    if k: "k \<in> set (queue w2 p)" and c: "w_jobs w2 k = Some c" for k c
  proof (cases "w_jobs w1 k")
    case None
    with c e show ?thesis unfolding evolves_def by fastforce
  next
    case (Some d)
    with live_below(1) [OF ok] k e have k1: "k \<in> set (queue w1 p)" unfolding evolves_def by (metis not_le)
    from e c Some k1 s have "tame d c" unfolding evolves_def by fastforce
    moreover from b k1 Some have "(\<exists>old. w_jobs w0 k = Some old \<and> \<not> never_started old) \<or> never_started d"
      by (simp add: blocked_def)
    ultimately show ?thesis by (auto simp: tame_def)
  qed
  with j2 a2 f show ?thesis by (simp add: blocked_def)
qed

lemma blocked_lasts:
  assumes "evolves\<^sup>*\<^sup>* w w'" and ok: "daemon_ok w" and p: "w_printers w p = Some prn" and b: "blocked w p j w"
    and alive: "w_printers w' p \<noteq> None"
  shows "blocked w p j w'"
proof -
  have pn: "p < w_next w" by (rule live_below(2) [OF ok p])
  have "daemon_ok w' \<and> w_next w \<le> w_next w' \<and> (w_printers w' p \<noteq> None \<longrightarrow> blocked w p j w')"
    using assms(1)
  proof (induction rule: rtranclp_induct)
    case (step w1 w2)
    then have 1: "daemon_ok w1" "p < w_next w1" "w_next w1 \<le> w_next w2" "daemon_ok w2"
      using pn by (auto simp: evolves_def)
    have "blocked w p j w2" if "w_printers w2 p \<noteq> None"
    proof -
      from that 1(2) step.hyps(2) have "w_printers w1 p \<noteq> None" unfolding evolves_def by blast
      with step.IH have "blocked w p j w1" by blast
      from blocked_step [OF 1(1) step.hyps(2) this that 1(2)] show ?thesis .
    qed
    with 1 step.IH show ?case by simp
  qed (use ok b in simp)
  with alive show ?thesis by blast
qed

end
