(* ===== verification/Pd_Queue.thy ===== *)
theory Pd_Queue
  imports Pd_System
begin

text \<open>
  What the transition system of the daemon guarantees for the queue of a printer, and what it
  does not: one job at a time is being sent; every method call is answered once, with a value of
  its type; but a job that cannot be started blocks its queue for good, and a job that becomes
  the next one while the printer is still marked as sending is never started.
\<close>

subsection \<open>A queue with documents\<close>

definition lp_service :: service where
  "lp_service = \<lparr>sv_ppd = (\<lambda>_. None), sv_daemon = lp_daemon, sv_user = lp_user ''lp'', sv_spool = lp_spool,
     sv_printer_order = id, sv_device_order = id\<rparr>"

lemma lp_service_simps [simp]:
  "sv_daemon lp_service = lp_daemon" "sv_user lp_service = lp_user ''lp''" "sv_spool lp_service = lp_spool"
  "service_ok lp_service"
  by (simp_all add: lp_service_def service_ok_def)

text \<open>A client creates a job, adds a document and starts the job: it becomes pending.\<close>

definition like_laser :: "printer \<Rightarrow> bool" where
  "like_laser prn \<longleftrightarrow> prn_id prn = Some ''Laser'' \<and> prn_supported prn = prn_supported laser \<and> prn_defaults prn = prn_defaults laser"

lemma submit:
  assumes ok: "daemon_ok w" and ex: "w_exported w (printer_path_of ''Laser'') = Some (Obj_printer p)"
    and prn: "w_printers w p = Some prn" "like_laser prn"
  obtains w' job where "daemon_steps glib_doc w w'" and "w_jobs w' = (w_jobs w)(w_next w \<mapsto> job)"
    and "jb_state job = PD_JOB_STATE_PENDING" and "jb_state_reasons job = []" and "jb_printer job = printer_path_of ''Laser''"
    and "w_printers w' = (w_printers w)(p \<mapsto> prn\<lparr>prn_jobs := prn_jobs prn @ [w_next w]\<rparr>)"
    and "w_exported w' (printer_path_of ''Laser'') = Some (Obj_printer p)"
    and "jb_watched_engine job" and "jb_notify_state job" and "jb_watched_printer job"
proof -
  note inv = daemon_okD(1) [OF ok]
  let ?a = "w_next w" and ?n = "w_next_job_id w"
  let ?allowed = "allowed lp_daemon (lp_user ''lp'')"
  have sup: "\<forall>k. lookup_string (prn_supported prn) k = None" using prn(2) by (simp add: like_laser_def init_supported_lookup)
  have def: "distinct (map fst (prn_defaults prn))" using prn(2) by (simp add: like_laser_def) (simp add: pd_printer_impl_init_def)
  obtain w1 job0 where c: "pd_printer_impl_create_job glib_doc lp_daemon (lp_user ''lp'') p ''doc'' [] w
        = Some (w1, [Reply_value (Job_value (job_path_of ?n) [])])"
    and w1: "w_jobs w1 = (w_jobs w)(?a \<mapsto> job0)" "w_exported w1 = (w_exported w)(job_path_of ?n \<mapsto> Obj_job ?a)"
      "w_printers w1 = (w_printers w)(p \<mapsto> prn\<lparr>prn_jobs := prn_jobs prn @ [?a]\<rparr>)" "w_id_to_printer w1 = w_id_to_printer w"
    and j0: "originating_user job0 = Some ''lp''" "job0 = new_job glib_doc (lp_user ''lp'') prn ''doc'' [] ?n"
    using create_job_allowed [OF glib_doc_contract inv prn(1) sup def, of "[]" lp_daemon "lp_user ''lp''" "''doc''"] by auto
  have s1: "serve glib_doc lp_service (printer_path_of ''Laser'') (CreateJob ''doc'' []) w
      = Some (w1, [Reply_value (Job_value (job_path_of ?n) [])])" using ex c by (simp add: serve_def)
  let ?fds = "\<lparr>fl_length = 1, fl_get = (\<lambda>h. (5, False))\<rparr>"
  let ?job1 = "job0\<lparr>document_fd := 5\<rparr>"
  have f0: "jb_state_reasons job0 = [''job-incoming'']" "document_fd job0 = -1" "document_filename job0 = None"
    "document_mimetype job0 = None" "jb_printer job0 = printer_path_of ''Laser''" "job_inv job0"
    using prn(2) new_job_ok(1) [of glib_doc "lp_user ''lp''" prn "''doc''" "[]" ?n]
    by (simp_all add: j0(2) like_laser_def job_ok_def)
      (simp_all add: new_job_def pd_job_impl_set_attribute_def pd_job_impl_init_def fmt_s_def)
  have wt: "jb_watched_engine ?job1" "jb_watched_printer ?job1"
    by (simp_all add: j0(2) new_job_def pd_job_impl_set_attribute_def)
  have al: "?allowed x job0" "?allowed x ?job1" for x using j0(1) by (simp_all add: allowed_def originating_user_def)
  have "pd_job_impl_add_document lp_daemon (lp_user ''lp'') (Some ?fds) [] 0 job0 = (?job1, [Reply_value Unit_value])"
    using f0 by (simp add: add_document_allowed [OF al(1)] note_format_def lookup_string_def)
  then have s2: "serve glib_doc lp_service (job_path_of ?n) (AddDocument [] 0 (Some ?fds)) w1
      = Some (upd_job ?a (\<lambda>_. ?job1) w1, [Reply_value Unit_value])"
    using w1 by (simp add: serve_def handle_job_def)
  let ?w2 = "upd_job ?a (\<lambda>_. ?job1) w1"
  have i1: "job_inv ?job1" using f0 by (simp add: job_inv_def)
  let ?prn = "prn\<lparr>prn_jobs := prn_jobs prn @ [?a]\<rparr>"
  obtain job2 where st: "pd_job_impl_start lp_daemon (lp_user ''lp'') lp_spool (Some ?prn) ?job1
        = Some (start_result lp_spool (requested_type (Some ?prn) ?job1) ''/tmp/spool'' job2)"
    and j2: "jb_state_reasons job2 = jb_state_reasons ?job1" "unspooled job2 = unspooled ?job1"
    by (rule start_allowed [OF al(2) i1 _ lp_spool_simps(1)]) simp
  have ty: "requested_type (Some ?prn) ?job1 = Some ''application/octet-stream''"
    using f0(4) prn(2) by (simp add: requested_type_def like_laser_def) (simp add: pd_printer_impl_init_def lookup_string_def)
  let ?job3 = "pd_job_set_state PD_JOB_STATE_PENDING (pd_job_impl_remove_state_reason job2 ''job-incoming'')"
  obtain i prn' where "printer_path_of ''Laser'' = printer_path_of i" "map_of (w_id_to_printer w) i = Some p"
    by (rule registered_printer [OF inv ex])
  then have "map_of (w_id_to_printer w) ''Laser'' = Some p" by simp
  then have lk: "pd_engine_get_printer_by_path glib_doc (jb_printer ?job1) ?w2 = Some p"
    using get_printer_by_path_of [OF glib_doc_contract, of "''Laser''"] w1(4) f0(5) by simp
  have s3: "serve glib_doc lp_service (job_path_of ?n) Start ?w2
      = Some (upd_job ?a (\<lambda>_. ?job3) ?w2, [Reply_value Unit_value])"
    using w1 lk st ty by (simp add: serve_def handle_job_def start_result_def)
  have d: "daemon_step glib_doc w w1" "daemon_step glib_doc w1 ?w2" "daemon_step glib_doc ?w2 (upd_job ?a (\<lambda>_. ?job3) ?w2)"
    using s1 s2 s3 by (auto intro: step_call [where s = lp_service])
  have "daemon_steps glib_doc w (upd_job ?a (\<lambda>_. ?job3) ?w2)"
    using d by (blast intro: converse_rtranclp_into_rtranclp)
  then show ?thesis
  proof (rule that [of _ ?job3])
    show "w_jobs (upd_job ?a (\<lambda>_. ?job3) ?w2) = (w_jobs w)(?a \<mapsto> ?job3)" by (simp add: fun_eq_iff w1)
    show "jb_state_reasons ?job3 = []" using j2(1) f0(1) by (simp add: job_reasons.reasons_after_remove reasons_remove_def)
    have "jkey ?job3 = jkey job2" by simp
    then show "jb_printer ?job3 = printer_path_of ''Laser''" using unspooled_fields(6) [OF j2(2)] f0(5) by (simp add: jkey_def)
    show "jb_watched_engine ?job3" "jb_watched_printer ?job3" "jb_notify_state ?job3"
      using unspooled_fields(8,9) [OF j2(2)] wt by (simp_all add: job_prop_defs)
  qed (use w1 ex in simp_all)
qed

text \<open>The office is reached by one call.\<close>

lemma office_reached: "daemon_steps glib_doc (pd_engine_start glib_doc []) office"
proof -
  have o: "pd_engine_add_printer glib_doc (\<lambda>_. None) (Some []) ''Laser'' [] [] None idle_daemon = Some (Inr 0, office)"
    using office_added [of "\<lambda>_. None"] by (simp add: pd_engine_add_printer_def lookup_string_def)
  have l: "snd (pd_printer_impl_get_id glib_doc (pd_printer_impl_do_update_defaults [] (laser\<lparr>prn_device_uris := []\<rparr>))) = laser"
    by (simp add: pd_printer_impl_get_id_def pd_printer_impl_do_update_defaults_def update_attributes_def laser_def pd_printer_impl_init_def)
  have "upd_printer 0 (\<lambda>prn. snd (pd_printer_impl_get_id glib_doc (pd_printer_impl_do_update_defaults [] (prn\<lparr>prn_device_uris := []\<rparr>)))) office = office"
    (is "?w = office")
  proof -
    have "w_printers ?w = w_printers office" using l by (simp add: fun_eq_iff)
    then show ?thesis by (simp add: upd_printer_def)
  qed
  then have "\<exists>rs. serve glib_doc lp_service manager_path (CreatePrinter [] ''Laser'' [] [] [] []) idle_daemon = Some (office, rs)"
    using o by (simp add: serve_def pd_manager_impl_create_printer_def pd_manager_impl_complete_create_printer_def
        pd_daemon_check_authorization_sync_def finish_printer_def lp_service_def Let_def lp_daemon_def)
  then have "daemon_step glib_doc idle_daemon office" by (auto intro: step_call [where s = lp_service])
  then show ?thesis unfolding idle_daemon_def by (rule r_into_rtranclp)
qed

lemma office_ok: "daemon_ok office" "like_laser laser" "w_exported office (printer_path_of ''Laser'') = Some (Obj_printer 0)"
  using reachable_ok [OF glib_doc_contract office_reached] by (simp_all add: like_laser_def)

text \<open>A start that fails because the spool file cannot be opened.\<close>

definition no_files :: os_env where
  "no_files = sample_env\<lparr>os_open := (\<lambda>_. -1)\<rparr>"

lemma no_files_ok [simp]: "os_ok no_files" "os_open no_files f = -1"
  by (simp_all add: no_files_def os_ok_def sample_env_def)

lemma start_sending_no_files:
  "filterchain job = [] \<Longrightarrow> jb_state (pd_job_impl_start_sending G no_files printer job) = PD_JOB_STATE_ABORTED"
  by (simp add: pd_job_impl_start_sending_def pd_job_impl_start_processing_def Let_def split: option.split)

lemma failed_start:
  assumes ok: "daemon_ok w" and prn: "w_printers w p = Some prn" "\<not> prn_job_outgoing prn" "j \<in> set (prn_jobs prn)"
    and job: "w_jobs w j = Some job" "jb_state job = PD_JOB_STATE_PENDING" "jb_state_reasons job = []"
  obtains job' where "w_jobs (pd_engine_start_job G no_files p j w) = (w_jobs w)(j \<mapsto> job')"
    and "w_printers (pd_engine_start_job G no_files p j w)
      = (w_printers w)(p \<mapsto> (pd_printer_set_state PD_PRINTER_STATE_PROCESSING prn)\<lparr>prn_job_outgoing := True\<rparr>)"
    and "w_exported (pd_engine_start_job G no_files p j w) = w_exported w"
    and "jb_state job' = PD_JOB_STATE_ABORTED" and "start_failed job'" and "outgoing job'" and "jb_printer job' = jb_printer job"
    and "daemon_ok (pd_engine_start_job G no_files p j w)"
proof -
  obtain printer where e: "pd_engine_start_job G no_files p j w = upd_job j (\<lambda>_. pd_job_impl_start_sending G no_files printer (sent_job job))
      (upd_printer p (\<lambda>prn. (pd_printer_set_state PD_PRINTER_STATE_PROCESSING prn)\<lparr>prn_job_outgoing := True\<rparr>) w)"
    by (rule start_job_sends [OF prn(1) job(1) prn(2)])
  let ?J = "pd_job_impl_start_sending G no_files printer (sent_job job)"
  have jo: "job_ok (job\<lparr>jb_watched_reasons := True\<rparr>)" using job_okD [OF ok job(1)] by simp
  have sj: "sent_job job = pd_job_set_state PD_JOB_STATE_PROCESSING (job\<lparr>jb_watched_reasons := True\<rparr>)"
    by (simp add: sent_job_def pd_job_set_state_def)
  have "filterchain (sent_job job) = []"
    using pending_never_started [OF job_okD [OF ok job(1)] job(2)] by (simp add: sent_job_def never_started_def)
  then have a: "jb_state ?J = PD_JOB_STATE_ABORTED" by (rule start_sending_no_files)
  have "outgoing ?J \<and> (jb_state ?J = PD_JOB_STATE_ABORTED \<and> start_failed ?J \<or> all_up G no_files (sent_job job) ?J)"
    unfolding sj using job by (intro start_sending_fails_or_runs [OF jo]) simp_all
  moreover have "\<not> all_up G no_files (sent_job job) ?J" using a by (simp add: all_up_def sent_job_def)
  moreover have "jkey ?J = jkey (sent_job job)" by simp
  then have "jb_printer ?J = jb_printer job" by (simp add: jkey_def sent_job_def pd_job_set_state_def)
  moreover have "j \<in> set (queue w p)" using prn by (simp add: queue_def)
  from evolves_steps_ok [OF evolves_start_job [OF ok this job(1,2) no_files_ok(1)] ok]
  have "daemon_ok (pd_engine_start_job G no_files p j w)" .
  ultimately show ?thesis using that a prn(1) job(1) by (simp add: e fun_eq_iff)
qed

text \<open>The notification of a pending job on an idle printer starts the job.\<close>

lemma emit_pending:
  assumes job: "w_jobs w j = Some job" "jb_state job = PD_JOB_STATE_PENDING" "jb_watched_engine job"
    and p: "printer_at w (jb_printer job) = Some p" "w_printers w p = Some prn" "prn_state prn = PD_PRINTER_STATE_IDLE"
  shows "emit_job_state G env j w =
    (let w2 = pd_engine_start_job G env p j
        (upd_job j (\<lambda>_. job\<lparr>jb_notify_state := False, jb_watched_engine := False\<rparr>) w) in
     if jb_watched_printer job then pd_printer_impl_job_state_notify j w2 else w2)"
proof -
  let ?w0 = "upd_job j (jb_notify_state_update (\<lambda>_. False)) w"
  let ?job0 = "job\<lparr>jb_notify_state := False\<rparr>"
  have w0: "?w0 = upd_job j (\<lambda>_. ?job0) w" using job(1) by (simp add: upd_job_def)
  have "pd_job_impl_job_state_notify ?job0 = ?job0" using job(2) by (simp add: pd_job_impl_job_state_notify_def)
  then have "upd_job j pd_job_impl_job_state_notify ?w0 = ?w0" using job(1) by (simp add: w0 upd_job_def)
  then have 1: "(if jb_watched_impl job then upd_job j pd_job_impl_job_state_notify ?w0 else ?w0) = ?w0" by simp
  have "upd_job j (jb_watched_engine_update (\<lambda>_. False)) ?w0
      = upd_job j (\<lambda>_. job\<lparr>jb_notify_state := False, jb_watched_engine := False\<rparr>) w"
    using job(1) by (simp add: upd_job_def)
  moreover have "printer_at ?w0 (jb_printer job) = Some p" using p(1) by (simp add: printer_at_def)
  ultimately have 2: "pd_engine_job_state_notify G env j ?w0
      = pd_engine_start_job G env p j (upd_job j (\<lambda>_. job\<lparr>jb_notify_state := False, jb_watched_engine := False\<rparr>) w)"
    using job p by (simp add: pd_engine_job_state_notify_def)
  have "emit_job_state G env j w =
    (let w2 = pd_engine_job_state_notify G env j ?w0 in if jb_watched_printer job then pd_printer_impl_job_state_notify j w2 else w2)"
    unfolding emit_job_state_def job(1) option.case Let_def 1 using job(3) by simp
  then show ?thesis unfolding 2 .
qed

text \<open>A reachable office in which the start of the only job has failed.\<close>

lemma failed_office:
  obtains w prn job where "daemon_steps glib_doc (pd_engine_start glib_doc []) w" and "daemon_ok w"
    and "w_printers w 0 = Some prn" and "like_laser prn" and "prn_jobs prn = [1]" and "prn_job_outgoing prn"
    and "w_jobs w = [1 \<mapsto> job]" and "start_failed job" and "outgoing job"
    and "w_exported w (printer_path_of ''Laser'') = Some (Obj_printer 0)"
proof -
  obtain w job where w: "daemon_steps glib_doc office w" "w_jobs w = (w_jobs office)(w_next office \<mapsto> job)"
    "jb_state job = PD_JOB_STATE_PENDING" "jb_state_reasons job = []" "jb_printer job = printer_path_of ''Laser''"
    "w_printers w = (w_printers office)(0 \<mapsto> laser\<lparr>prn_jobs := prn_jobs laser @ [w_next office]\<rparr>)"
    "w_exported w (printer_path_of ''Laser'') = Some (Obj_printer 0)" "jb_watched_engine job" "jb_notify_state job"
    by (rule submit [OF office_ok(1,3) office_simps(3) office_ok(2)])
  let ?prn = "laser\<lparr>prn_jobs := [1]\<rparr>"
  let ?job = "job\<lparr>jb_notify_state := False, jb_watched_engine := False\<rparr>"
  let ?w1 = "upd_job 1 (\<lambda>_. ?job) w"
  have ok: "daemon_ok w" by (rule evolves_steps_ok [OF steps_evolve [OF glib_doc_contract w(1) office_ok(1)] office_ok(1)])
  have j: "w_jobs w 1 = Some job" "w_jobs w = [1 \<mapsto> job]" using w(2) by (simp_all add: fun_eq_iff)
  have p: "w_printers w 0 = Some ?prn" using w(6) by simp
  have "tame job ?job" using tame_trans [OF tame_upd(4) [OF job_okD [OF ok j(1)], of False] tame_upd(1)] tame_upd(4) job_okD [OF ok j(1)]
    by (simp add: tame_def)
  then have "evolves w ?w1" using j(1) by (intro evolves_job [OF ok]) simp
  then have ok1: "daemon_ok ?w1" by (simp add: evolves_def)
  let ?w2 = "pd_engine_start_job glib_doc no_files 0 1 ?w1"
  obtain job2 where s: "w_jobs ?w2 = (w_jobs ?w1)(1 \<mapsto> job2)"
    "w_printers ?w2 = (w_printers ?w1)(0 \<mapsto> (pd_printer_set_state PD_PRINTER_STATE_PROCESSING ?prn)\<lparr>prn_job_outgoing := True\<rparr>)"
    "w_exported ?w2 = w_exported ?w1" "start_failed job2" "outgoing job2" "daemon_ok ?w2"
    by (rule failed_start [OF ok1, where p = 0 and prn = ?prn and j = 1 and job = ?job and G = glib_doc])
      (use p j(1) w(3,4) in simp_all)
  let ?w3 = "if jb_watched_printer job then pd_printer_impl_job_state_notify 1 ?w2 else ?w2"
  have "emit_job_state glib_doc no_files 1 w = ?w3"
    using emit_pending [OF j(1) w(3,8) _ p, of glib_doc no_files] w(5,7) by (simp add: printer_at_def)
  with step_job_state [OF j(1) w(9) no_files_ok(1), of glib_doc] have "daemon_step glib_doc w ?w3" by simp
  with w(1) office_reached have r: "daemon_steps glib_doc (pd_engine_start glib_doc []) ?w3" by (meson rtranclp.rtrancl_into_rtrancl rtranclp_trans)
  have e: "w_jobs ?w3 = w_jobs ?w2" "w_exported ?w3 = w_exported ?w2"
    by (auto simp: pd_printer_impl_job_state_notify_def split: option.split)
  have "\<exists>prn3. w_printers ?w3 0 = Some prn3 \<and> prn_id prn3 = prn_id ?prn \<and> prn_jobs prn3 = [1] \<and> prn_job_outgoing prn3
      \<and> prn_supported prn3 = prn_supported ?prn \<and> prn_defaults prn3 = prn_defaults ?prn"
    using s(2) by (auto simp: pd_printer_impl_job_state_notify_def pd_printer_set_state_def split: option.split)
  then obtain prn3 where "w_printers ?w3 0 = Some prn3" "like_laser prn3" "prn_jobs prn3 = [1]" "prn_job_outgoing prn3"
    by (auto simp: like_laser_def)
  moreover have "w_jobs ?w3 = [1 \<mapsto> job2]" unfolding e using s(1) j(2) by (simp add: fun_eq_iff)
  moreover have "w_exported ?w3 (printer_path_of ''Laser'') = Some (Obj_printer 0)" unfolding e s(3) using w(7) by simp
  ultimately show ?thesis using that [OF r reachable_ok [OF glib_doc_contract r]] s(4,5) by blast
qed

lemma start_job_jobs: "w_jobs (pd_engine_start_job G env p j w) k = None \<longleftrightarrow> w_jobs w k = None"
  by (simp add: pd_engine_start_job_def Let_def split: option.split)

lemma printer_state_notify_jobs: "w_jobs (pd_engine_printer_state_notify G env p w) k = None \<longleftrightarrow> w_jobs w k = None"
  by (simp add: pd_engine_printer_state_notify_def start_job_jobs split: option.split)

text \<open>The engine starts a pending job on a printer that is not marked.\<close>

definition sent_or_failed :: "job \<Rightarrow> bool" where
  "sent_or_failed job \<longleftrightarrow> outgoing job \<and> jb_watched_reasons job
     \<and> (jb_state job = PD_JOB_STATE_ABORTED \<and> start_failed job
        \<or> jb_state job = PD_JOB_STATE_PROCESSING \<and> (\<forall>r. valid_ref r job \<longrightarrow> running (get_jp r job)))"

lemma start_job_unmarked:
  assumes "daemon_ok w" and "w_printers w p = Some prn" and "\<not> prn_job_outgoing prn" and "w_jobs w j = Some job"
    and "jb_state job = PD_JOB_STATE_PENDING" and "jb_state_reasons job = []" and "os_ok env"
  obtains job' where "pd_engine_start_job G env p j w = upd_job j (\<lambda>_. job')
      (upd_printer p (\<lambda>prn. (pd_printer_set_state PD_PRINTER_STATE_PROCESSING prn)\<lparr>prn_job_outgoing := True\<rparr>) w)"
    and "sent_or_failed job'"
proof -
  obtain printer where e: "pd_engine_start_job G env p j w = upd_job j (\<lambda>_. pd_job_impl_start_sending G env printer (sent_job job))
      (upd_printer p (\<lambda>prn. (pd_printer_set_state PD_PRINTER_STATE_PROCESSING prn)\<lparr>prn_job_outgoing := True\<rparr>) w)"
    by (rule start_job_sends [OF assms(2,4,3)])
  let ?J = "pd_job_impl_start_sending G env printer (sent_job job)"
  have ok: "job_ok (job\<lparr>jb_watched_reasons := True\<rparr>)" using job_okD [OF assms(1,4)] by simp
  have sj: "sent_job job = pd_job_set_state PD_JOB_STATE_PROCESSING (job\<lparr>jb_watched_reasons := True\<rparr>)"
    by (simp add: sent_job_def pd_job_set_state_def)
  have "outgoing ?J \<and> (jb_state ?J = PD_JOB_STATE_ABORTED \<and> start_failed ?J \<or> all_up G env (sent_job job) ?J)"
    unfolding sj using assms(5,6) by (intro start_sending_fails_or_runs [OF ok _ _ assms(7)]) simp_all
  moreover have "jb_state (sent_job job) = PD_JOB_STATE_PROCESSING" by (simp add: sent_job_def)
  moreover have "jkey ?J = jkey (sent_job job)" by simp
  then have "jb_watched_reasons ?J" by (simp add: jkey_def sent_job_def)
  ultimately have "sent_or_failed ?J" unfolding all_up_def sent_or_failed_def by metis
  from that [OF e this] show ?thesis .
qed

subsection \<open>Properties of the daemon\<close>

text \<open>C5: In every state the daemon can reach, whatever clients call, udev reports and processes do:
  the registries, queues and the bus are consistent, every job keeps its invariant, and of the
  jobs in the queue of one printer at most one has the reason job-outgoing, and then the printer
  is marked as sending.\<close>

theorem one_job_outgoing:
  assumes "glib_contract G" and "daemon_steps G (pd_engine_start G us) w"
  shows "reg_inv w \<and> (\<forall>j job. w_jobs w j = Some job \<longrightarrow> job_ok job)
    \<and> (\<forall>p prn j k a b. w_printers w p = Some prn \<and> j \<in> set (prn_jobs prn) \<and> k \<in> set (prn_jobs prn)
         \<and> w_jobs w j = Some a \<and> w_jobs w k = Some b \<and> outgoing a \<and> outgoing b
         \<longrightarrow> j = k \<and> prn_job_outgoing prn)"
proof -
  have ok: "daemon_ok w" by (rule reachable_ok [OF assms])
  note inv = daemon_okD [OF ok]
  have "j = k \<and> prn_job_outgoing prn"
    if p: "w_printers w p = Some prn" "j \<in> set (prn_jobs prn)" "k \<in> set (prn_jobs prn)"
      and jobs: "w_jobs w j = Some a" "w_jobs w k = Some b" "outgoing a" "outgoing b" for p prn j k a b
  proof -
    from inv(2) jobs have "watched w j" "watched w k" by (simp_all add: jobs_ok_def job_kept_def watched_def)
    moreover from p have "j \<in> set (queue w p)" "k \<in> set (queue w p)" by (simp_all add: queue_def)
    ultimately have "sending w p" "j = k" using inv(3) unfolding outgoing_ok_def by blast+
    with p(1) show ?thesis by (simp add: sending_def)
  qed
  with inv(1) job_okD [OF ok] show ?thesis by blast
qed

theorem one_job_outgoing_witness:
  "\<exists>w prn a. daemon_steps glib_doc (pd_engine_start glib_doc []) w \<and> w_printers w 0 = Some prn \<and> w_jobs w 1 = Some a
    \<and> outgoing a \<and> job_ok a \<and> prn_job_outgoing prn"
proof -
  obtain w prn job where w: "daemon_steps glib_doc (pd_engine_start glib_doc []) w" "w_printers w 0 = Some prn"
    "prn_jobs prn = [1]" "w_jobs w = [1 \<mapsto> job]" "outgoing job" by (rule failed_office)
  then have j: "w_jobs w 1 = Some job" "1 \<in> set (prn_jobs prn)" by simp_all
  from one_job_outgoing [OF glib_doc_contract w(1)] w(2,5) j have "job_ok job" "prn_job_outgoing prn" by blast+
  with w j(1) show ?thesis by blast
qed



text \<open>C8: The engine starts a pending job. On a printer that is sending, the job only becomes
  PROCESSING. Otherwise the printer is marked and the job becomes outgoing; all its processes
  run, or it is aborted with the backend not started. Nothing else changes.\<close>

theorem start_job_outcome:
  assumes "daemon_ok w" and "w_printers w p = Some prn" and "j \<in> set (prn_jobs prn)" and "w_jobs w j = Some job"
    and "jb_state job = PD_JOB_STATE_PENDING" and "jb_state_reasons job = []" and "os_ok env"
  shows "\<exists>prn' job'. let w' = pd_engine_start_job G env p j w in
    w_printers w' = (w_printers w)(p \<mapsto> prn') \<and> w_jobs w' = (w_jobs w)(j \<mapsto> job') \<and> w_exported w' = w_exported w
    \<and> prn_state prn' = PD_PRINTER_STATE_PROCESSING \<and> prn_job_outgoing prn' \<and> prn_jobs prn' = prn_jobs prn
    \<and> (if prn_job_outgoing prn
       then job' = pd_job_set_state PD_JOB_STATE_PROCESSING job
       else outgoing job' \<and> jb_watched_reasons job'
         \<and> (jb_state job' = PD_JOB_STATE_ABORTED \<and> start_failed job'
            \<or> jb_state job' = PD_JOB_STATE_PROCESSING \<and> (\<forall>r. valid_ref r job' \<longrightarrow> running (get_jp r job'))))"
proof (cases "prn_job_outgoing prn")
  case True
  then show ?thesis using assms(2,4)
    by (intro exI [of _ "pd_printer_set_state PD_PRINTER_STATE_PROCESSING prn"] exI [of _ "pd_job_set_state PD_JOB_STATE_PROCESSING job"])
      (simp add: start_job_waits [OF assms(2)] pd_printer_set_state_def fun_eq_iff)
next
  case False
  obtain job' where "pd_engine_start_job G env p j w = upd_job j (\<lambda>_. job')
      (upd_printer p (\<lambda>prn. (pd_printer_set_state PD_PRINTER_STATE_PROCESSING prn)\<lparr>prn_job_outgoing := True\<rparr>) w)"
    "sent_or_failed job'" by (rule start_job_unmarked [OF assms(1,2) False assms(4-7)])
  then show ?thesis using False assms(2,4)
    by (intro exI [of _ "(pd_printer_set_state PD_PRINTER_STATE_PROCESSING prn)\<lparr>prn_job_outgoing := True\<rparr>"] exI [of _ job'])
      (simp add: pd_printer_set_state_def fun_eq_iff sent_or_failed_def)
qed

theorem start_job_outcome_witness:
  "\<exists>w job. w_jobs (pd_engine_start_job glib_doc sample_env 0 1 w) 1 = Some job \<and> outgoing job"
proof -
  obtain w job where w: "daemon_steps glib_doc office w" "w_jobs w = (w_jobs office)(w_next office \<mapsto> job)"
    "jb_state job = PD_JOB_STATE_PENDING" "jb_state_reasons job = []"
    "w_printers w = (w_printers office)(0 \<mapsto> laser\<lparr>prn_jobs := prn_jobs laser @ [w_next office]\<rparr>)"
    by (rule submit [OF office_ok(1,3) office_simps(3) office_ok(2)])
  have ok: "daemon_ok w" by (rule evolves_steps_ok [OF steps_evolve [OF glib_doc_contract w(1) office_ok(1)] office_ok(1)])
  have p: "w_printers w 0 = Some (laser\<lparr>prn_jobs := [1]\<rparr>)" "1 \<in> set (prn_jobs (laser\<lparr>prn_jobs := [1]\<rparr>))"
    "w_jobs w 1 = Some job" using w(2,5) by simp_all
  from start_job_outcome [OF ok p w(3,4) sample_startable(2), of glib_doc]
  show ?thesis by (auto simp: Let_def intro!: exI [of _ w])
qed

text \<open>C9: A queue is blocked by a job whose start failed (it is spooled, not pending any more, has
  no backend, and job-outgoing is its first reason): whatever happens afterwards, as long as the
  printer exists it stays marked as sending, and no job of its queue that had not been started
  before, or that is created later, is ever started.\<close>

theorem failed_start_blocks_queue:
  assumes "glib_contract G" and "daemon_ok w" and "w_printers w p = Some prn" and "j \<in> set (prn_jobs prn)"
    and "w_jobs w j = Some job" and "start_failed job" and "daemon_steps G w w'" and "w_printers w' p = Some prn'"
  shows "prn_job_outgoing prn'
    \<and> (\<forall>k\<in>set (prn_jobs prn'). \<forall>job'. w_jobs w' k = Some job' \<longrightarrow>
         (\<exists>old. w_jobs w k = Some old \<and> \<not> never_started old) \<or> never_started job')"
proof -
  have e: "evolves\<^sup>*\<^sup>* w w'" by (rule steps_evolve [OF assms(1,7,2)])
  have q: "queue w p = prn_jobs prn" "queue w' p = prn_jobs prn'" using assms(3,8) by (simp_all add: queue_def)
  have "blocked w p j w" using assms(4-6) unfolding blocked_def q by blast
  from blocked_lasts [OF e assms(2,3) this] assms(8) have b: "blocked w p j w'" by simp
  then obtain a where "j \<in> set (queue w' p)" "w_jobs w' j = Some a" "start_failed a" by (auto simp: blocked_def)
  from start_failed_sending [OF evolves_steps_ok [OF e assms(2)] this] assms(8) have "prn_job_outgoing prn'"
    by (simp add: sending_def)
  with b show ?thesis unfolding blocked_def q by blast
qed

theorem failed_start_blocks_queue_witness:
  "\<exists>w w' prn k job. daemon_steps glib_doc w w' \<and> w_printers w' 0 = Some prn \<and> prn_job_outgoing prn
    \<and> k \<in> set (prn_jobs prn) \<and> w_jobs w' k = Some job \<and> jb_state job = PD_JOB_STATE_PENDING \<and> never_started job"
proof -
  obtain w prn job where w: "daemon_ok w" "w_printers w 0 = Some prn" "like_laser prn" "prn_jobs prn = [1]"
    "w_jobs w = [1 \<mapsto> job]" "start_failed job" "w_exported w (printer_path_of ''Laser'') = Some (Obj_printer 0)"
    by (rule failed_office)
  let ?k = "w_next w" and ?prn = "prn\<lparr>prn_jobs := prn_jobs prn @ [w_next w]\<rparr>"
  obtain w' job' where s: "daemon_steps glib_doc w w'" "w_jobs w' = (w_jobs w)(?k \<mapsto> job')" "jb_state job' = PD_JOB_STATE_PENDING"
    "w_printers w' = (w_printers w)(0 \<mapsto> ?prn)" by (rule submit [OF w(1,7,2,3)])
  have j: "1 \<in> set (prn_jobs prn)" "w_jobs w 1 = Some job" using w(4,5) by simp_all
  have p': "w_printers w' 0 = Some ?prn" "w_jobs w' ?k = Some job'" "?k \<in> set (prn_jobs ?prn)" using s by simp_all
  have "w_jobs w ?k = None" using w(1) by (simp add: daemon_ok_def reg_inv_def fresh_ok_def)
  with failed_start_blocks_queue [OF glib_doc_contract w(1,2) j w(6) s(1) p'(1)] p'(2,3)
  have "prn_job_outgoing ?prn" "never_started job'" by auto
  with s(1,3) p' show ?thesis by blast
qed

text \<open>C10: While a printer is marked as sending, a job of its queue that becomes terminal makes it
  idle, and the next pending job becomes PROCESSING without being sent. Nobody starts it later:
  whatever happens, as long as it exists, it was never started and is not pending. This happens
  when a pending job is cancelled during the printing of another, when a start fails, and when
  the backend of a job exits last: the job notifies the changes of its two properties in reverse
  order, so its new state is seen before the engine clears the mark.\<close>

theorem next_job_passed_over:
  assumes "glib_contract G" and "daemon_ok w" and "os_ok env" and "w_printers w p = Some prn"
    and "prn_state prn = PD_PRINTER_STATE_PROCESSING" and "prn_job_outgoing prn"
    and "w_jobs w k = Some ended" and "job_terminal (jb_state ended)" and "printer_at w (jb_printer ended) = Some p"
    and "pd_printer_impl_get_next_job (job_state_of w) prn = Some j"
    and "w1 = pd_printer_impl_job_state_notify k w" and "w2 = pd_engine_printer_state_notify G env p w1"
    and "daemon_steps G w2 w3" and "w_jobs w3 j = Some job"
  shows "map_option prn_state (w_printers w1 p) = Some PD_PRINTER_STATE_IDLE \<and> job_state_of w2 j = PD_JOB_STATE_PROCESSING
    \<and> jb_state job \<noteq> PD_JOB_STATE_PENDING \<and> never_started job"
proof -
  let ?prn1 = "pd_printer_set_state PD_PRINTER_STATE_IDLE prn"
  have w1: "w1 = upd_printer p (\<lambda>_. ?prn1) w"
    using assms(4,5,7-9,11) by (simp add: pd_printer_impl_job_state_notify_def job_terminal_def upd_printer_def)
  have st: "job_state_of w1 = job_state_of w" by (simp add: w1 job_state_of_def fun_eq_iff)
  have p1: "w_printers w1 p = Some ?prn1" using assms(4) by (simp add: w1)
  have f1: "prn_state ?prn1 = PD_PRINTER_STATE_IDLE" "prn_job_outgoing ?prn1" "prn_jobs ?prn1 = prn_jobs prn"
    using assms(6) by (simp_all add: pd_printer_set_state_def)
  have n: "pd_printer_impl_get_next_job (job_state_of w1) ?prn1 = Some j"
    using assms(10) f1(3) by (simp add: st pd_printer_impl_get_next_job_def)
  from next_job_pending [OF assms(10)] job_state_pending obtain old where
    old: "j \<in> set (prn_jobs prn)" "w_jobs w j = Some old" "jb_state old = PD_JOB_STATE_PENDING" by blast
  have w2: "w2 = pd_engine_start_job G env p j w1"
    using assms(12) p1 f1(1) n by (simp add: pd_engine_printer_state_notify_def)
  have ok1: "daemon_ok w1" using evolves_steps_ok [OF evolves_printer_job_state [OF assms(2)] assms(2)] assms(11) by simp
  have ok2: "daemon_ok w2" using evolves_steps_ok [OF evolves_engine_printer_state [OF ok1 assms(3)] ok1] assms(12) by simp
  have j2: "w_jobs w2 j = Some (pd_job_set_state PD_JOB_STATE_PROCESSING old)"
    unfolding w2 start_job_waits [OF p1 f1(2)] using old(2) by (simp add: w1)
  have po: "passed_over (pd_job_set_state PD_JOB_STATE_PROCESSING old)"
    by (rule pending_passed_over [OF job_okD [OF assms(2) old(2)] old(3)])
  have "passed_over job"
    using passed_over_lasts [OF steps_evolve [OF assms(1,13) ok2] ok2 j2 po] assms(14) by blast
  moreover have "job_state_of w2 j = PD_JOB_STATE_PROCESSING" by (simp add: job_state_of_def j2)
  ultimately show ?thesis using p1 f1(1) by (simp add: passed_over_def)
qed

theorem next_job_passed_over_witness:
  "\<exists>w k job. job_state_of w k = PD_JOB_STATE_PROCESSING \<and> daemon_ok w
    \<and> w_jobs (pd_engine_handle_uevent glib_doc ''add'' (usb_printer ''/sys/1'') w) k = Some job \<and> never_started job"
proof -
  let ?path = "printer_path_of ''Laser''"
  obtain w1 a where a: "daemon_steps glib_doc office w1" "w_jobs w1 = (w_jobs office)(w_next office \<mapsto> a)"
    "jb_state a = PD_JOB_STATE_PENDING" "jb_state_reasons a = []" "jb_printer a = ?path"
    "w_printers w1 = (w_printers office)(0 \<mapsto> laser\<lparr>prn_jobs := prn_jobs laser @ [w_next office]\<rparr>)"
    "w_exported w1 ?path = Some (Obj_printer 0)"
    by (rule submit [OF office_ok(1,3) office_simps(3) office_ok(2)])
  let ?prn1 = "laser\<lparr>prn_jobs := [1]\<rparr>"
  have ok1: "daemon_ok w1" by (rule evolves_steps_ok [OF steps_evolve [OF glib_doc_contract a(1) office_ok(1)] office_ok(1)])
  have p1: "w_printers w1 0 = Some ?prn1" "like_laser ?prn1" using a(6) office_ok(2) by (simp_all add: like_laser_def)
  obtain w2 b where b: "daemon_steps glib_doc w1 w2" "w_jobs w2 = (w_jobs w1)(w_next w1 \<mapsto> b)" "jb_state b = PD_JOB_STATE_PENDING"
    "w_printers w2 = (w_printers w1)(0 \<mapsto> ?prn1\<lparr>prn_jobs := prn_jobs ?prn1 @ [w_next w1]\<rparr>)"
    "w_exported w2 ?path = Some (Obj_printer 0)"
    by (rule submit [OF ok1 a(7) p1])
  have ok2: "daemon_ok w2" by (rule evolves_steps_ok [OF steps_evolve [OF glib_doc_contract b(1) ok1] ok1])
  have "1 < w_next w1" using live_below(1) [OF ok1, of 1 a] a(2) by simp
  then have n: "w_next w1 \<noteq> 1" by simp
  let ?k = "w_next w1"
  let ?prn2 = "laser\<lparr>prn_jobs := [1, ?k]\<rparr>"
  have j2: "w_jobs w2 1 = Some a" "w_jobs w2 ?k = Some b" "w_printers w2 0 = Some ?prn2" using a(2) b(2,4) n by simp_all
  let ?w3 = "pd_engine_start_job glib_doc no_files 0 1 w2"
  let ?prn3 = "(pd_printer_set_state PD_PRINTER_STATE_PROCESSING ?prn2)\<lparr>prn_job_outgoing := True\<rparr>"
  obtain c where c: "w_jobs ?w3 = (w_jobs w2)(1 \<mapsto> c)" "w_printers ?w3 = (w_printers w2)(0 \<mapsto> ?prn3)" "w_exported ?w3 = w_exported w2"
    "jb_state c = PD_JOB_STATE_ABORTED" "jb_printer c = jb_printer a" "daemon_ok ?w3"
    by (rule failed_start [OF ok2 j2(3) _ _ j2(1) a(3,4)]) simp_all
  have j3: "w_jobs ?w3 1 = Some c" "w_jobs ?w3 ?k = Some b" "w_printers ?w3 0 = Some ?prn3" using c(1,2) j2 n by simp_all
  have q3: "prn_state ?prn3 = PD_PRINTER_STATE_PROCESSING" "prn_job_outgoing ?prn3" "prn_jobs ?prn3 = [1, ?k]"
    by (simp_all add: pd_printer_set_state_def)
  have next3: "pd_printer_impl_get_next_job (job_state_of ?w3) ?prn3 = Some ?k"
    unfolding pd_printer_impl_get_next_job_def q3(3) using j3 c(4) b(3) by (simp add: job_state_of_def)
  have at3: "printer_at ?w3 (jb_printer c) = Some 0" using c(3,5) a(5) b(5) by (simp add: printer_at_def)
  let ?w4 = "pd_printer_impl_job_state_notify 1 ?w3"
  let ?w5 = "pd_engine_printer_state_notify glib_doc no_files 0 ?w4"
  let ?w6 = "pd_engine_handle_uevent glib_doc ''add'' (usb_printer ''/sys/1'') ?w5"
  have st: "daemon_steps glib_doc ?w5 ?w6" by (rule r_into_rtranclp [of "daemon_step glib_doc"]) (rule step_uevent)
  have ok5: "daemon_ok ?w5"
    using evolves_steps_ok [OF evolves_engine_printer_state [OF evolves_steps_ok [OF evolves_printer_job_state [OF c(6)] c(6)] no_files_ok(1)]]
      evolves_steps_ok [OF evolves_printer_job_state [OF c(6)] c(6)] by blast
  have t: "job_terminal (jb_state c)" using c(4) by simp
  have w6: "w_jobs ?w6 = w_jobs ?w5" using uevent_frame by blast
  note main = next_job_passed_over [OF glib_doc_contract c(6) no_files_ok(1) j3(3) q3(1,2) j3(1) t at3 next3 refl refl st]
  have "w_jobs ?w4 = w_jobs ?w3" by (simp add: pd_printer_impl_job_state_notify_def split: option.split)
  with j3(2) have "w_jobs ?w5 ?k \<noteq> None" by (simp add: printer_state_notify_jobs)
  then obtain job where "w_jobs ?w6 ?k = Some job" using w6 by auto
  with main [of job] ok5 show ?thesis by blast
qed

end
