(* ===== verification/Pd_Progress.thy ===== *)
theory Pd_Progress
  imports Pd_Queue
begin

text \<open>
  What goes well: a job whose processes were started ends, whatever else the daemon does, and its
  exits can follow in any order; and when the engine learns that a job is no longer outgoing before
  the printer learns that it has ended, the next pending job of the queue is sent.
\<close>

subsection \<open>What lasts of a job\<close>

text \<open>A job that is being sent, compared with what it was.\<close>

definition winding :: "job \<Rightarrow> job \<Rightarrow> bool" where
  "winding job j \<longleftrightarrow> jp_started (backend j) \<and> sent_ok j \<and> running_refs j \<subseteq> running_refs job
     \<and> (job_terminal (jb_state job) \<longrightarrow> job_terminal (jb_state j))"

lemma winding_tame: "winding job a \<Longrightarrow> tame a b \<Longrightarrow> winding job b"
  unfolding winding_def tame_def winds_def by blast

lemma started_not_pending: "job_ok job \<Longrightarrow> jp_started (backend job) \<Longrightarrow> jb_state job \<noteq> PD_JOB_STATE_PENDING"
  using pending_never_started by (auto simp: never_started_def fresh_process_def)

lemma sent_job_ok: "daemon_ok w \<Longrightarrow> w_jobs w j = Some job \<Longrightarrow> jp_started (backend job) \<Longrightarrow> sent_ok job"
  by (simp add: daemon_ok_def jobs_ok_def job_kept_def ends_ok_def)

lemma winding_lasts:
  assumes "evolves\<^sup>*\<^sup>* w w'" and ok: "daemon_ok w" and job: "w_jobs w j = Some job" "jp_started (backend job)"
    and "w_jobs w' j = Some job'"
  shows "winding job job'"
proof (rule lasts [where P = "winding job", OF assms(1,2) job(1) _ winding_tame _ assms(5)])
  show "winding job job" using sent_job_ok [OF ok job] job(2) by (simp add: winding_def)
  show "jb_state a \<noteq> PD_JOB_STATE_PENDING" if "winding job a" "job_ok a" for a
    using started_not_pending [OF that(2)] that(1) by (simp add: winding_def)
qed

text \<open>Every exit of a running process is a step, so the exits can follow in any order.\<close>

lemma exits_steps:
  assumes "daemon_ok w" and "w_jobs w j = Some job" and "jp_started (backend job)" and "exits_of job es" and "glib_contract G"
  shows "\<exists>w'. daemon_steps G w w' \<and> w_jobs w' = (w_jobs w)(j \<mapsto> run_exits es job)
    \<and> w_printers w' = w_printers w \<and> w_exported w' = w_exported w"
  using assms
proof (induction es arbitrary: w job)
  case (Cons e es)
  obtain r st where e: "e = (r, st)" by (cases e)
  note x = exits_of_Cons [OF Cons.prems(4) [unfolded e]]
  from Cons.prems(4) e have "r \<in> running_refs job" by (auto simp: exits_of_def)
  with sent_job_ok [OF Cons.prems(1-3)] have r: "jp_process_watch (get_jp r job)" by (simp add: sent_ok_def)
  let ?w1 = "upd_job j (pd_job_impl_process_watch_cb r st) w"
  have s: "daemon_step G w ?w1" by (rule step_exit [OF Cons.prems(2) x(1) r])
  have ok1: "daemon_ok ?w1" by (rule evolves_steps_ok [OF steps_evolve [OF Cons.prems(5) _ Cons.prems(1)] Cons.prems(1)]) (use s in blast)
  have "\<exists>w'. daemon_steps G ?w1 w' \<and> w_jobs w' = (w_jobs ?w1)(j \<mapsto> run_exits es (pd_job_impl_process_watch_cb r st job))
      \<and> w_printers w' = w_printers ?w1 \<and> w_exported w' = w_exported ?w1"
    by (rule Cons.IH [OF ok1 _ _ x(2) Cons.prems(5)]) (use Cons.prems(2,3) in simp_all)
  then obtain w' where w': "daemon_steps G ?w1 w'" "w_jobs w' = (w_jobs ?w1)(j \<mapsto> run_exits es (pd_job_impl_process_watch_cb r st job))"
      "w_printers w' = w_printers ?w1" "w_exported w' = w_exported ?w1" by blast
  have "w_jobs w' = (w_jobs w)(j \<mapsto> run_exits (e # es) job)" using w'(2) e by (simp add: fun_eq_iff)
  moreover have "daemon_steps G w w'" by (rule converse_rtranclp_into_rtranclp [of "daemon_step G"]) (fact s w'(1))+
  ultimately show ?case using w'(3,4) by (intro exI [of _ w']) simp
next
  case Nil
  then show ?case by (intro exI [of _ w]) (simp add: fun_upd_idem)
qed

lemma run_exits_key: "jkey (run_exits es job) = jkey job"
proof (induction es arbitrary: job)
  case (Cons e es)
  then show ?case by (cases e) simp
qed simp

subsection \<open>Starting with everything granted\<close>

lemma start_job_granted:
  assumes G: "glib_contract G" and ok: "daemon_ok w" and env: "os_ok env" "granted env prn"
    and prn: "w_printers w p = Some prn" "\<not> prn_job_outgoing prn"
    and job: "w_jobs w j = Some job" "jb_state job = PD_JOB_STATE_PENDING" "printer_at w (jb_printer job) = Some p"
  obtains job' where "pd_engine_start_job G env p j w = upd_job j (\<lambda>_. job')
      (upd_printer p (\<lambda>prn. (pd_printer_set_state PD_PRINTER_STATE_PROCESSING prn)\<lparr>prn_job_outgoing := True\<rparr>) w)"
    and "all_up G env (sent_job job) job'" and "jkey job' = jkey (sent_job job)"
proof -
  note inv = daemon_okD(1) [OF ok]
  from job(3) have e: "w_exported w (jb_printer job) = Some (Obj_printer p)" by (simp add: printer_at_Some)
  obtain i prn0 where i: "jb_printer job = printer_path_of i" "map_of (w_id_to_printer w) i = Some p" "prn_id prn0 = Some i"
      "w_printers w p = Some prn0" by (rule registered_printer [OF inv e])
  have "printers_ok w" using inv by (simp add: reg_inv_def)
  moreover have "printer_id w p = Some i" using i(3,4) by (simp add: printer_id_def)
  ultimately have "set i \<subseteq> set path_chars" unfolding printers_ok_def by (metis i(4) option.distinct(1) option.inject)
  then have ns: "CHR ''/'' \<notin> set i" using path_chars_no_slash by blast
  let ?f = "\<lambda>prn. (pd_printer_set_state PD_PRINTER_STATE_PROCESSING prn)\<lparr>prn_job_outgoing := True\<rparr>"
  let ?J = "pd_job_impl_start_sending G env (Some (?f prn)) (sent_job job)"
  have l: "pd_engine_get_printer_by_path G (jb_printer (sent_job job)) w3 = Some p" if "w_id_to_printer w3 = w_id_to_printer w" for w3
    using get_printer_by_path_of [OF G ns, of w3] that i(1,2) by (simp add: sent_job_def pd_job_set_state_def)
  have E: "pd_engine_start_job G env p j w = upd_job j (\<lambda>_. ?J) (upd_printer p ?f w)"
    using prn job(1) l by (simp add: pd_engine_start_job_def Let_def upd_job_def upd_printer_def pd_printer_set_state_def sent_job_def)
  have o: "job_ok (job\<lparr>jb_watched_reasons := True\<rparr>)" "jb_state (job\<lparr>jb_watched_reasons := True\<rparr>) = PD_JOB_STATE_PENDING"
    using job_okD [OF ok job(1)] job(2) by simp_all
  have sj: "sent_job job = pd_job_set_state PD_JOB_STATE_PROCESSING (job\<lparr>jb_watched_reasons := True\<rparr>)"
    by (simp add: sent_job_def pd_job_set_state_def)
  have "granted env (?f prn)" using env(2) by (simp add: granted_def pd_printer_set_state_def)
  with start_sending_cases [OF startable_pending [OF o] env(1) refl, unfolded sj [symmetric], of G "Some (?f prn)" "?f prn"]
  have "all_up G env (sent_job job) ?J" by blast
  with that E show ?thesis by simp
qed

text \<open>An office whose printer has a driver, and a job that is submitted to it and started.\<close>

definition ready_laser :: printer where
  "ready_laser = laser\<lparr>prn_driver := Some ''laser.ppd'', prn_final_content_type := Some ''image/png'', prn_final_filter := Some ''-''\<rparr>"

definition ready_office :: world where
  "ready_office = upd_printer 0 (\<lambda>_. ready_laser) office"

lemma ready_laser_simps [simp]:
  "like_laser ready_laser" "granted sample_env ready_laser" "prn_jobs ready_laser = []"
  "prn_state ready_laser = PD_PRINTER_STATE_IDLE" "\<not> prn_job_outgoing ready_laser"
  by (simp_all add: ready_laser_def like_laser_def granted_def sample_env_def)

lemma ready_office_simps [simp]:
  "w_printers ready_office 0 = Some ready_laser" "w_next ready_office = 1" "w_jobs ready_office j = None"
  "w_exported ready_office (printer_path_of ''Laser'') = Some (Obj_printer 0)"
  by (simp_all add: ready_office_def)

lemma ready_office_ok: "daemon_ok ready_office"
proof -
  have "evolves office ready_office"
    unfolding ready_office_def
    by (rule evolves_printer [OF office_ok(1)]) (simp add: same_printer_def ready_laser_def)
  then show ?thesis by (simp add: evolves_def)
qed

lemma started_office:
  obtains before w job where "daemon_steps glib_doc ready_office w" and "daemon_ok w" and "w_jobs w = [1 \<mapsto> job]"
    and "all_up glib_doc sample_env before job" and "jb_state job = PD_JOB_STATE_PROCESSING"
    and "jb_printer job = printer_path_of ''Laser''" and "jb_watched_reasons job"
    and "w_printers w 0 = Some ((pd_printer_set_state PD_PRINTER_STATE_PROCESSING (ready_laser\<lparr>prn_jobs := [1]\<rparr>))\<lparr>prn_job_outgoing := True\<rparr>)"
    and "w_exported w (printer_path_of ''Laser'') = Some (Obj_printer 0)"
proof -
  obtain w job where w: "daemon_steps glib_doc ready_office w" "w_jobs w = (w_jobs ready_office)(w_next ready_office \<mapsto> job)"
    "jb_state job = PD_JOB_STATE_PENDING" "jb_printer job = printer_path_of ''Laser''"
    "w_printers w = (w_printers ready_office)(0 \<mapsto> ready_laser\<lparr>prn_jobs := prn_jobs ready_laser @ [w_next ready_office]\<rparr>)"
    "w_exported w (printer_path_of ''Laser'') = Some (Obj_printer 0)" "jb_watched_engine job" "jb_notify_state job"
    by (rule submit [OF ready_office_ok ready_office_simps(4,1) ready_laser_simps(1)])
  let ?prn = "ready_laser\<lparr>prn_jobs := [1]\<rparr>"
  let ?job = "job\<lparr>jb_notify_state := False, jb_watched_engine := False\<rparr>"
  let ?w1 = "upd_job 1 (\<lambda>_. ?job) w"
  note ok = evolves_steps_ok [OF steps_evolve [OF glib_doc_contract w(1) ready_office_ok] ready_office_ok]
  have j: "w_jobs w 1 = Some job" "w_jobs w = [1 \<mapsto> job]" using w(2) by (simp_all add: fun_eq_iff)
  have p: "w_printers w 0 = Some ?prn" "prn_state ?prn = PD_PRINTER_STATE_IDLE" "\<not> prn_job_outgoing ?prn" "granted sample_env ?prn"
    using w(5) ready_laser_simps(2) by (simp_all add: granted_def)
  have "tame job (job\<lparr>jb_notify_state := False\<rparr>)" by (rule tame_upd(4) [OF job_okD [OF ok j(1)]])
  moreover from this have "job_ok (job\<lparr>jb_notify_state := False\<rparr>)" by (simp add: tame_def)
  then have "tame (job\<lparr>jb_notify_state := False\<rparr>) ?job" by (rule tame_upd(1))
  ultimately have t: "tame job ?job" by (rule tame_trans)
  have "evolves w ?w1" by (rule evolves_job [OF ok]) (use t j(1) in simp)
  then have ok1: "daemon_ok ?w1" by (simp add: evolves_def)
  have at: "printer_at w (jb_printer job) = Some 0" using w(4,6) by (simp add: printer_at_def)
  obtain job' where s: "pd_engine_start_job glib_doc sample_env 0 1 ?w1 = upd_job 1 (\<lambda>_. job')
      (upd_printer 0 (\<lambda>prn. (pd_printer_set_state PD_PRINTER_STATE_PROCESSING prn)\<lparr>prn_job_outgoing := True\<rparr>) ?w1)"
    "all_up glib_doc sample_env (sent_job ?job) job'" "jkey job' = jkey (sent_job ?job)"
    by (rule start_job_granted [OF glib_doc_contract ok1 sample_startable(2) p(4) _ p(3), where j = 1 and job = ?job])
      (use p(1) j(1) w(3) at in \<open>simp_all add: printer_at_def\<close>)
  have st: "jb_state job' = PD_JOB_STATE_PROCESSING" using s(2) by (simp add: all_up_def sent_job_def)
  let ?w2 = "pd_engine_start_job glib_doc sample_env 0 1 ?w1"
  have j2: "w_jobs ?w2 = [1 \<mapsto> job']" using s(1) j(2) by (simp add: fun_eq_iff)
  have "pd_printer_impl_job_state_notify 1 ?w2 = ?w2"
    using j2 st by (simp add: pd_printer_impl_job_state_notify_def split: option.split)
  then have "emit_job_state glib_doc sample_env 1 w = ?w2"
    using emit_pending [OF j(1) w(3,7) at p(1,2), of glib_doc sample_env] by (simp add: Let_def)
  with step_job_state [OF j(1) w(8) sample_startable(2), of glib_doc] have "daemon_step glib_doc w ?w2" by simp
  with w(1) have r: "daemon_steps glib_doc ready_office ?w2" by simp
  have ok2: "daemon_ok ?w2" by (rule evolves_steps_ok [OF steps_evolve [OF glib_doc_contract r ready_office_ok] ready_office_ok])
  have "jb_printer job' = printer_path_of ''Laser''" "jb_watched_reasons job'"
    using s(3) w(4) by (simp_all add: jkey_def sent_job_def pd_job_set_state_def)
  moreover have "w_printers ?w2 0 = Some ((pd_printer_set_state PD_PRINTER_STATE_PROCESSING ?prn)\<lparr>prn_job_outgoing := True\<rparr>)"
    "w_exported ?w2 (printer_path_of ''Laser'') = Some (Obj_printer 0)" unfolding s(1) using p(1) w(6) by simp_all
  ultimately show ?thesis using that [OF r ok2 j2 s(2) st] by blast
qed

lemma tame_flags: "job_ok job \<Longrightarrow> tame job (job\<lparr>jb_watched_printer := x, jb_notify_state := y, jb_notify_reasons := z\<rparr>)"
proof -
  assume ok: "job_ok job"
  have 1: "tame job (job\<lparr>jb_watched_printer := x\<rparr>)" by (rule tame_upd(2) [OF ok])
  have 2: "tame (job\<lparr>jb_watched_printer := x\<rparr>) (job\<lparr>jb_watched_printer := x, jb_notify_state := y\<rparr>)"
    by (rule tame_upd(4)) (use ok in simp)
  have 3: "tame (job\<lparr>jb_watched_printer := x, jb_notify_state := y\<rparr>)
      (job\<lparr>jb_watched_printer := x, jb_notify_state := y, jb_notify_reasons := z\<rparr>)"
    by (rule tame_upd(5)) (use ok in simp)
  show ?thesis by (rule tame_trans [OF tame_trans [OF 1 2] 3])
qed

lemma second_is_next:
  "prn_jobs prn = [a, b] \<Longrightarrow> f a \<noteq> PD_JOB_STATE_PENDING \<Longrightarrow> f b = PD_JOB_STATE_PENDING \<Longrightarrow>
     pd_printer_impl_get_next_job f prn = Some b"
  by (simp add: pd_printer_impl_get_next_job_def)

lemma clean_exits: "\<exists>es. exits_of job es \<and> (\<forall>(r, st)\<in>set es. st = 0)"
proof -
  have fin: "running_refs job \<subseteq> insert Backend (Filter ` {..<length (filterchain job)})"
  proof
    fix r assume "r \<in> running_refs job"
    then show "r \<in> insert Backend (Filter ` {..<length (filterchain job)})" by (cases r) (auto simp: running_refs_def)
  qed
  then have "finite (running_refs job)" by (rule finite_subset) simp
  then obtain rs where "set rs = running_refs job" "distinct rs" using finite_distinct_list by blast
  then have "exits_of job (map (\<lambda>r. (r, 0)) rs)" by (simp add: exits_of_def comp_def)
  then show ?thesis by (intro exI [of _ "map (\<lambda>r. (r, 0)) rs"]) auto
qed

subsection \<open>The end of a job, seen by its printer\<close>

lemma upd_job_const: "w_jobs w j = Some job \<Longrightarrow> upd_job j f w = upd_job j (\<lambda>_. f job) w"
  by (simp add: upd_job_def)

lemma upd_job_twice [simp]: "upd_job j (\<lambda>_. b) (upd_job j (\<lambda>_. a) w) = upd_job j (\<lambda>_. b) w"
  by (simp add: upd_job_def fun_upd_def fun_eq_iff option.map_comp comp_def)

lemma emit_terminal:
  assumes job: "w_jobs w j = Some job" "job_terminal (jb_state job)" "jb_watched_printer job"
    and p: "printer_at w (jb_printer job) = Some p" "w_printers w p = Some prn" "prn_state prn = PD_PRINTER_STATE_PROCESSING"
  obtains job' where "emit_job_state G env j w = upd_printer p (\<lambda>_. pd_printer_set_state PD_PRINTER_STATE_IDLE prn) (upd_job j (\<lambda>_. job') w)"
    and "jb_state job' = jb_state job" and "jb_printer job' = jb_printer job"
proof -
  let ?J0 = "job\<lparr>jb_notify_state := False\<rparr>"
  let ?J1 = "if jb_watched_impl job then pd_job_impl_job_state_notify ?J0 else ?J0"
  let ?J2 = "if jb_watched_engine job then ?J1\<lparr>jb_watched_engine := False\<rparr> else ?J1"
  let ?w = "\<lambda>x. upd_job j (\<lambda>_. x) w"
  have s0: "jb_state ?J1 = jb_state job" "jb_printer ?J1 = jb_printer job"
    by (simp_all add: pd_job_impl_job_state_notify_def) (simp_all add: job_prop_defs)
  then have s: "jb_state ?J2 = jb_state job" "jb_printer ?J2 = jb_printer job" by simp_all
  have at: "printer_at (?w x) q = printer_at w q" for x q by (simp add: printer_at_def)
  have live: "w_jobs (?w x) j = Some x" for x using job(1) by simp
  have w0: "upd_job j (jb_notify_state_update (\<lambda>_. False)) w = ?w ?J0" by (rule upd_job_const [OF job(1)])
  have w1: "(if jb_watched_impl job then upd_job j pd_job_impl_job_state_notify (?w ?J0) else ?w ?J0) = ?w ?J1"
    using upd_job_const [OF live [of ?J0], of pd_job_impl_job_state_notify] by simp
  have "pd_engine_job_state_notify G env j (?w x) = ?w (x\<lparr>jb_watched_engine := False\<rparr>)"
    if "jb_state x = jb_state job" "jb_printer x = jb_printer job" for x
    unfolding pd_engine_job_state_notify_def live option.case at that(2) p(1)
    using job(2) that(1) upd_job_const [OF live [of x], of "jb_watched_engine_update (\<lambda>_. False)"]
    by (auto simp: job_terminal_def)
  from this [OF s0] have w2: "(if jb_watched_engine job then pd_engine_job_state_notify G env j (?w ?J1) else ?w ?J1) = ?w ?J2" by simp
  have "upd_printer p (\<lambda>prn. if prn_state prn = PD_PRINTER_STATE_PROCESSING
      then pd_printer_set_state PD_PRINTER_STATE_IDLE prn else prn) (?w x)
      = upd_printer p (\<lambda>_. pd_printer_set_state PD_PRINTER_STATE_IDLE prn) (?w x)" for x
    using p(2,3) by (simp add: upd_printer_def)
  then have w3: "pd_printer_impl_job_state_notify j (?w ?J2) = upd_printer p (\<lambda>_. pd_printer_set_state PD_PRINTER_STATE_IDLE prn) (?w ?J2)"
    unfolding pd_printer_impl_job_state_notify_def live option.case s at p(1) using job(2) by (simp add: job_terminal_def)
  have "emit_job_state G env j w = upd_printer p (\<lambda>_. pd_printer_set_state PD_PRINTER_STATE_IDLE prn) (?w ?J2)"
    unfolding emit_job_state_def job(1) option.case Let_def w0 w1 w2 w3 using job(3) by simp
  from that [OF this s] show ?thesis .
qed

subsection \<open>Properties\<close>

text \<open>C6: A job whose backend was started ends, in every state the daemon can be in. Every process
  of it that still runs is watched; whatever happens, none is started again, and once the job is
  terminal it stays so; when none runs any more it is terminal and not outgoing. The exits can
  follow from here in any order and with any status, and lead to such a state.\<close>

theorem sent_job_ends:
  assumes "glib_contract G" and "daemon_ok w" and "w_jobs w j = Some job" and "jp_started (backend job)"
  shows "(\<forall>r\<in>running_refs job. jp_process_watch (get_jp r job))
    \<and> (\<forall>w' job'. daemon_steps G w w' \<and> w_jobs w' j = Some job' \<longrightarrow>
         running_refs job' \<subseteq> running_refs job \<and> (job_terminal (jb_state job) \<longrightarrow> job_terminal (jb_state job'))
         \<and> (running_refs job' = {} \<longrightarrow> job_terminal (jb_state job') \<and> \<not> outgoing job'))
    \<and> (\<forall>es. exits_of job es \<longrightarrow> (\<exists>w'. daemon_steps G w w' \<and> w_jobs w' j = Some (run_exits es job)
         \<and> job_terminal (jb_state (run_exits es job)) \<and> \<not> outgoing (run_exits es job)))"
proof -
  have W: "running_refs job' \<subseteq> running_refs job" "job_terminal (jb_state job) \<longrightarrow> job_terminal (jb_state job')"
      "running_refs job' = {} \<longrightarrow> job_terminal (jb_state job') \<and> \<not> outgoing job'"
    if s: "daemon_steps G w w'" and j: "w_jobs w' j = Some job'" for w' job'
  proof -
    have "winding job job'" by (rule winding_lasts [OF steps_evolve [OF assms(1) s assms(2)] assms(2-4) j])
    then show "running_refs job' \<subseteq> running_refs job" "job_terminal (jb_state job) \<longrightarrow> job_terminal (jb_state job')"
      "running_refs job' = {} \<longrightarrow> job_terminal (jb_state job') \<and> \<not> outgoing job'"
      by (auto simp: winding_def sent_ok_def running_refs_empty)
  qed
  have "\<exists>w'. daemon_steps G w w' \<and> w_jobs w' j = Some (run_exits es job)
      \<and> job_terminal (jb_state (run_exits es job)) \<and> \<not> outgoing (run_exits es job)" if es: "exits_of job es" for es
  proof -
    obtain w' where w': "daemon_steps G w w'" "w_jobs w' j = Some (run_exits es job)"
      using exits_steps [OF assms(2-4) es assms(1)] by auto
    with W(3) [OF w'] run_exits_running [OF es] show ?thesis by blast
  qed
  moreover have "\<forall>r\<in>running_refs job. jp_process_watch (get_jp r job)"
    using sent_job_ok [OF assms(2-4)] by (simp add: sent_ok_def)
  ultimately show ?thesis using W by blast
qed

text \<open>A job that was submitted, started and whose processes all exited with 0 is COMPLETED.\<close>

theorem sent_job_ends_witness:
  "\<exists>w job. daemon_steps glib_doc ready_office w \<and> w_jobs w 1 = Some job \<and> jb_state job = PD_JOB_STATE_COMPLETED \<and> \<not> outgoing job"
proof -
  obtain before w job where w: "daemon_steps glib_doc ready_office w" "daemon_ok w" "w_jobs w = [1 \<mapsto> job]"
    "all_up glib_doc sample_env before job" by (rule started_office)
  then have up: "valid_ref r job \<Longrightarrow> running (get_jp r job)" "pending_job_state job = PD_JOB_STATE_COMPLETED" for r
    by (simp_all add: all_up_def)
  from up(1) [of Backend] have b: "jp_started (backend job)" "running_refs job \<noteq> {}"
    using Backend_running by (auto simp: running_def)
  obtain es where es: "exits_of job es" "\<forall>(r, st)\<in>set es. st = 0" using clean_exits by blast
  have j: "w_jobs w 1 = Some job" using w(3) by simp
  from sent_job_ends [OF glib_doc_contract w(2) j b(1)] es(1) obtain w' where
    w': "daemon_steps glib_doc w w'" "w_jobs w' 1 = Some (run_exits es job)" "\<not> outgoing (run_exits es job)" by blast
  have "es \<noteq> []" using es(1) b(2) by (auto simp: exits_of_def)
  moreover have "\<not> (\<exists>(r, st)\<in>set es. WEXITSTATUS st \<noteq> 0)" using es(2) by (auto simp: WEXITSTATUS_def)
  ultimately have "jb_state (run_exits es job) = PD_JOB_STATE_COMPLETED"
    using run_exits_state [OF es(1) _ b(1)] up(2) by (simp add: run_exits_pending)
  with w(1) w' show ?thesis by (meson rtranclp_trans)
qed



end
