(* ===== verification/Pd_Main.thy ===== *)
theory Pd_Main
  imports Pd_System
begin

text \<open>
  The process of the daemon: src/main.c and the construction of the daemon object in
  src/pd-daemon.c. The main loop calls back when the bus was acquired, when its name was lost
  and when SIGINT arrives; in between the daemon takes the steps of Pd_System.
\<close>

subsection \<open>The daemon object\<close>

text \<open>
  pd_daemon_constructed: on the session bus there is no authority and none is asked; on the
  system bus the daemon ends with g_error, the value None, when PolicyKit cannot be reached.
  The devices that udev knows (us) are entered by pd_engine_start.
\<close>

definition pd_daemon_constructed :: "glib \<Rightarrow> polkit option \<Rightarrow> udev list \<Rightarrow> bool \<Rightarrow> (daemon_env \<times> world) option" where
  "pd_daemon_constructed G polkit_authority us session =
     (if session then Some (\<lparr>is_session = True, authority = (\<lambda>_ _. Polkit_error)\<rparr>, pd_engine_start G us)
      else (case polkit_authority of
              None \<Rightarrow> None
            | Some polkit \<Rightarrow> Some (\<lparr>is_session = False, authority = polkit\<rparr>, pd_engine_start G us)))"

subsection \<open>The main program\<close>

record main_opts =
  opt_replace :: bool
  opt_no_sigint :: bool
  opt_session :: bool

text \<open>
  The process runs, has returned from main, has been ended by g_error, or was killed by SIGINT.
  What main gives back before it returns is recorded in the order of the code.
\<close>

datatype release = Remove_sigint_source | Unref_daemon | Unown_name | Unref_loop | Free_options

datatype main_phase = Running | Exited int | Aborted | Killed_by_sigint

record main_state =
  mn_phase :: main_phase
  loop_running :: bool
  the_daemon :: "(daemon_env \<times> world) option"
  sigint_id :: bool
  name_owner_id :: "(bool \<times> bool) option"
  loop_made :: bool
  opt_context :: bool
  mn_released :: "release list"

definition main_zero :: main_state where
  "main_zero = \<lparr>mn_phase = Running, loop_running = False, the_daemon = None, sigint_id = False, name_owner_id = None,
     loop_made = False, opt_context = False, mn_released = []\<rparr>"

text \<open>The label out.\<close>

definition main_out :: "int \<Rightarrow> main_state \<Rightarrow> main_state" where
  "main_out ret st = st\<lparr>mn_phase := Exited ret, mn_released :=
     (if sigint_id st then [Remove_sigint_source] else [])
     @ (if the_daemon st \<noteq> None then [Unref_daemon] else [])
     @ (if name_owner_id st \<noteq> None then [Unown_name] else [])
     @ (if loop_made st then [Unref_loop] else [])
     @ (if opt_context st then [Free_options] else [])\<rparr>"

text \<open>
  The code before the main loop runs: setenv and the parser of the options may fail. The name is
  asked for on the session bus or the system bus, with or without replacing its owner.
\<close>

definition main_init :: "bool \<Rightarrow> main_opts option \<Rightarrow> main_state" where
  "main_init setenv_ok parsed =
     (if \<not> setenv_ok then main_out 1 main_zero
      else (case parsed of
              None \<Rightarrow> main_out 1 (main_zero\<lparr>opt_context := True\<rparr>)
            | Some opts \<Rightarrow> main_zero\<lparr>opt_context := True, loop_made := True, sigint_id := \<not> opt_no_sigint opts,
                name_owner_id := Some (opt_session opts, opt_replace opts), loop_running := True\<rparr>))"

definition on_bus_acquired :: "glib \<Rightarrow> polkit option \<Rightarrow> udev list \<Rightarrow> main_opts \<Rightarrow> main_state \<Rightarrow> main_state" where
  "on_bus_acquired G polkit_authority us opts st =
     (case pd_daemon_constructed G polkit_authority us (opt_session opts) of
        None \<Rightarrow> st\<lparr>mn_phase := Aborted\<rparr>
      | Some daemon \<Rightarrow> st\<lparr>the_daemon := Some daemon\<rparr>)"

definition on_name_lost :: "main_state \<Rightarrow> main_state" where
  "on_name_lost st =
     (if the_daemon st = None then st\<lparr>mn_phase := Aborted\<rparr> else st\<lparr>loop_running := False\<rparr>)"

definition on_sigint :: "main_state \<Rightarrow> main_state" where
  "on_sigint st = st\<lparr>loop_running := False\<rparr>"

text \<open>
  The steps of a running process. GDBus announces the bus once. Until main leaves the loop other
  callbacks may still be dispatched. on_name_acquired only writes a log message. Without a
  handler SIGINT kills the process.
\<close>

inductive main_step :: "glib \<Rightarrow> main_opts \<Rightarrow> main_state \<Rightarrow> main_state \<Rightarrow> bool" for G opts where
  step_bus_acquired: "mn_phase st = Running \<Longrightarrow> the_daemon st = None \<Longrightarrow>
    main_step G opts st (on_bus_acquired G polkit_authority us opts st)"
| step_name_lost: "mn_phase st = Running \<Longrightarrow> main_step G opts st (on_name_lost st)"
| step_sigint: "mn_phase st = Running \<Longrightarrow>
    main_step G opts st (if sigint_id st then on_sigint st else st\<lparr>mn_phase := Killed_by_sigint\<rparr>)"
| step_daemon: "mn_phase st = Running \<Longrightarrow> the_daemon st = Some (d, w) \<Longrightarrow> daemon_step G w w' \<Longrightarrow>
    main_step G opts st (st\<lparr>the_daemon := Some (d, w')\<rparr>)"
| step_leave: "mn_phase st = Running \<Longrightarrow> \<not> loop_running st \<Longrightarrow> main_step G opts st (main_out 0 st)"

subsection \<open>The invariant\<close>

text \<open>The daemon was made for the bus that the options ask for, and is in a reachable state.\<close>

definition serving :: "glib \<Rightarrow> main_opts \<Rightarrow> main_state \<Rightarrow> bool" where
  "serving G opts st \<longleftrightarrow> (\<forall>d w. the_daemon st = Some (d, w) \<longrightarrow>
     is_session d = opt_session opts \<and> (\<exists>us. daemon_steps G (pd_engine_start G us) w))"

definition main_inv :: "glib \<Rightarrow> main_opts \<Rightarrow> main_state \<Rightarrow> bool" where
  "main_inv G opts st \<longleftrightarrow> serving G opts st \<and> sigint_id st = (\<not> opt_no_sigint opts) \<and> name_owner_id st = Some (opt_session opts, opt_replace opts) \<and> loop_made st
     \<and> opt_context st
     \<and> (case mn_phase st of
          Running \<Rightarrow> mn_released st = [] \<and> (loop_running st \<or> the_daemon st \<noteq> None \<or> \<not> opt_no_sigint opts)
        | Exited ret \<Rightarrow> ret = 0 \<and> (the_daemon st \<noteq> None \<or> \<not> opt_no_sigint opts) \<and> mn_released st =
            (if opt_no_sigint opts then [] else [Remove_sigint_source])
            @ (if the_daemon st = None then [] else [Unref_daemon]) @ [Unown_name, Unref_loop, Free_options]
        | Aborted \<Rightarrow> the_daemon st = None \<and> mn_released st = []
        | Killed_by_sigint \<Rightarrow> opt_no_sigint opts \<and> mn_released st = [])"

lemma constructed_serves:
  "pd_daemon_constructed G polkit_authority us session = Some (d, w) \<Longrightarrow> is_session d = session \<and> w = pd_engine_start G us"
  by (auto simp: pd_daemon_constructed_def split: if_splits option.splits)

lemma main_inv_init: "main_inv G opts (main_init True (Some opts))"
  by (simp add: main_inv_def serving_def main_init_def main_zero_def)

lemma serving_step:
  assumes "serving G opts st" and "main_step G opts st st'" shows "serving G opts st'"
  using assms(2)
proof cases
  case (step_bus_acquired polkit_authority us)
  then show ?thesis using assms(1) constructed_serves
    by (auto simp: serving_def on_bus_acquired_def split: option.split) blast
next
  case (step_daemon d w w')
  then obtain us where "is_session d = opt_session opts" "daemon_steps G (pd_engine_start G us) w"
    using assms(1) by (auto simp: serving_def)
  moreover from this(2) step_daemon(4) have "daemon_steps G (pd_engine_start G us) w'" by simp
  ultimately show ?thesis using step_daemon(1) by (auto simp: serving_def)
qed (use assms(1) in \<open>simp_all add: serving_def on_name_lost_def on_sigint_def main_out_def\<close>)

lemma main_inv_step:
  assumes "main_inv G opts st" and "main_step G opts st st'" shows "main_inv G opts st'"
proof -
  have "serving G opts st'" using serving_step [OF _ assms(2)] assms(1) by (simp add: main_inv_def)
  with assms(2,1) show ?thesis
    by cases (auto simp: main_inv_def on_bus_acquired_def on_name_lost_def on_sigint_def main_out_def split: option.splits)
qed

interpretation main: invariant_system "main_step G opts" "\<lambda>st. st = main_init True (Some opts)" "main_inv G opts" for G opts
  by unfold_locales (use main_inv_init main_inv_step in blast)+

lemma no_step_after_exit: "main_step G opts st st' \<Longrightarrow> mn_phase st = Running"
  by (cases rule: main_step.cases) simp_all

subsection \<open>Properties\<close>

text \<open>C34: The life of the daemon process. With a wrong command line, or without an environment, it
  exits with 1 and has never asked for the bus. Otherwise: while it runs, its daemon was made for
  the bus of the options and is in a consistent state; it exits with 0 only, and then it has given
  back exactly what it had acquired, the daemon before the name, and if it never had a daemon the
  cause was SIGINT; g_error ends it only while there
  is no daemon, and SIGINT kills it only when the options say so.\<close>

theorem main_lifecycle:
  assumes "glib_contract G" and "(main_step G opts)\<^sup>*\<^sup>* (main_init setenv_ok parsed) st"
    and "parsed \<in> {None, Some opts}"
  shows "if \<not> setenv_ok \<or> parsed = None
    then mn_phase st = Exited 1 \<and> name_owner_id st = None \<and> mn_released st = (if setenv_ok then [Free_options] else [])
    else name_owner_id st = Some (opt_session opts, opt_replace opts)
      \<and> (case mn_phase st of
            Running \<Rightarrow> mn_released st = [] \<and> (\<forall>d w. the_daemon st = Some (d, w) \<longrightarrow> is_session d = opt_session opts \<and> daemon_ok w)
          | Exited ret \<Rightarrow> ret = 0 \<and> (the_daemon st = None \<longrightarrow> \<not> opt_no_sigint opts) \<and> mn_released st =
              (if opt_no_sigint opts then [] else [Remove_sigint_source])
              @ (if the_daemon st = None then [] else [Unref_daemon]) @ [Unown_name, Unref_loop, Free_options]
          | Aborted \<Rightarrow> the_daemon st = None
          | Killed_by_sigint \<Rightarrow> opt_no_sigint opts)"
proof (cases "setenv_ok \<and> parsed \<noteq> None")
  case True
  then have i: "main_init setenv_ok parsed = main_init True (Some opts)" using assms(3) by auto
  have inv: "main_inv G opts st" by (rule main.reachable_inv [OF refl assms(2) [unfolded i]])
  then have "\<forall>d w. the_daemon st = Some (d, w) \<longrightarrow> is_session d = opt_session opts \<and> daemon_ok w"
    using reachable_ok [OF assms(1)] by (auto simp: main_inv_def serving_def)
  with inv True show ?thesis by (auto simp: main_inv_def split: main_phase.split)
next
  case False
  have ended: "mn_phase (main_init setenv_ok parsed) = Exited 1"
    using False by (auto simp: main_init_def main_out_def)
  from assms(2) ended no_step_after_exit have "st = main_init setenv_ok parsed"
    by (cases rule: converse_rtranclpE) fastforce+
  with False show ?thesis by (auto simp: main_init_def main_out_def main_zero_def)
qed

text \<open>On the session bus, when another daemon has the name: the name is lost at once, and the
  process exits with 0.\<close>

theorem main_lifecycle_witness:
  "\<exists>st. (main_step glib_doc \<lparr>opt_replace = False, opt_no_sigint = False, opt_session = True\<rparr>)\<^sup>*\<^sup>*
      (main_init True (Some \<lparr>opt_replace = False, opt_no_sigint = False, opt_session = True\<rparr>)) st
    \<and> mn_phase st = Exited 0 \<and> mn_released st = [Remove_sigint_source, Unref_daemon, Unown_name, Unref_loop, Free_options]"
proof -
  let ?opts = "\<lparr>opt_replace = False, opt_no_sigint = False, opt_session = True\<rparr>"
  let ?s0 = "main_init True (Some ?opts)"
  let ?s1 = "on_bus_acquired glib_doc None [] ?opts ?s0"
  let ?s2 = "on_name_lost ?s1"
  let ?s3 = "main_out 0 ?s2"
  have p0: "mn_phase ?s0 = Running" "the_daemon ?s0 = None" by (simp_all add: main_init_def main_zero_def)
  have p1: "mn_phase ?s1 = Running" "the_daemon ?s1 \<noteq> None"
    using p0 by (simp_all add: on_bus_acquired_def pd_daemon_constructed_def)
  have "?s2 = ?s1\<lparr>loop_running := False\<rparr>" unfolding on_name_lost_def using p1(2) by (rule if_not_P)
  with p1 have p2: "mn_phase ?s2 = Running" "\<not> loop_running ?s2" "the_daemon ?s2 \<noteq> None" by simp_all
  have "main_step glib_doc ?opts ?s0 ?s1" by (rule step_bus_acquired [OF p0])
  moreover have "main_step glib_doc ?opts ?s1 ?s2" by (rule step_name_lost [OF p1(1)])
  moreover have "main_step glib_doc ?opts ?s2 ?s3" by (rule step_leave [OF p2(1,2)])
  ultimately have s: "(main_step glib_doc ?opts)\<^sup>*\<^sup>* ?s0 ?s3" by (blast intro: converse_rtranclp_into_rtranclp)
  have e: "mn_phase ?s3 = Exited 0" "the_daemon ?s3 \<noteq> None" using p2(3) by (simp_all add: main_out_def)
  from main_lifecycle [OF glib_doc_contract s] e have "mn_released ?s3 = [Remove_sigint_source, Unref_daemon, Unown_name, Unref_loop, Free_options]"
    by simp
  with s e show ?thesis by blast
qed

end
