(* ===== verification/Spec2Isabelle.thy ===== *)
theory Spec2Isabelle
  imports Pd_Print Pd_Progress Pd_Main
begin

text \<open>
  printerd: a D-Bus service for print queues, its client library and its command line client.

  The daemon (src/) keeps printers, which are queues of jobs, and devices that udev reports.
  A job is created on a printer, gets one document as a file descriptor, and is started: the
  document is spooled to a file and the job becomes pending. The engine starts the first
  pending job of an idle printer: a chain of filters and a backend are spawned with pipes
  between them, and the daemon pumps data from the last filter to the backend.

  Theories, and what they model:
    Prelude: C strings and generic lemmas; the locale invariant_system for transition systems.
    Glib: the functions of GLib that are parameters, with their documented laws as the locale
      glib_contract and an instance (glib_doc).
    Hash_Table: the interface of GHashTable as a locale, interpreted on association lists, and
      object paths.
    Pd_Enums (printerd/pd-enums.h, pd-error.c), Pd_Common (src/pd-common.c), Pd_Daemon
      (src/pd-daemon.c, the authorization check), Pd_Device (src/pd-device-impl.c), Pd_Printer
      (src/pd-printer-impl.c): the operations on one object.
    src/pd-job-impl.c is split: Pd_Job (state, exit of a process, cancellation, finalization),
      Pd_Job_Io (the I/O callbacks), Pd_Job_Pump (the data pump as a transition system),
      Pd_Job_Spawn (starting the chain), Pd_Job_Child (the child after fork), Pd_Job_Methods
      (AddDocument, Start, Cancel), Pd_Job_Frame (what the operations leave alone).
    Pd_Engine (src/pd-engine.c): the world, that is the registries of the engine, the bus and
      all objects; Pd_Manager: the methods that reach the engine (src/pd-manager-impl.c, and
      CreatePrinter and CreateJob of the device and the printer); Pd_Registry: the invariant of
      the registries; Pd_Bus: what the operations do, as a client sees it.
    Pd_Job_Reasons, Pd_Job_Ending, Pd_Job_Sending: what every operation on a job does to the reason
      job-outgoing, to the processes of a job that is being sent, and to jobs that are never sent.
    Pd_Service: the methods behind their object paths (the iface_init functions of the four
      objects) and the types of their replies. Pd_System: the daemon as a transition system, whose
      steps are method calls, events of udev, exits of processes, data and messages on their
      pipes, and the notifications of changed properties; its invariant.
    Pd_Queue, Pd_Progress: what follows for the queue of a printer and for its jobs.
    Pd_Main (src/main.c, and the construction in src/pd-daemon.c): the process of the daemon from
      its options to its exit code.
    Pd_Client (printerd/pd-client.c), Pd_Cli (tools/pd-cli.c), and Pd_Print, which runs the
      command line client against the daemon.

  State and operations. A GObject is a record with the fields of its struct and the properties
  of its skeleton; objects are known by address (a number). A definition has the name of the C
  function it models. A D-Bus handler yields the new state and the replies it sent. Results of
  the operating system, PolicyKit, udev, GIO and libcups are arguments. Undefined behaviour
  and failed assertions are the value None. guint is a 32 bit word.

  Lemmas. For a job: the data pump delivers exactly what it read; starting a job wires the
  processes as intended or aborts it; whatever the order of exits, the job ends in a terminal
  state; cancellation kills what runs; the methods check their caller. For the engine: the
  registries, the queues and the bus stay consistent; printers get identifiers of their own.
  For the whole daemon, in every reachable state: a printer sends at most one job, every call is
  answered once with a value of its type; a job whose start failed blocks its queue, and a job
  whose turn comes while the printer is still marked as sending is never started. A job whose
  backend was started ends whatever else happens, and when its end is notified in the right order
  the next job of its queue is sent.
  For the client: changes are coalesced without loss. For the composition: printing a file
  with the command line client puts a pending job into the queue of the printer.

  Notifications. A handler freezes the notifications of its object; the model records in the
  object which of its watched properties were set, and delivers each as a step of its own, in any
  order. The steps assume what the system promises: new descriptors are proper (os_ok), a read or
  a write does not report more bytes than it was given (read_ok, write_ok), and a hash table lists
  each of its entries once (service_ok).

  Bounds. Identifiers of printers are sought among 999 candidates (collision_suffixes), as in
  the code. The filter chain has at most three members. No definition uses fuel: all loops are
  structural recursions.

  Not modelled. Locks and threads: a handler is one step, although the code runs some of them
  in threads of their own. Log output: the macros of src/pd-log.h and the log handlers. The
  GObject boilerplate: class setup, property accessors. Disposal at exit: the printers are finalized from within the finalizer of the object manager of
  GIO, whose tables they still ask for their jobs. The clients written in Python. GLib before 2.40,
  for which the code has its own branches.
\<close>

end
